theory Spec2Isabelle
  imports Complex_Main "HOL-Library.AList"
begin

section \<open>Python primitives used by the two scripts\<close>

text \<open>
  A Python \<open>str\<close> is modelled as a \<open>string\<close>; a \<open>char\<close> stands for a code point in
  the range U+0000 .. U+00FF. \<open>py_isspace\<close> is \<open>str.isspace\<close> on that range: it is the
  set of characters that \<open>str.strip()\<close> and \<open>str.split()\<close> (both without argument) treat
  as whitespace.
\<close>

definition py_isspace :: "char \<Rightarrow> bool" where
  "py_isspace c = (of_char c \<in> set [9, 10, 11, 12, 13, 28, 29, 30, 31, 32, 133, 160 :: nat])"

text \<open>\<open>s.strip()\<close>\<close>

definition strip :: "string \<Rightarrow> string" where
  "strip s = rev (dropWhile py_isspace (rev (dropWhile py_isspace s)))"

text \<open>\<open>s.lstrip(cs)\<close> and \<open>s.rstrip(cs)\<close> with an explicit character set.\<close>

definition lstrip_chars :: "string \<Rightarrow> string \<Rightarrow> string" where
  "lstrip_chars cs s = dropWhile (\<lambda>c. c \<in> set cs) s"

definition rstrip_chars :: "string \<Rightarrow> string \<Rightarrow> string" where
  "rstrip_chars cs s = rev (dropWhile (\<lambda>c. c \<in> set cs) (rev s))"

text \<open>\<open>s.split(c)\<close> for a one-character separator: never the empty list.\<close>

fun split_sep :: "char \<Rightarrow> string \<Rightarrow> string list" where
  "split_sep c [] = [[]]"
| "split_sep c (x # xs) =
     (if x = c then [] # split_sep c xs
      else (case split_sep c xs of
              seg # segs \<Rightarrow> (x # seg) # segs
            | [] \<Rightarrow> [[x]]))"

text \<open>\<open>s.split(c, 1)\<close>: at most one cut, at the first occurrence of the separator.\<close>

definition split_once :: "char \<Rightarrow> string \<Rightarrow> string list" where
  "split_once c s =
     (case dropWhile (\<lambda>x. x \<noteq> c) s of
        [] \<Rightarrow> [s]
      | _ # rest \<Rightarrow> [takeWhile (\<lambda>x. x \<noteq> c) s, rest])"

text \<open>
  \<open>s.split()\<close>: the maximal runs of non-whitespace characters. \<open>split_ws cur s\<close> scans
  \<open>s\<close> with the token read so far in \<open>cur\<close>.
\<close>

fun split_ws :: "string \<Rightarrow> string \<Rightarrow> string list" where
  "split_ws cur [] = (if cur = [] then [] else [cur])"
| "split_ws cur (x # xs) =
     (if py_isspace x then (if cur = [] then split_ws [] xs else cur # split_ws [] xs)
      else split_ws (cur @ [x]) xs)"

definition py_split :: "string \<Rightarrow> string list" where
  "py_split s = split_ws [] s"

text \<open>\<open>s.lower()\<close> on the code points U+0000 .. U+00FF.\<close>

definition lower_char :: "char \<Rightarrow> char" where
  "lower_char c =
     (let n = (of_char c :: nat)
      in if (65 \<le> n \<and> n \<le> 90) \<or> (192 \<le> n \<and> n \<le> 222 \<and> n \<noteq> 215)
         then char_of (n + 32) else c)"

definition lower :: "string \<Rightarrow> string" where
  "lower s = map lower_char s"

text \<open>\<open>s.replace(a, b)\<close> for one-character \<open>a\<close> and \<open>b\<close>.\<close>

definition replace_char :: "char \<Rightarrow> char \<Rightarrow> string \<Rightarrow> string" where
  "replace_char a b s = map (\<lambda>c. if c = a then b else c) s"

text \<open>\<open>sep.join(xs)\<close>\<close>

fun join :: "string \<Rightarrow> string list \<Rightarrow> string" where
  "join sep [] = []"
| "join sep [x] = x"
| "join sep (x # y # ys) = x @ sep @ join sep (y # ys)"

text \<open>Decimal formatting of integers, as f-strings do; \<open>fmt_02d\<close> is the format \<open>:02d\<close>.\<close>

definition digit_char :: "nat \<Rightarrow> char" where
  "digit_char d = ''0123456789'' ! d"

fun str_nat :: "nat \<Rightarrow> string" where
  "str_nat n = (if 10 \<le> n then str_nat (n div 10) @ [digit_char (n mod 10)] else [digit_char n])"

definition str_int :: "int \<Rightarrow> string" where
  "str_int i = (if 0 \<le> i then str_nat (nat i) else CHR ''-'' # str_nat (nat (- i)))"

definition fmt_02d :: "nat \<Rightarrow> string" where
  "fmt_02d n = (if n < 10 then CHR ''0'' # str_nat n else str_nat n)"

text \<open>
  \<open>xs[i:j]\<close> for integers \<open>i\<close> and \<open>j\<close>: a negative index counts from the end, and both
  ends are clamped to the list.
\<close>

definition slice_index :: "nat \<Rightarrow> int \<Rightarrow> nat" where
  "slice_index n i = (if i < 0 then nat (max 0 (int n + i)) else min n (nat i))"

definition py_slice :: "'a list \<Rightarrow> int \<Rightarrow> int \<Rightarrow> 'a list" where
  "py_slice xs i j = drop (slice_index (length xs) i) (take (slice_index (length xs) j) xs)"

text \<open>\<open>d.get(k, default)\<close> on a field that may be absent.\<close>

definition get_or :: "'a \<Rightarrow> 'a option \<Rightarrow> 'a" where
  "get_or dflt v = (case v of None \<Rightarrow> dflt | Some x \<Rightarrow> x)"

text \<open>
  A Python \<open>dict\<close> keeps its keys in insertion order: it is an association list with
  distinct keys. \<open>d[k] = v\<close> is \<open>AList.update k v d\<close> (in place for a key that is present,
  at the end for a new one), \<open>k in d\<close> is \<open>map_of d k \<noteq> None\<close>.
\<close>

type_synonym ('k, 'v) dict = "('k \<times> 'v) list"

text \<open>\<open>d[k].append(v)\<close> on a \<open>defaultdict(list)\<close>.\<close>

definition append_entry :: "'k \<Rightarrow> 'v \<Rightarrow> ('k, 'v list) dict \<Rightarrow> ('k, 'v list) dict" where
  "append_entry k v d = AList.update k (get_or [] (map_of d k) @ [v]) d"

text \<open>The list stored under a key, empty for an absent key.\<close>

definition entries_at :: "('k, 'v list) dict \<Rightarrow> 'k \<Rightarrow> 'v list" where
  "entries_at d k = get_or [] (map_of d k)"

section \<open>The input collection\<close>

text \<open>
  The JSON objects are read with \<open>dict.get\<close>, so every field may be absent: an absent
  field is \<open>None\<close>, and the default is applied where the field is read.
\<close>

record metadata =
  hebrew_date :: "string option"
  gregorian_date :: "string option"
  opening_phrase :: "string option"
  topics :: "string list option"
  key_concepts :: "string list option"
  biblical_references :: "string list option"
  talmudic_references :: "string list option"
  chassidic_references :: "string list option"
  word_count :: "int option"
  chunk_count :: "int option"

record content =
  main_text :: "string option"
  main_text_chunks :: "string list option"
  glossary :: "string option"

record document =
  doc_id :: "string option"
  reference :: "string option"
  doc_metadata :: "metadata option"
  doc_content :: "content option"

record collection_metadata =
  date_range :: "string option"
  other_keys :: "(string, string) dict"

record data =
  documents :: "document list option"
  data_collection_metadata :: "collection_metadata option"

definition empty_metadata :: metadata where
  "empty_metadata = \<lparr>hebrew_date = None, gregorian_date = None, opening_phrase = None,
     topics = None, key_concepts = None, biblical_references = None,
     talmudic_references = None, chassidic_references = None, word_count = None,
     chunk_count = None\<rparr>"

definition empty_content :: content where
  "empty_content = \<lparr>main_text = None, main_text_chunks = None, glossary = None\<rparr>"

definition empty_collection_metadata :: collection_metadata where
  "empty_collection_metadata = \<lparr>date_range = None, other_keys = []\<rparr>"

text \<open>\<open>doc.get('metadata', {})\<close> and \<open>doc.get('content', {})\<close>\<close>

definition get_metadata :: "document \<Rightarrow> metadata" where
  "get_metadata doc = get_or empty_metadata (doc_metadata doc)"

definition get_content :: "document \<Rightarrow> content" where
  "get_content doc = get_or empty_content (doc_content doc)"

text \<open>\<open>doc.get('metadata', {}).get('topics', [])\<close> and its sibling for the concepts.\<close>

definition get_topics :: "document \<Rightarrow> string list" where
  "get_topics doc = get_or [] (topics (get_metadata doc))"

definition get_key_concepts :: "document \<Rightarrow> string list" where
  "get_key_concepts doc = get_or [] (key_concepts (get_metadata doc))"

section \<open>Glossary parsing (shared by both scripts)\<close>

text \<open>
  \<open>glossary_entries\<close> is the list \<open>entries\<close> of both scripts:
  \<^verbatim>\<open>glossary_text = glossary_text.lstrip('|')\<close>,
  \<^verbatim>\<open>entries = [e.strip() for e in glossary_text.split(';') if e.strip()]\<close>.
\<close>

definition glossary_entries :: "string \<Rightarrow> string list" where
  "glossary_entries glossary_text =
     map strip (filter (\<lambda>e. strip e \<noteq> []) (split_sep CHR '';'' (lstrip_chars ''|'' glossary_text)))"

text \<open>
  The Hebrew part of an entry: the term before the first \<open>(\<close> and the transliteration
  between the first and the second \<open>(\<close>, with its trailing \<open>)\<close> removed. The index
  \<open>[1]\<close> is in range, since a string that contains \<open>(\<close> splits into two segments at least.
\<close>

definition parse_hebrew_part :: "string \<Rightarrow> string \<times> string" where
  "parse_hebrew_part hebrew_part =
     (if CHR ''('' \<in> set hebrew_part
      then (strip (split_sep CHR ''('' hebrew_part ! 0),
            strip (rstrip_chars '')'' (split_sep CHR ''('' hebrew_part ! 1)))
      else (hebrew_part, []))"

text \<open>
  One entry of the Indexer's loop: \<open>None\<close> for an entry without \<open>:\<close> (the loop body does
  nothing), else the triple \<open>(hebrew_term, transliteration, english_part)\<close>.
\<close>

definition parse_entry :: "string \<Rightarrow> (string \<times> string \<times> string) option" where
  "parse_entry entry =
     (if CHR '':'' \<in> set entry
      then (let hebrew_part = strip (split_once CHR '':'' entry ! 0);
                english_part = strip (split_once CHR '':'' entry ! 1);
                (hebrew_term, transliteration) = parse_hebrew_part hebrew_part
            in Some (hebrew_term, transliteration, english_part))
      else None)"

section \<open>The Splitter's data (split_maamarim.py)\<close>

text \<open>The \<open>chunk_info\<close> block of a chunk file, and the chunk file itself.\<close>

record chunk_info_block =
  chunk_number :: nat
  total_chunks :: int
  documents_in_chunk :: nat
  document_ids :: "string option list"

record chunk_data =
  chunk_collection_metadata :: collection_metadata
  chunk_info_of :: chunk_info_block
  chunk_documents :: "document list"

text \<open>An entry of \<open>master_index["chunk_info"]\<close>, and the master index.\<close>

record chunk_entry =
  entry_file :: string
  entry_document_ids :: "string option list"
  document_count :: nat

record master_index =
  master_collection_metadata :: collection_metadata
  chunk_info :: "(nat, chunk_entry) dict"
  topic_to_chunks :: "(string, nat list) dict"
  concept_to_chunks :: "(string, nat list) dict"
  doc_id_to_chunk :: "(string option, nat) dict"
  date_to_chunks :: "(string, nat list) dict"
  opening_phrase_to_chunks :: "(string, nat list) dict"
  glossary_term_to_chunks :: "(string, nat list) dict"

section \<open>The Indexer's data (create_search_index.py)\<close>

record summary =
  s_id :: string
  s_reference :: string
  s_hebrew_date :: string
  s_gregorian_date :: string
  s_opening_phrase :: string
  s_topics :: "string list"
  s_key_concepts :: "string list"
  s_word_count :: int
  s_chunk_count :: int

record topic_ref =
  tr_doc_id :: string
  tr_reference :: string
  tr_hebrew_date :: string
  tr_opening_phrase :: string

record concept_ref =
  cr_doc_id :: string
  cr_reference :: string
  cr_topics :: "string list"

record opening_ref =
  or_doc_id :: string
  or_hebrew_date :: string
  or_topics :: "string list"

text \<open>
  The three shapes of a glossary-index record. The arguments are, in order:
  \<open>doc_id\<close>; \<open>transliteration\<close> (for \<open>ByHebrewTerm\<close>) or \<open>hebrew_term\<close> (for the
  other two); \<open>definition\<close> or \<open>full_definition\<close>; \<open>hebrew_date\<close>.
\<close>

datatype glossary_ref =
    ByHebrewTerm string string string string
  | ByTransliteration string string string string
  | ByKeyword string string string string

text \<open>The in-memory indexes of the main loop.\<close>

record index_state =
  topic_index :: "(string, topic_ref list) dict"
  date_index :: "(string, string list) dict"
  concept_index :: "(string, concept_ref list) dict"
  reference_index :: "(string, string list) dict"
  opening_phrase_index :: "(string, opening_ref list) dict"
  glossary_index :: "(string, glossary_ref list) dict"
  document_summary :: "summary list"

text \<open>
  The dictionary \<open>indexes\<close> that is dumped to the JSON file: each index with its count
  (the constant \<open>description\<close> strings are left out).
\<close>

record indexes =
  total_documents :: nat
  ix_documents :: "summary list"
  total_topics :: nat
  ix_topics :: "(string, topic_ref list) dict"
  total_concepts :: nat
  ix_concepts :: "(string, concept_ref list) dict"
  total_dates :: nat
  ix_dates :: "(string, string list) dict"
  total_references :: nat
  ix_references :: "(string, string list) dict"
  total_phrases :: nat
  ix_phrases :: "(string, opening_ref list) dict"
  total_glossary_terms :: nat
  ix_glossary_terms :: "(string, glossary_ref list) dict"

section \<open>Files and errors\<close>

text \<open>
  The file system is a map from paths to files. A JSON file is modelled by the value it
  holds, one constructor for each shape of JSON object that the scripts read or write.
  \<open>TextFile\<close> is a text file that is not JSON, by its lines (every \<open>f.write\<close> of the
  report ends a line, and the report's first line is a title, which no JSON text starts
  with). \<open>Malformed\<close> is any other file that \<open>json.load\<close> rejects. Whether a path
  can be opened for writing (or a directory created) is a parameter \<open>writable\<close> of each
  script.
\<close>

datatype file_value =
    StructuredJson data
  | ChunkJson chunk_data
  | DocJson collection_metadata document
  | MasterIndexJson master_index
  | SearchIndexJson indexes
  | TextFile "string list"
  | Malformed

datatype error =
    FileNotFoundError
  | JSONDecodeError
  | OSError
  | ZeroDivisionError
  | AttributeError
  | KeyError

type_synonym fs = "string \<Rightarrow> file_value option"

text \<open>A run either aborts with an error, leaving the files written so far, or completes.\<close>

type_synonym 'a outcome = "(error \<times> fs) + 'a"

text \<open>
  \<^verbatim>\<open>with open(input_file, 'r') as f: data = json.load(f)\<close>.
  \<open>json.load\<close> accepts every well-formed JSON file, and the scripts read only the keys
  \<open>documents\<close> and \<open>collection_metadata\<close> of the object it returns. A chunk file has
  both keys; a document file and a master index have \<open>collection_metadata\<close> and no
  \<open>documents\<close> (the document file's key is \<open>document\<close>); a search index has neither
  at its top level.
\<close>

definition load :: "fs \<Rightarrow> string \<Rightarrow> data outcome" where
  "load files input_file =
     (case files input_file of
        None \<Rightarrow> Inl (FileNotFoundError, files)
      | Some (StructuredJson d) \<Rightarrow> Inr d
      | Some (ChunkJson c) \<Rightarrow>
          Inr \<lparr>documents = Some (chunk_documents c),
               data_collection_metadata = Some (chunk_collection_metadata c)\<rparr>
      | Some (DocJson cm doc) \<Rightarrow> Inr \<lparr>documents = None, data_collection_metadata = Some cm\<rparr>
      | Some (MasterIndexJson mi) \<Rightarrow>
          Inr \<lparr>documents = None,
               data_collection_metadata = Some (master_collection_metadata mi)\<rparr>
      | Some (SearchIndexJson ix) \<Rightarrow> Inr \<lparr>documents = None, data_collection_metadata = None\<rparr>
      | Some (TextFile ls) \<Rightarrow> Inl (JSONDecodeError, files)
      | Some Malformed \<Rightarrow> Inl (JSONDecodeError, files))"

text \<open>\<^verbatim>\<open>with open(name, 'w') as f: json.dump(value, f)\<close>\<close>

definition write_file :: "(string \<Rightarrow> bool) \<Rightarrow> string \<Rightarrow> file_value \<Rightarrow> fs \<Rightarrow> fs outcome" where
  "write_file writable name f files =
     (if writable name then Inr (files(name \<mapsto> f)) else Inl (OSError, files))"

section \<open>The Splitter (split_maamarim.py)\<close>

text \<open>
  \<^verbatim>\<open>if k not in d: d[k] = []\<close>, then
  \<^verbatim>\<open>if chunk_num + 1 not in d[k]: d[k].append(chunk_num + 1)\<close>:
  the update of every facet of the master index, with \<open>c\<close> the chunk number.
\<close>

definition add_chunk :: "nat \<Rightarrow> 'k \<Rightarrow> ('k, nat list) dict \<Rightarrow> ('k, nat list) dict" where
  "add_chunk c k d =
     (let d1 = (if map_of d k = None then AList.update k [] d else d)
      in if c \<in> set (entries_at d1 k) then d1
         else AList.update k (entries_at d1 k @ [c]) d1)"

text \<open>The body of \<^verbatim>\<open>for entry in entries\<close> in the Splitter (lines 125 to 146).\<close>

definition glossary_term_step :: "nat \<Rightarrow> string \<Rightarrow> (string, nat list) dict \<Rightarrow> (string, nat list) dict" where
  "glossary_term_step c entry d =
     (if CHR '':'' \<in> set entry
      then (let hebrew_part = strip (split_once CHR '':'' entry ! 0);
                (hebrew_term, transliteration) = parse_hebrew_part hebrew_part;
                d1 = (if hebrew_term \<noteq> [] then add_chunk c hebrew_term d else d)
            in if transliteration \<noteq> [] then add_chunk c transliteration d1 else d1)
      else d)"

text \<open>
  The body of the first \<^verbatim>\<open>for doc in chunk_docs\<close> (lines 77 to 146): one document is
  entered into the master index under chunk number \<open>c\<close>.
\<close>

definition index_doc :: "nat \<Rightarrow> document \<Rightarrow> master_index \<Rightarrow> master_index" where
  "index_doc c doc mi =
     (let hebrew = get_or [] (hebrew_date (get_metadata doc));
          gregorian = get_or [] (gregorian_date (get_metadata doc));
          opening = get_or [] (opening_phrase (get_metadata doc));
          glossary_text = get_or [] (glossary (get_content doc));
          dates1 = (if hebrew \<noteq> [] then add_chunk c hebrew (date_to_chunks mi)
                    else date_to_chunks mi);
          dates2 = (if gregorian \<noteq> [] then add_chunk c gregorian dates1 else dates1)
      in mi\<lparr>doc_id_to_chunk := AList.update (doc_id doc) c (doc_id_to_chunk mi),
            topic_to_chunks := fold (add_chunk c) (get_topics doc) (topic_to_chunks mi),
            concept_to_chunks := fold (add_chunk c) (get_key_concepts doc) (concept_to_chunks mi),
            date_to_chunks := dates2,
            opening_phrase_to_chunks :=
              (if opening \<noteq> [] \<and> strip opening \<noteq> []
               then add_chunk c opening (opening_phrase_to_chunks mi)
               else opening_phrase_to_chunks mi),
            glossary_term_to_chunks :=
              (if glossary_text \<noteq> [] \<and> strip glossary_text \<noteq> []
               then fold (glossary_term_step c) (glossary_entries glossary_text)
                      (glossary_term_to_chunks mi)
               else glossary_term_to_chunks mi)\<rparr>)"

text \<open>\<^verbatim>\<open>num_chunks = (len(documents) + docs_per_chunk - 1) // docs_per_chunk\<close>\<close>

definition num_chunks_of :: "document list \<Rightarrow> int \<Rightarrow> int" where
  "num_chunks_of docs docs_per_chunk = (int (length docs) + docs_per_chunk - 1) div docs_per_chunk"

text \<open>Lines 47 to 49: \<open>chunk_docs\<close> for one \<open>chunk_num\<close>.\<close>

definition chunk_docs_at :: "document list \<Rightarrow> int \<Rightarrow> nat \<Rightarrow> document list" where
  "chunk_docs_at docs docs_per_chunk chunk_num =
     (let start_idx = int chunk_num * docs_per_chunk;
          end_idx = min (start_idx + docs_per_chunk) (int (length docs))
      in py_slice docs start_idx end_idx)"

definition chunk_file_name :: "nat \<Rightarrow> string" where
  "chunk_file_name chunk_num = ''maamarim_chunks/maamarim_chunk_'' @ fmt_02d (chunk_num + 1) @ ''.json''"

text \<open>Lines 53 to 62: the value dumped to the chunk file.\<close>

definition chunk_data_at :: "document list \<Rightarrow> int \<Rightarrow> collection_metadata \<Rightarrow> nat \<Rightarrow> chunk_data" where
  "chunk_data_at docs docs_per_chunk cm chunk_num =
     (let chunk_docs = chunk_docs_at docs docs_per_chunk chunk_num
      in \<lparr>chunk_collection_metadata = cm,
          chunk_info_of = \<lparr>chunk_number = chunk_num + 1,
                           total_chunks = num_chunks_of docs docs_per_chunk,
                           documents_in_chunk = length chunk_docs,
                           document_ids = map doc_id chunk_docs\<rparr>,
          chunk_documents = chunk_docs\<rparr>)"

text \<open>
  Lines 69 to 146: the master index after one chunk, its \<open>chunk_info\<close> entry first and
  then every document of the chunk.
\<close>

definition index_chunk :: "document list \<Rightarrow> int \<Rightarrow> nat \<Rightarrow> master_index \<Rightarrow> master_index" where
  "index_chunk docs docs_per_chunk chunk_num mi =
     (let chunk_docs = chunk_docs_at docs docs_per_chunk chunk_num;
          mi1 = mi\<lparr>chunk_info :=
                  AList.update (chunk_num + 1)
                    \<lparr>entry_file = chunk_file_name chunk_num,
                     entry_document_ids = map doc_id chunk_docs,
                     document_count = length chunk_docs\<rparr>
                    (chunk_info mi)\<rparr>
      in fold (index_doc (chunk_num + 1)) chunk_docs mi1)"

text \<open>
  Lines 149 to 161, the second \<^verbatim>\<open>for doc in chunk_docs\<close>: one file per document.
  \<open>doc.get('id')\<close> is \<open>None\<close> for a document without an id, and \<open>None.replace\<close>
  raises \<open>AttributeError\<close>.
\<close>

fun write_doc_files ::
  "(string \<Rightarrow> bool) \<Rightarrow> collection_metadata \<Rightarrow> document list \<Rightarrow> fs \<Rightarrow> fs outcome" where
  "write_doc_files writable cm [] files = Inr files"
| "write_doc_files writable cm (doc # rest) files =
     (case doc_id doc of
        None \<Rightarrow> Inl (AttributeError, files)
      | Some i \<Rightarrow>
          (let safe_doc_id = replace_char (CHR 0x5C) CHR ''_'' (replace_char CHR ''/'' CHR ''_'' i);
               doc_file = ''maamarim_docs/maamarim_doc_'' @ safe_doc_id @ ''.json''
           in case write_file writable doc_file (DocJson cm doc) files of
                Inl e \<Rightarrow> Inl e
              | Inr files1 \<Rightarrow> write_doc_files writable cm rest files1))"

text \<open>The loop \<^verbatim>\<open>for chunk_num in range(num_chunks)\<close> over the chunk numbers still to do.\<close>

fun split_chunks ::
  "(string \<Rightarrow> bool) \<Rightarrow> document list \<Rightarrow> int \<Rightarrow> collection_metadata \<Rightarrow> nat list \<Rightarrow>
     master_index \<times> fs \<Rightarrow> (master_index \<times> fs) outcome" where
  "split_chunks writable docs docs_per_chunk cm [] st = Inr st"
| "split_chunks writable docs docs_per_chunk cm (chunk_num # rest) (mi, files) =
     (case write_file writable (chunk_file_name chunk_num)
             (ChunkJson (chunk_data_at docs docs_per_chunk cm chunk_num)) files of
        Inl e \<Rightarrow> Inl e
      | Inr files1 \<Rightarrow>
          (case write_doc_files writable cm (chunk_docs_at docs docs_per_chunk chunk_num) files1 of
             Inl e \<Rightarrow> Inl e
           | Inr files2 \<Rightarrow>
               split_chunks writable docs docs_per_chunk cm rest
                 (index_chunk docs docs_per_chunk chunk_num mi, files2)))"

definition empty_master_index :: "collection_metadata \<Rightarrow> master_index" where
  "empty_master_index cm =
     \<lparr>master_collection_metadata = cm, chunk_info = [], topic_to_chunks = [],
      concept_to_chunks = [], doc_id_to_chunk = [], date_to_chunks = [],
      opening_phrase_to_chunks = [], glossary_term_to_chunks = []\<rparr>"

text \<open>
  The script. \<open>os.makedirs\<close> comes before the division, which raises for
  \<open>docs_per_chunk = 0\<close>; \<open>range\<close> of a negative number is empty.
\<close>

definition split_maamarim_file :: "(string \<Rightarrow> bool) \<Rightarrow> fs \<Rightarrow> string \<Rightarrow> int \<Rightarrow> fs outcome" where
  "split_maamarim_file writable files input_file docs_per_chunk =
     (case load files input_file of
        Inl e \<Rightarrow> Inl e
      | Inr d \<Rightarrow>
          (let docs = get_or [] (documents d);
               cm = get_or empty_collection_metadata (data_collection_metadata d)
           in if \<not> writable ''maamarim_chunks'' \<or> \<not> writable ''maamarim_docs''
              then Inl (OSError, files)
              else if docs_per_chunk = 0 then Inl (ZeroDivisionError, files)
              else (case split_chunks writable docs docs_per_chunk cm
                           [0..<nat (num_chunks_of docs docs_per_chunk)]
                           (empty_master_index cm, files) of
                      Inl e \<Rightarrow> Inl e
                    | Inr (mi, files1) \<Rightarrow>
                        write_file writable ''maamarim_master_index.json''
                          (MasterIndexJson mi) files1)))"

section \<open>The Indexer (create_search_index.py)\<close>

subsection \<open>The glossary index\<close>

text \<open>
  Lines 152 to 161, the body of \<^verbatim>\<open>for word in english_words\<close>. The length test is on
  the token as split; the stop-word test is on the lower-cased token without its trailing
  punctuation, which is also the key.
\<close>

definition stop_words :: "string list" where
  "stop_words = [''the'', ''and'', ''of'', ''in'', ''to'', ''a'', ''an'']"

definition register_keyword ::
  "string \<Rightarrow> string \<Rightarrow> string \<Rightarrow> string \<Rightarrow> string \<Rightarrow>
     (string, glossary_ref list) dict \<Rightarrow> (string, glossary_ref list) dict" where
  "register_keyword doc_id' hdate hebrew_term english_part word gi =
     (if length word > 3
      then (let word_lower = rstrip_chars ''.,;:'' (lower word)
            in if word_lower \<notin> set stop_words
               then append_entry word_lower (ByKeyword doc_id' hebrew_term english_part hdate) gi
               else gi)
      else gi)"

text \<open>Lines 130 to 161: what one parsed entry adds to the glossary index.\<close>

definition register_entry ::
  "string \<Rightarrow> string \<Rightarrow> string \<times> string \<times> string \<Rightarrow>
     (string, glossary_ref list) dict \<Rightarrow> (string, glossary_ref list) dict" where
  "register_entry doc_id' hdate e gi =
     (case e of (hebrew_term, transliteration, english_part) \<Rightarrow>
        (let g1 = (if hebrew_term \<noteq> []
                   then append_entry hebrew_term
                          (ByHebrewTerm doc_id' transliteration english_part hdate) gi
                   else gi);
             g2 = (if transliteration \<noteq> []
                   then append_entry transliteration
                          (ByTransliteration doc_id' hebrew_term english_part hdate) g1
                   else g1)
         in if english_part \<noteq> []
            then fold (register_keyword doc_id' hdate hebrew_term english_part)
                   (take 3 (py_split english_part)) g2
            else g2))"

text \<open>The body of \<^verbatim>\<open>for entry in entries\<close> (lines 118 to 161).\<close>

definition glossary_step ::
  "string \<Rightarrow> string \<Rightarrow> string \<Rightarrow> (string, glossary_ref list) dict \<Rightarrow> (string, glossary_ref list) dict" where
  "glossary_step doc_id' hdate entry gi =
     (case parse_entry entry of
        None \<Rightarrow> gi
      | Some e \<Rightarrow> register_entry doc_id' hdate e gi)"

text \<open>Lines 108 to 161: the glossary field of one document.\<close>

definition index_glossary ::
  "string \<Rightarrow> string \<Rightarrow> string \<Rightarrow> (string, glossary_ref list) dict \<Rightarrow> (string, glossary_ref list) dict" where
  "index_glossary doc_id' hdate glossary_text gi =
     (if glossary_text \<noteq> [] \<and> strip glossary_text \<noteq> []
      then fold (glossary_step doc_id' hdate) (glossary_entries glossary_text) gi
      else gi)"

text \<open>
  The entries that the loop registers for a glossary field, in order: the candidates of
  \<open>glossary_entries\<close> that \<open>parse_entry\<close> accepts.
\<close>

definition parsed_glossary :: "string \<Rightarrow> (string \<times> string \<times> string) list" where
  "parsed_glossary glossary_text =
     (if glossary_text \<noteq> [] \<and> strip glossary_text \<noteq> []
      then List.map_filter parse_entry (glossary_entries glossary_text)
      else [])"

subsection \<open>The main loop\<close>

text \<open>Lines 41 to 48: the two counts of the summary.\<close>

definition summary_word_count :: "document \<Rightarrow> int" where
  "summary_word_count doc =
     (let text = get_or [] (main_text (get_content doc));
          wc = get_or 0 (word_count (get_metadata doc))
      in if wc = 0 \<and> text \<noteq> [] then int (length (py_split text)) else wc)"

definition summary_chunk_count :: "document \<Rightarrow> int" where
  "summary_chunk_count doc =
     (let chunks = get_or [] (main_text_chunks (get_content doc));
          cc = get_or 0 (chunk_count (get_metadata doc))
      in if cc = 0 then int (length chunks) else cc)"

text \<open>Lines 50 to 60.\<close>

definition summary_of :: "document \<Rightarrow> summary" where
  "summary_of doc =
     \<lparr>s_id = get_or ''unknown'' (doc_id doc),
      s_reference = get_or [] (reference doc),
      s_hebrew_date = get_or [] (hebrew_date (get_metadata doc)),
      s_gregorian_date = get_or [] (gregorian_date (get_metadata doc)),
      s_opening_phrase = get_or [] (opening_phrase (get_metadata doc)),
      s_topics = get_topics doc,
      s_key_concepts = get_key_concepts doc,
      s_word_count = summary_word_count doc,
      s_chunk_count = summary_chunk_count doc\<rparr>"

text \<open>The body of \<^verbatim>\<open>for doc in documents\<close> (lines 32 to 161).\<close>

definition index_document :: "document \<Rightarrow> index_state \<Rightarrow> index_state" where
  "index_document doc st =
     (let doc_id' = get_or ''unknown'' (doc_id doc);
          md = get_metadata doc;
          ref = get_or [] (reference doc);
          hebrew = get_or [] (hebrew_date md);
          gregorian = get_or [] (gregorian_date md);
          opening = get_or [] (opening_phrase md);
          all_refs = get_or [] (biblical_references md) @ get_or [] (talmudic_references md)
                     @ get_or [] (chassidic_references md);
          dates1 = (if hebrew \<noteq> [] then append_entry hebrew doc_id' (date_index st)
                    else date_index st);
          dates2 = (if gregorian \<noteq> [] then append_entry gregorian doc_id' dates1 else dates1)
      in st\<lparr>document_summary := document_summary st @ [summary_of doc],
            topic_index :=
              fold (\<lambda>topic ti.
                      if strip topic \<noteq> []
                      then append_entry topic
                             \<lparr>tr_doc_id = doc_id', tr_reference = ref, tr_hebrew_date = hebrew,
                              tr_opening_phrase = opening\<rparr> ti
                      else ti)
                (get_topics doc) (topic_index st),
            date_index := dates2,
            concept_index :=
              fold (\<lambda>concept ci.
                      if strip concept \<noteq> []
                      then append_entry concept
                             \<lparr>cr_doc_id = doc_id', cr_reference = ref,
                              cr_topics = get_topics doc\<rparr> ci
                      else ci)
                (get_key_concepts doc) (concept_index st),
            reference_index :=
              fold (\<lambda>r ri. if strip r \<noteq> [] then append_entry r doc_id' ri else ri)
                all_refs (reference_index st),
            opening_phrase_index :=
              (if strip opening \<noteq> []
               then append_entry opening
                      \<lparr>or_doc_id = doc_id', or_hebrew_date = hebrew,
                       or_topics = get_topics doc\<rparr> (opening_phrase_index st)
               else opening_phrase_index st),
            glossary_index :=
              index_glossary doc_id' hebrew (get_or [] (glossary (get_content doc)))
                (glossary_index st)\<rparr>)"

definition empty_index_state :: index_state where
  "empty_index_state =
     \<lparr>topic_index = [], date_index = [], concept_index = [], reference_index = [],
      opening_phrase_index = [], glossary_index = [], document_summary = []\<rparr>"

definition build_indexes :: "document list \<Rightarrow> index_state" where
  "build_indexes docs = fold index_document docs empty_index_state"

text \<open>Lines 164 to 200.\<close>

definition indexes_of :: "index_state \<Rightarrow> indexes" where
  "indexes_of st =
     \<lparr>total_documents = length (document_summary st), ix_documents = document_summary st,
      total_topics = length (topic_index st), ix_topics = topic_index st,
      total_concepts = length (concept_index st), ix_concepts = concept_index st,
      total_dates = length (date_index st), ix_dates = date_index st,
      total_references = length (reference_index st), ix_references = reference_index st,
      total_phrases = length (opening_phrase_index st), ix_phrases = opening_phrase_index st,
      total_glossary_terms = length (glossary_index st), ix_glossary_terms = glossary_index st\<rparr>"

subsection \<open>The quick-reference report\<close>

text \<open>
  \<open>sorted(xs, key=key, reverse=True)\<close>. Python's sort is stable, also with
  \<open>reverse=True\<close>: the list is reversed, sorted by ascending key with a stable sort, and
  reversed again.
\<close>

definition sorted_reverse :: "('a \<Rightarrow> nat) \<Rightarrow> 'a list \<Rightarrow> 'a list" where
  "sorted_reverse key xs = rev (sort_key key (rev xs))"

text \<open>Lines 216 to 218 and the two lines before them: what is written before \<open>data['collection_metadata']\<close> is read.\<close>

definition report_header :: "index_state \<Rightarrow> string list" where
  "report_header st =
     [''MAAMARIM COLLECTION - QUICK REFERENCE'',
      replicate 50 CHR ''='',
      [],
      ''Total Documents: '' @ str_nat (length (document_summary st)),
      ''Total Unique Topics: '' @ str_nat (length (topic_index st)),
      ''Total Unique Concepts: '' @ str_nat (length (concept_index st))]"

text \<open>Lines 225 to 234.\<close>

definition date_str :: "summary \<Rightarrow> string" where
  "date_str doc =
     (let hebrew = s_hebrew_date doc; gregorian = s_gregorian_date doc
      in if hebrew \<noteq> [] \<and> gregorian \<noteq> [] then hebrew @ '' ('' @ gregorian @ '')''
         else if hebrew \<noteq> [] then hebrew
         else if gregorian \<noteq> [] then ''('' @ gregorian @ '')''
         else ''N/A'')"

text \<open>Lines 236 to 240.\<close>

definition opening_display :: "summary \<Rightarrow> string" where
  "opening_display doc =
     (let opening = s_opening_phrase doc
      in if opening \<noteq> []
         then (if length opening > 50 then take 50 opening @ ''...'' else opening)
         else ''N/A'')"

text \<open>Lines 246 to 265.\<close>

definition topics_line :: "summary \<Rightarrow> string" where
  "topics_line doc =
     (let tps = s_topics doc; concepts = s_key_concepts doc
      in if tps \<noteq> []
         then (let topic_pairs =
                     map (\<lambda>(i, topic).
                            if i < length concepts \<and> concepts ! i \<noteq> []
                            then topic @ '' ('' @ concepts ! i @ '')''
                            else topic)
                       (enumerate 0 (take 10 tps));
                   topics_str = join '', '' topic_pairs
               in ''Topics: '' @
                  (if length tps > 10
                   then topics_str @ '' (+'' @ str_nat (length tps - 10) @ '' more)''
                   else topics_str))
         else ''Topics: N/A'')"

text \<open>Lines 224 to 269: the block of one document.\<close>

definition summary_block :: "summary \<Rightarrow> string list" where
  "summary_block doc =
     [''ID: '' @ s_id doc,
      ''Date: '' @ date_str doc,
      ''Opening: '' @ opening_display doc,
      topics_line doc,
      ''Words: '' @ str_int (s_word_count doc) @ '', Chunks: ''
        @ str_int (s_chunk_count doc),
      []]"

text \<open>
  Lines 276 to 282: the mapping from a topic to its representative concept, by a pass over
  the raw documents.
\<close>

definition topic_concept_step :: "string list \<Rightarrow> nat \<times> string \<Rightarrow> (string, string) dict \<Rightarrow> (string, string) dict" where
  "topic_concept_step doc_concepts p m =
     (case p of (i, topic) \<Rightarrow>
        if i < length doc_concepts \<and> map_of m topic = None
        then AList.update topic (doc_concepts ! i) m
        else m)"

definition build_topic_to_concept :: "document list \<Rightarrow> (string, string) dict" where
  "build_topic_to_concept docs =
     fold (\<lambda>doc m. fold (topic_concept_step (get_key_concepts doc))
                      (enumerate 0 (get_topics doc)) m)
       docs []"

text \<open>Line 273, and lines 284 to 289: the ranking and its lines.\<close>

definition sorted_topics :: "index_state \<Rightarrow> (string \<times> topic_ref list) list" where
  "sorted_topics st = sorted_reverse (\<lambda>x. length (snd x)) (topic_index st)"

definition topic_line :: "(string, string) dict \<Rightarrow> string \<times> topic_ref list \<Rightarrow> string" where
  "topic_line topic_to_concept p =
     (case p of (topic, refs) \<Rightarrow>
        (let concept = get_or [] (map_of topic_to_concept topic)
         in if concept \<noteq> []
            then topic @ '' ('' @ concept @ ''): '' @ str_nat (length refs) @ '' documents''
            else topic @ '': '' @ str_nat (length refs) @ '' documents''))"

definition top_topics_lines :: "document list \<Rightarrow> index_state \<Rightarrow> string list" where
  "top_topics_lines docs st =
     map (topic_line (build_topic_to_concept docs)) (take 15 (sorted_topics st))"

text \<open>Lines 293 to 295.\<close>

definition top_concepts_lines :: "index_state \<Rightarrow> string list" where
  "top_concepts_lines st =
     map (\<lambda>(concept, refs). concept @ '': '' @ str_nat (length refs) @ '' documents'')
       (take 15 (sorted_reverse (\<lambda>x. length (snd x)) (concept_index st)))"

text \<open>The whole report, for a collection metadata that is present.\<close>

definition report :: "document list \<Rightarrow> index_state \<Rightarrow> collection_metadata \<Rightarrow> string list" where
  "report docs st cm =
     report_header st
     @ [''Date Range: '' @ get_or ''Unknown'' (date_range cm), []]
     @ [''DOCUMENT SUMMARY:'', replicate 20 CHR ''-'']
     @ concat (map summary_block (document_summary st))
     @ [''TOP TOPICS:'', replicate 15 CHR ''-'']
     @ top_topics_lines docs st
     @ [[], ''TOP CONCEPTS:'', replicate 15 CHR ''-'']
     @ top_concepts_lines st"

subsection \<open>The script\<close>

definition index_file :: string where
  "index_file = ''maamarim_search_index.json''"

definition quick_ref_file :: string where
  "quick_ref_file = ''maamarim_quick_reference.txt''"

text \<open>
  The JSON index is written and closed first. The report is written inside one
  \<open>with open(...)\<close> block: \<open>data['collection_metadata']\<close> raises \<open>KeyError\<close> for an
  input without that key, after the header lines, and leaving the block closes the file
  with what was written.
\<close>

definition create_search_indexes :: "(string \<Rightarrow> bool) \<Rightarrow> fs \<Rightarrow> string \<Rightarrow> fs outcome" where
  "create_search_indexes writable files structured_file =
     (case load files structured_file of
        Inl e \<Rightarrow> Inl e
      | Inr d \<Rightarrow>
          (let docs = get_or [] (documents d);
               st = build_indexes docs
           in case write_file writable index_file (SearchIndexJson (indexes_of st)) files of
                Inl e \<Rightarrow> Inl e
              | Inr files1 \<Rightarrow>
                  if \<not> writable quick_ref_file then Inl (OSError, files1)
                  else (case data_collection_metadata d of
                          None \<Rightarrow>
                            Inl (KeyError, files1(quick_ref_file \<mapsto> TextFile (report_header st)))
                        | Some cm \<Rightarrow>
                            Inr (files1(quick_ref_file \<mapsto> TextFile (report docs st cm))))))"

section \<open>Notions of the specification, for comparison with the code\<close>

text \<open>
  The specification's representative concept of a topic: "the concept at the same
  positional index the first time that topic is encountered", a position without a concept
  being "no concept".
\<close>

fun spec_first_seen_concept :: "document list \<Rightarrow> string \<Rightarrow> string option" where
  "spec_first_seen_concept [] t = None"
| "spec_first_seen_concept (doc # rest) t =
     (if t \<in> set (get_topics doc)
      then (let i = length (takeWhile (\<lambda>x. x \<noteq> t) (get_topics doc))
            in if i < length (get_key_concepts doc) then Some (get_key_concepts doc ! i) else None)
      else spec_first_seen_concept rest t)"

text \<open>The specification's "count of documents referencing" a topic.\<close>

definition spec_document_count :: "document list \<Rightarrow> string \<Rightarrow> nat" where
  "spec_document_count docs t = length (filter (\<lambda>doc. t \<in> set (get_topics doc)) docs)"

text \<open>
  The specification's all-or-nothing outcome of the Indexer on its two output files:
  both hold the complete output of the run, or both are as they were before it.
\<close>

definition spec_all_or_nothing :: "fs \<Rightarrow> fs \<Rightarrow> file_value \<Rightarrow> file_value \<Rightarrow> bool" where
  "spec_all_or_nothing before after full_index full_report =
     ((after index_file = Some full_index \<and> after quick_ref_file = Some full_report)
      \<or> (after index_file = before index_file \<and> after quick_ref_file = before quick_ref_file))"

text \<open>The files of a run's outcome.\<close>

definition files_after :: "fs outcome \<Rightarrow> fs" where
  "files_after r = (case r of Inl (e, files) \<Rightarrow> files | Inr files \<Rightarrow> files)"

definition error_of :: "'a outcome \<Rightarrow> error option" where
  "error_of r = (case r of Inl (e, files) \<Rightarrow> Some e | Inr x \<Rightarrow> None)"


section \<open>Derived notions used in the statements\<close>

text \<open>
  The master index that a run holds after its last chunk, which a completed run dumps:
  the chunks are entered one after the other, in the order of \<open>range(num_chunks)\<close>.
\<close>

definition master_index_of :: "document list \<Rightarrow> int \<Rightarrow> collection_metadata \<Rightarrow> master_index" where
  "master_index_of docs docs_per_chunk cm =
     fold (index_chunk docs docs_per_chunk) [0..<nat (num_chunks_of docs docs_per_chunk)]
       (empty_master_index cm)"

text \<open>The entry of \<open>master_index["chunk_info"]\<close> for one chunk (lines 69 to 73), with its key.\<close>

definition chunk_entry_at :: "document list \<Rightarrow> int \<Rightarrow> nat \<Rightarrow> nat \<times> chunk_entry" where
  "chunk_entry_at docs d j =
     (Suc j, \<lparr>entry_file = chunk_file_name j,
              entry_document_ids = map doc_id (chunk_docs_at docs d j),
              document_count = length (chunk_docs_at docs d j)\<rparr>)"

text \<open>
  The facet values of one document, per facet of the master index, in the order in which
  the Splitter enters them.
\<close>

definition date_keys :: "document \<Rightarrow> string list" where
  "date_keys doc =
     (let hebrew = get_or [] (hebrew_date (get_metadata doc));
          gregorian = get_or [] (gregorian_date (get_metadata doc))
      in (if hebrew \<noteq> [] then [hebrew] else []) @ (if gregorian \<noteq> [] then [gregorian] else []))"

definition opening_keys :: "document \<Rightarrow> string list" where
  "opening_keys doc =
     (let opening = get_or [] (opening_phrase (get_metadata doc))
      in if opening \<noteq> [] \<and> strip opening \<noteq> [] then [opening] else [])"

definition glossary_entry_keys :: "string \<Rightarrow> string list" where
  "glossary_entry_keys entry =
     (if CHR '':'' \<in> set entry
      then (let p = parse_hebrew_part (strip (split_once CHR '':'' entry ! 0))
            in (if fst p \<noteq> [] then [fst p] else []) @ (if snd p \<noteq> [] then [snd p] else []))
      else [])"

definition glossary_keys :: "document \<Rightarrow> string list" where
  "glossary_keys doc =
     (let glossary_text = get_or [] (glossary (get_content doc))
      in if glossary_text \<noteq> [] \<and> strip glossary_text \<noteq> []
         then concat (map glossary_entry_keys (glossary_entries glossary_text))
         else [])"

text \<open>The five facet mappings of a master index, each with the facet values of a document.\<close>

definition master_facets_of ::
  "master_index \<Rightarrow> ((string, nat list) dict \<times> (document \<Rightarrow> string list)) list" where
  "master_facets_of mi =
     [(topic_to_chunks mi, get_topics),
      (concept_to_chunks mi, get_key_concepts),
      (date_to_chunks mi, date_keys),
      (opening_phrase_to_chunks mi, opening_keys),
      (glossary_term_to_chunks mi, glossary_keys)]"

text \<open>The distinct elements of a list, in the order of their first occurrence.\<close>

definition add_key :: "'a \<Rightarrow> 'a list \<Rightarrow> 'a list" where
  "add_key x acc = (if x \<in> set acc then acc else acc @ [x])"

definition first_occurrences :: "'a list \<Rightarrow> 'a list" where
  "first_occurrences xs = fold add_key xs []"

text \<open>The records that the Indexer appends for a document under a topic and a concept (lines 66 to 71 and 84 to 88).\<close>

definition topic_ref_of :: "document \<Rightarrow> topic_ref" where
  "topic_ref_of doc =
     \<lparr>tr_doc_id = get_or ''unknown'' (doc_id doc),
      tr_reference = get_or [] (reference doc),
      tr_hebrew_date = get_or [] (hebrew_date (get_metadata doc)),
      tr_opening_phrase = get_or [] (opening_phrase (get_metadata doc))\<rparr>"

definition concept_ref_of :: "document \<Rightarrow> concept_ref" where
  "concept_ref_of doc =
     \<lparr>cr_doc_id = get_or ''unknown'' (doc_id doc),
      cr_reference = get_or [] (reference doc),
      cr_topics = get_topics doc\<rparr>"

text \<open>
  The number of times a topic is listed in the documents' \<open>topics\<close>, a document that
  lists it twice counting twice.
\<close>

definition occurrence_count :: "document list \<Rightarrow> string \<Rightarrow> nat" where
  "occurrence_count docs t = length (filter (\<lambda>x. x = t) (concat (map get_topics docs)))"

text \<open>
  The (topic, concept) pairs of the documents, in document order and then in list order:
  position \<open>i\<close> of a document's \<open>topics\<close> is paired with position \<open>i\<close> of its
  \<open>key_concepts\<close>, and the positions beyond the end of \<open>key_concepts\<close> have no pair.
\<close>

definition topic_concept_pairs :: "document list \<Rightarrow> (string \<times> string) list" where
  "topic_concept_pairs docs = concat (map (\<lambda>doc. zip (get_topics doc) (get_key_concepts doc)) docs)"

text \<open>The key of a definition keyword: \<open>word_lower\<close> of line 154.\<close>

definition keyword_of :: "string \<Rightarrow> string" where
  "keyword_of word = rstrip_chars ''.,;:'' (lower word)"

text \<open>The candidate entries of a text cut at a separator.\<close>

definition segment_entries :: "string list \<Rightarrow> string list" where
  "segment_entries segs = map strip (filter (\<lambda>e. strip e \<noteq> []) segs)"

text \<open>The number that a string of decimal digits denotes.\<close>

definition digit_value :: "char \<Rightarrow> nat" where
  "digit_value c = of_char c - 48"

definition decimal_value :: "string \<Rightarrow> nat" where
  "decimal_value s = foldl (\<lambda>a c. a * 10 + digit_value c) 0 s"


section \<open>Example inputs\<close>

definition ex_doc1 :: document where
  "ex_doc1 =
     \<lparr>doc_id = Some ''m1'', reference = None,
      doc_metadata = Some (empty_metadata\<lparr>word_count := Some 7\<rparr>),
      doc_content = Some \<lparr>main_text = Some ''one two  three'',
                           main_text_chunks = Some [''one two'', ''three''],
                           glossary = None\<rparr>\<rparr>"

definition ex_doc2 :: document where
  "ex_doc2 =
     \<lparr>doc_id = None, reference = None, doc_metadata = None,
      doc_content = Some \<lparr>main_text = Some ''one two  three'',
                           main_text_chunks = Some [''one two'', ''three''],
                           glossary = None\<rparr>\<rparr>"

definition ex_topic_doc :: "string \<Rightarrow> string list \<Rightarrow> string list \<Rightarrow> document" where
  "ex_topic_doc i ts cs =
     \<lparr>doc_id = Some i, reference = None,
      doc_metadata = Some (empty_metadata\<lparr>topics := Some ts, key_concepts := Some cs\<rparr>),
      doc_content = None\<rparr>"

definition ex_data3 :: data where
  "ex_data3 =
     \<lparr>documents = Some [ex_topic_doc ''m1'' [''emunah''] [''faith''],
                         ex_topic_doc ''m2'' [''emunah'', ''simcha''] [''faith'', ''joy''],
                         ex_topic_doc ''m3'' [''emunah''] [''faith'']],
      data_collection_metadata = Some \<lparr>date_range = Some ''5710-5711'', other_keys = []\<rparr>\<rparr>"

definition all_writable :: "string \<Rightarrow> bool" where
  "all_writable name = True"

definition ex_files3 :: fs where
  "ex_files3 = [''maamarim_structured.json'' \<mapsto> StructuredJson ex_data3]"

definition ex_blank_doc :: document where
  "ex_blank_doc = ex_topic_doc ''m1'' [''  '', ''emunah''] ['''', ''faith'']"

definition ex_mismatched_docs :: "document list" where
  "ex_mismatched_docs =
     [ex_topic_doc ''m1'' [''a'', ''b''] [''x''],
      ex_topic_doc ''m2'' [''b''] [''y'']]"

definition ex_repeat_docs :: "document list" where
  "ex_repeat_docs =
     [ex_topic_doc ''m1'' [''b''] [],
      ex_topic_doc ''m2'' [''b''] [],
      ex_topic_doc ''m3'' [''a'', ''a'', ''a''] []]"

definition ex_no_id_doc :: document where
  "ex_no_id_doc = \<lparr>doc_id = None, reference = None, doc_metadata = None, doc_content = None\<rparr>"

definition ex_data_no_id :: data where
  "ex_data_no_id =
     \<lparr>documents = Some [ex_no_id_doc],
      data_collection_metadata = Some \<lparr>date_range = None, other_keys = []\<rparr>\<rparr>"

definition ex_files_no_id :: fs where
  "ex_files_no_id = [''maamarim_structured.json'' \<mapsto> StructuredJson ex_data_no_id]"

definition quick_ref_unwritable :: "string \<Rightarrow> bool" where
  "quick_ref_unwritable name = (name \<noteq> quick_ref_file)"

definition ex_chunk_file_input :: fs where
  "ex_chunk_file_input =
     [''maamarim_structured.json'' \<mapsto>
        ChunkJson (chunk_data_at (get_or [] (documents ex_data3)) 10
                     \<lparr>date_range = Some ''5710-5711'', other_keys = []\<rparr> 0)]"


section \<open>Basic facts about the primitives\<close>

lemma py_split_Nil: "py_split [] = []"
  by (simp add: py_split_def)


section \<open>Slicing the documents into chunks\<close>

lemma py_slice_nonneg:
  assumes "0 \<le> i" "0 \<le> j"
  shows "py_slice xs i j = drop (nat i) (take (nat j) xs)"
proof (cases "nat i \<le> length xs")
  case True
  then show ?thesis
    using assms by (simp add: py_slice_def slice_index_def min_def)
next
  case False
  then show ?thesis
    using assms by (simp add: py_slice_def slice_index_def min_def)
qed

lemma chunk_docs_at_take_drop:
  assumes "0 < d"
  shows "chunk_docs_at docs d k = take (nat d) (drop (k * nat d) docs)"
proof -
  obtain D where d: "d = int D"
    using assms by (metis nat_0_le order_less_imp_le)
  have b: "0 \<le> int k * d" and c: "0 \<le> min (int k * d + d) (int (length docs))"
    by (simp_all add: d)
  have a: "nat (int k * d) = k * D"
    by (simp add: d nat_mult_distrib)
  have "int k * d + d = int (k * D + D)"
    by (simp add: d)
  then have e: "nat (min (int k * d + d) (int (length docs))) = min (k * D + D) (length docs)"
    by (simp only: nat_int flip: of_nat_min)
  have "chunk_docs_at docs d k = drop (k * D) (take (min (k * D + D) (length docs)) docs)"
    unfolding chunk_docs_at_def Let_def by (simp only: py_slice_nonneg [OF b c] a e)
  also have "\<dots> = drop (k * D) (take (k * D + D) docs)"
    by (simp add: min_def)
  also have "\<dots> = take D (drop (k * D) docs)"
    by (simp add: drop_take)
  finally show ?thesis by (simp add: d)
qed

lemma concat_take_drop:
  "concat (map (\<lambda>k. take D (drop (k * D) xs)) [0..<m]) = take (m * D) xs"
proof (induction m)
  case 0
  show ?case by simp
next
  case (Suc m)
  have "take (m * D + D) xs = take (m * D) xs @ take D (drop (m * D) xs)"
    by (rule take_add)
  with Suc show ?case by (simp add: add.commute)
qed

lemma num_chunks_covers:
  assumes "0 < d"
  shows "int (length docs) \<le> num_chunks_of docs d * d"
    and "(num_chunks_of docs d - 1) * d < int (length docs)"
    and "0 \<le> num_chunks_of docs d"
proof -
  define a where "a = int (length docs) + d - 1"
  have split: "a = a div d * d + a mod d"
    by simp
  have lo: "0 \<le> a mod d" and hi: "a mod d < d"
    using assms by simp_all
  have N: "num_chunks_of docs d = a div d"
    by (simp add: num_chunks_of_def a_def)
  show "int (length docs) \<le> num_chunks_of docs d * d"
    using split hi unfolding N a_def by linarith
  have "(a div d - 1) * d = a div d * d - d"
    by (simp add: algebra_simps)
  then show "(num_chunks_of docs d - 1) * d < int (length docs)"
    using split lo unfolding N a_def by linarith
  have "0 \<le> a"
    using assms by (simp add: a_def)
  then show "0 \<le> num_chunks_of docs d"
    unfolding N using assms by (simp add: pos_imp_zdiv_nonneg_iff)
qed

lemma num_chunks_ceiling:
  assumes "0 < d"
  shows "num_chunks_of docs d = \<lceil>real (length docs) / real_of_int d\<rceil>"
proof -
  let ?N = "num_chunks_of docs d"
  have d: "0 < real_of_int d"
    using assms by simp
  have "real_of_int (int (length docs)) \<le> real_of_int (?N * d)"
    using num_chunks_covers(1) [OF assms, of docs] by (simp only: of_int_le_iff)
  then have up: "real (length docs) / real_of_int d \<le> real_of_int ?N"
    using d by (simp add: pos_divide_le_eq)
  have "real_of_int ((?N - 1) * d) < real_of_int (int (length docs))"
    using num_chunks_covers(2) [OF assms, of docs] by (simp only: of_int_less_iff)
  then have low: "real_of_int ?N - 1 < real (length docs) / real_of_int d"
    using d by (simp add: pos_less_divide_eq)
  show ?thesis
    using ceiling_unique [OF low up] by simp
qed

lemma length_chunk_docs_at:
  assumes "0 < d"
  shows "length (chunk_docs_at docs d k) = min (nat d) (length docs - k * nat d)"
  by (simp add: chunk_docs_at_take_drop [OF assms])

lemma concat_chunks:
  assumes "0 < d"
  shows "concat (map (chunk_docs_at docs d) [0..<nat (num_chunks_of docs d)]) = docs"
proof -
  have "int (length docs) \<le> int (nat (num_chunks_of docs d) * nat d)"
    using num_chunks_covers(1,3) [OF assms, of docs] assms by simp
  then have le: "length docs \<le> nat (num_chunks_of docs d) * nat d"
    by (simp only: of_nat_le_iff)
  have "concat (map (chunk_docs_at docs d) [0..<nat (num_chunks_of docs d)])
        = take (nat (num_chunks_of docs d) * nat d) docs"
    using concat_take_drop [of "nat d" docs "nat (num_chunks_of docs d)"]
    by (simp add: chunk_docs_at_take_drop [OF assms] cong: map_cong)
  then show ?thesis
    using le by simp
qed

lemma full_chunks:
  assumes "0 < d" and "int k + 1 < num_chunks_of docs d"
  shows "int (length (chunk_docs_at docs d k)) = d"
proof -
  obtain D where d: "d = int D"
    using assms(1) by (metis nat_0_le order_less_imp_le)
  have "(int k + 1) * d \<le> (num_chunks_of docs d - 1) * d"
    using assms by (intro mult_right_mono) simp_all
  then have "(int k + 1) * d < int (length docs)"
    using num_chunks_covers(2) [OF assms(1), of docs] by linarith
  then have "int (k * D + D) < int (length docs)"
    by (simp add: d algebra_simps)
  then have "k * D + D < length docs"
    by (simp only: of_nat_less_iff)
  then show ?thesis
    using length_chunk_docs_at [OF assms(1), of docs k] by (simp add: d)
qed

lemma last_chunk:
  assumes "0 < d" and "0 < num_chunks_of docs d"
  shows "int (length (chunk_docs_at docs d (nat (num_chunks_of docs d - 1))))
           = int (length docs) - (num_chunks_of docs d - 1) * d"
    and "0 < length (chunk_docs_at docs d (nat (num_chunks_of docs d - 1)))"
    and "int (length (chunk_docs_at docs d (nat (num_chunks_of docs d - 1)))) \<le> d"
proof -
  obtain D where d: "d = int D"
    using assms(1) by (metis nat_0_le order_less_imp_le)
  obtain M where M: "num_chunks_of docs d - 1 = int M"
    using assms(2) by (metis nat_0_le zle_diff1_eq)
  have "int (length docs) \<le> (int M + 1) * int D"
    using num_chunks_covers(1) [OF assms(1), of docs] M d by (simp add: algebra_simps)
  then have "int (length docs) \<le> int (M * D + D)"
    by (simp add: algebra_simps)
  then have up: "length docs \<le> M * D + D"
    by (simp only: of_nat_le_iff)
  have "int (M * D) < int (length docs)"
    using num_chunks_covers(2) [OF assms(1), of docs] M d by simp
  then have low: "M * D < length docs"
    by (simp only: of_nat_less_iff)
  have D: "nat d = D"
    by (simp add: d)
  have "length (chunk_docs_at docs d M) = min (nat d) (length docs - M * nat d)"
    by (rule length_chunk_docs_at [OF assms(1)])
  also have "\<dots> = length docs - M * D"
    unfolding D using up by arith
  finally have len: "length (chunk_docs_at docs d M) = length docs - M * D" .
  have "int (length docs - M * D) = int (length docs) - int M * int D"
    using low by (simp add: of_nat_diff)
  then show "int (length (chunk_docs_at docs d (nat (num_chunks_of docs d - 1))))
           = int (length docs) - (num_chunks_of docs d - 1) * d"
    by (simp only: M nat_int len) (simp add: d)
  show "0 < length (chunk_docs_at docs d (nat (num_chunks_of docs d - 1)))"
    using low by (simp only: M nat_int len zero_less_diff)
  have "int (length docs - M * D) \<le> int D"
    using up by simp
  then show "int (length (chunk_docs_at docs d (nat (num_chunks_of docs d - 1)))) \<le> d"
    by (simp only: M nat_int len) (simp add: d)
qed


section \<open>The facets of the master index\<close>

lemma entries_at_Nil: "entries_at [] k = []"
  by (simp add: entries_at_def get_or_def)

lemma map_of_add_chunk:
  "map_of (add_chunk c k d) k' =
     (if k' = k
      then Some (if c \<in> set (entries_at d k) then entries_at d k else entries_at d k @ [c])
      else map_of d k')"
  by (cases "map_of d k")
     (auto simp add: add_chunk_def Let_def entries_at_def get_or_def AList.update_conv'
        map_upd_triv)

lemma entries_at_add_chunk:
  "entries_at (add_chunk c k d) k' =
     (if k' = k \<and> c \<notin> set (entries_at d k) then entries_at d k @ [c] else entries_at d k')"
  unfolding entries_at_def [of "add_chunk c k d"] map_of_add_chunk
  by (simp add: get_or_def) (simp add: entries_at_def get_or_def)

lemma no_key_add_chunk:
  "(map_of (add_chunk c k d) k' = None) = (k' \<noteq> k \<and> map_of d k' = None)"
  by (simp add: map_of_add_chunk)

lemma entries_at_fold_add_chunk:
  "entries_at (fold (add_chunk c) ks d) k =
     (if k \<in> set ks \<and> c \<notin> set (entries_at d k) then entries_at d k @ [c] else entries_at d k)"
  by (induction ks arbitrary: d) (auto simp add: entries_at_add_chunk)

lemma no_key_fold_add_chunk:
  "(map_of (fold (add_chunk c) ks d) k = None) = (k \<notin> set ks \<and> map_of d k = None)"
  by (induction ks arbitrary: d) (auto simp add: no_key_add_chunk)

lemma map_of_Some_entries_at: "map_of d k = Some l \<Longrightarrow> entries_at d k = l"
  by (simp add: entries_at_def get_or_def)

text \<open>One facet of the master index, characterised by the keys a document has in it.\<close>

lemma facet_fold_index_doc:
  assumes step: "\<And>c doc mi. proj (index_doc c doc mi) = fold (add_chunk c) (keys doc) (proj mi)"
  shows "proj (fold (index_doc c) ds mi) = fold (add_chunk c) (concat (map keys ds)) (proj mi)"
  by (induction ds arbitrary: mi) (simp_all add: step)

lemma facet_index_chunk:
  assumes step: "\<And>c doc mi. proj (index_doc c doc mi) = fold (add_chunk c) (keys doc) (proj mi)"
    and info: "\<And>mi f. proj (chunk_info_update f mi) = proj mi"
  shows "proj (index_chunk docs d j mi) =
           fold (add_chunk (Suc j)) (concat (map keys (chunk_docs_at docs d j))) (proj mi)"
  by (simp add: index_chunk_def Let_def facet_fold_index_doc [of proj keys, OF step] info)

lemma facet_entries:
  assumes step: "\<And>c doc mi. proj (index_doc c doc mi) = fold (add_chunk c) (keys doc) (proj mi)"
    and info: "\<And>mi f. proj (chunk_info_update f mi) = proj mi"
    and init: "proj mi0 = []"
  shows "entries_at (proj (fold (index_chunk docs d) [0..<n] mi0)) k =
           map Suc (filter (\<lambda>j. \<exists>doc \<in> set (chunk_docs_at docs d j). k \<in> set (keys doc)) [0..<n])"
proof (induction n)
  case 0
  show ?case by (simp add: init entries_at_Nil)
next
  case (Suc n)
  have fresh: "Suc n \<notin> set (map Suc (filter (\<lambda>j. \<exists>doc \<in> set (chunk_docs_at docs d j). k \<in> set (keys doc)) [0..<n]))"
    by auto
  show ?case
    using fresh
    by (simp add: facet_index_chunk [of proj keys, OF step info] entries_at_fold_add_chunk Suc)
qed

lemma facet_no_key:
  assumes step: "\<And>c doc mi. proj (index_doc c doc mi) = fold (add_chunk c) (keys doc) (proj mi)"
    and info: "\<And>mi f. proj (chunk_info_update f mi) = proj mi"
    and init: "proj mi0 = []"
  shows "(map_of (proj (fold (index_chunk docs d) [0..<n] mi0)) k = None) =
           (\<forall>j < n. \<forall>doc \<in> set (chunk_docs_at docs d j). k \<notin> set (keys doc))"
proof (induction n)
  case 0
  show ?case by (simp add: init)
next
  case (Suc n)
  have "(map_of (proj (fold (index_chunk docs d) [0..<Suc n] mi0)) k = None) =
          ((\<forall>doc \<in> set (chunk_docs_at docs d n). k \<notin> set (keys doc)) \<and>
           map_of (proj (fold (index_chunk docs d) [0..<n] mi0)) k = None)"
    by (simp add: facet_index_chunk [of proj keys, OF step info] no_key_fold_add_chunk)
  also have "\<dots> = (\<forall>j < Suc n. \<forall>doc \<in> set (chunk_docs_at docs d j). k \<notin> set (keys doc))"
    unfolding Suc by (auto simp add: less_Suc_eq)
  finally show ?case .
qed

lemma topics_step:
  "topic_to_chunks (index_doc c doc mi) = fold (add_chunk c) (get_topics doc) (topic_to_chunks mi)"
  by (simp add: index_doc_def Let_def)

lemma concepts_step:
  "concept_to_chunks (index_doc c doc mi) = fold (add_chunk c) (get_key_concepts doc) (concept_to_chunks mi)"
  by (simp add: index_doc_def Let_def)

lemma dates_step:
  "date_to_chunks (index_doc c doc mi) = fold (add_chunk c) (date_keys doc) (date_to_chunks mi)"
  by (simp add: index_doc_def date_keys_def Let_def)

lemma opening_step:
  "opening_phrase_to_chunks (index_doc c doc mi) = fold (add_chunk c) (opening_keys doc) (opening_phrase_to_chunks mi)"
  by (simp add: index_doc_def opening_keys_def Let_def)

lemma glossary_term_step_keys:
  "glossary_term_step c entry d = fold (add_chunk c) (glossary_entry_keys entry) d"
  by (simp add: glossary_term_step_def glossary_entry_keys_def Let_def split: prod.splits)

lemma fold_glossary_term_step:
  "fold (glossary_term_step c) es d = fold (add_chunk c) (concat (map glossary_entry_keys es)) d"
  by (induction es arbitrary: d) (simp_all add: glossary_term_step_keys)

lemma glossary_step':
  "glossary_term_to_chunks (index_doc c doc mi) = fold (add_chunk c) (glossary_keys doc) (glossary_term_to_chunks mi)"
  by (simp add: index_doc_def glossary_keys_def Let_def fold_glossary_term_step)


section \<open>Runs of the Splitter\<close>

lemma split_chunks_Inr:
  "split_chunks w docs d cm ks (mi, files) = Inr (mi', files') \<Longrightarrow>
   mi' = fold (index_chunk docs d) ks mi"
proof (induction ks arbitrary: mi files)
  case Nil
  then show ?case by simp
next
  case (Cons k ks)
  then show ?case
    by (auto split: sum.splits)
qed

lemma write_file_last:
  "write_file w name f files = Inr files' \<Longrightarrow> files' name = Some f"
  by (auto simp add: write_file_def split: if_splits)

lemma completed_run_master_index:
  assumes run: "error_of (split_maamarim_file w files input_file d) = None"
    and inp: "files input_file = Some (StructuredJson dat)"
  shows "files_after (split_maamarim_file w files input_file d) ''maamarim_master_index.json''
           = Some (MasterIndexJson
               (master_index_of (get_or [] (documents dat)) d
                  (get_or empty_collection_metadata (data_collection_metadata dat))))"
proof -
  let ?docs = "get_or [] (documents dat)"
  let ?cm = "get_or empty_collection_metadata (data_collection_metadata dat)"
  let ?loop = "split_chunks w ?docs d ?cm [0..<nat (num_chunks_of ?docs d)]
                 (empty_master_index ?cm, files)"
  have ld: "load files input_file = Inr dat"
    by (simp add: load_def inp)
  have unfolded: "split_maamarim_file w files input_file d =
      (if \<not> w ''maamarim_chunks'' \<or> \<not> w ''maamarim_docs'' then Inl (OSError, files)
       else if d = 0 then Inl (ZeroDivisionError, files)
       else (case ?loop of
               Inl e \<Rightarrow> Inl e
             | Inr (mi, files1) \<Rightarrow>
                 write_file w ''maamarim_master_index.json'' (MasterIndexJson mi) files1))"
    by (simp add: split_maamarim_file_def ld Let_def)
  have dirs: "w ''maamarim_chunks'' \<and> w ''maamarim_docs''" and d: "d \<noteq> 0"
    using run unfolding unfolded by (auto simp add: error_of_def split: if_splits)
  obtain mi files1 where loop: "?loop = Inr (mi, files1)"
    using run dirs d unfolding unfolded
    by (cases ?loop) (auto simp add: error_of_def)
  have mi: "mi = master_index_of ?docs d ?cm"
    using split_chunks_Inr [OF loop] by (simp add: master_index_of_def)
  have wm: "w ''maamarim_master_index.json''"
    using run dirs d unfolding unfolded loop
    by (auto simp add: error_of_def write_file_def split: if_splits)
  show ?thesis
    unfolding unfolded loop using dirs d wm
    by (simp add: write_file_def files_after_def mi)
qed

lemma write_doc_files_ok:
  assumes "\<forall>n. w n" and "\<forall>doc \<in> set ds. doc_id doc \<noteq> None"
  shows "\<exists>files'. write_doc_files w cm ds files = Inr files'"
  using assms
  by (induction ds arbitrary: files) (auto simp add: write_file_def Let_def)

lemma set_py_slice: "set (py_slice xs i j) \<subseteq> set xs"
  unfolding py_slice_def
  by (meson set_drop_subset set_take_subset subset_trans)

lemma set_chunk_docs_at: "set (chunk_docs_at docs d k) \<subseteq> set docs"
  by (simp add: chunk_docs_at_def Let_def set_py_slice)

lemma split_chunks_ok:
  assumes w: "\<forall>n. w n" and all_ids: "\<forall>doc \<in> set docs. doc_id doc \<noteq> None"
  shows "\<exists>st. split_chunks w docs d cm ks (mi, files) = Inr st"
proof (induction ks arbitrary: mi files)
  case Nil
  show ?case by simp
next
  case (Cons k ks)
  have ids: "\<forall>doc \<in> set (chunk_docs_at docs d k). doc_id doc \<noteq> None"
    using all_ids set_chunk_docs_at [of docs d k] by blast
  have f1: "write_file w (chunk_file_name k) (ChunkJson (chunk_data_at docs d cm k)) files
              = Inr (files(chunk_file_name k \<mapsto> ChunkJson (chunk_data_at docs d cm k)))"
    using w by (simp add: write_file_def)
  obtain f2 where f2: "write_doc_files w cm (chunk_docs_at docs d k)
       (files(chunk_file_name k \<mapsto> ChunkJson (chunk_data_at docs d cm k))) = Inr f2"
    using write_doc_files_ok [OF w ids] by blast
  show ?case
    using Cons [of "index_chunk docs d k mi" f2] by (simp add: f1 f2)
qed

lemma run_without_error:
  assumes w: "\<forall>n. w n"
    and all_ids: "\<forall>doc \<in> set (get_or [] (documents dat)). doc_id doc \<noteq> None"
    and d: "d \<noteq> 0" and inp: "files input_file = Some (StructuredJson dat)"
  shows "error_of (split_maamarim_file w files input_file d) = None"
proof -
  have ld: "load files input_file = Inr dat"
    by (simp add: load_def inp)
  obtain st where st: "split_chunks w (get_or [] (documents dat)) d
        (get_or empty_collection_metadata (data_collection_metadata dat))
        [0..<nat (num_chunks_of (get_or [] (documents dat)) d)]
        (empty_master_index (get_or empty_collection_metadata (data_collection_metadata dat)), files)
        = Inr st"
    using split_chunks_ok [OF w all_ids] by blast
  obtain mi f where mf: "st = (mi, f)"
    by (cases st)
  show ?thesis
    using w d by (simp add: split_maamarim_file_def ld Let_def st mf write_file_def error_of_def)
qed

lemma update_fresh:
  "k \<notin> fst ` set al \<Longrightarrow> AList.update k v al = al @ [(k, v)]"
  by (induction al) auto

lemma chunk_info_index_doc: "chunk_info (index_doc c doc mi) = chunk_info mi"
  by (simp add: index_doc_def Let_def)

lemma chunk_info_fold_index_doc: "chunk_info (fold (index_doc c) ds mi) = chunk_info mi"
  by (induction ds arbitrary: mi) (simp_all add: chunk_info_index_doc)

lemma chunk_info_index_chunk:
  "chunk_info (index_chunk docs d j mi) =
     AList.update (Suc j) (snd (chunk_entry_at docs d j)) (chunk_info mi)"
  by (simp add: index_chunk_def Let_def chunk_info_fold_index_doc chunk_entry_at_def)

lemma chunk_info_fold_index_chunk:
  assumes "chunk_info mi0 = []"
  shows "chunk_info (fold (index_chunk docs d) [0..<n] mi0) = map (chunk_entry_at docs d) [0..<n]"
proof (induction n)
  case 0
  show ?case by (simp add: assms)
next
  case (Suc n)
  have fresh: "Suc n \<notin> fst ` set (map (chunk_entry_at docs d) [0..<n])"
    by (auto simp add: chunk_entry_at_def)
  have "chunk_info (fold (index_chunk docs d) [0..<Suc n] mi0) =
          AList.update (Suc n) (snd (chunk_entry_at docs d n)) (map (chunk_entry_at docs d) [0..<n])"
    by (simp add: chunk_info_index_chunk Suc)
  also have "\<dots> = map (chunk_entry_at docs d) [0..<n] @ [(Suc n, snd (chunk_entry_at docs d n))]"
    by (rule update_fresh [OF fresh])
  also have "(Suc n, snd (chunk_entry_at docs d n)) = chunk_entry_at docs d n"
    by (simp add: chunk_entry_at_def)
  finally show ?case by simp
qed

lemma chunk_info_master_index_of:
  "chunk_info (master_index_of docs d cm) = map (chunk_entry_at docs d) [0..<nat (num_chunks_of docs d)]"
  by (simp add: master_index_of_def chunk_info_fold_index_chunk empty_master_index_def)


section \<open>The chunk lists of the master index\<close>

lemma filter_eq_upt: "filter (\<lambda>k. k = j) [0..<n] = (if j < n then [j] else [])"
  by (induction n) auto

lemma chunk_numbers_sorted:
  "sorted_wrt (<) (map Suc (filter P [0..<n]))"
  by (simp add: sorted_wrt_map sorted_wrt_filter)

lemma chunk_numbers_distinct:
  "distinct (map Suc (filter P [0..<n]))"
  by (simp add: distinct_map)

lemma master_facets:
  assumes "(facet, keys) \<in> set [(topic_to_chunks (master_index_of docs d cm), get_topics),
             (concept_to_chunks (master_index_of docs d cm), get_key_concepts),
             (date_to_chunks (master_index_of docs d cm), date_keys),
             (opening_phrase_to_chunks (master_index_of docs d cm), opening_keys),
             (glossary_term_to_chunks (master_index_of docs d cm), glossary_keys)]"
  shows "entries_at facet key =
           map Suc (filter (\<lambda>j. \<exists>doc \<in> set (chunk_docs_at docs d j). key \<in> set (keys doc))
                      [0..<nat (num_chunks_of docs d)])"
    and "(map_of facet key = None) =
           (\<forall>j < nat (num_chunks_of docs d). \<forall>doc \<in> set (chunk_docs_at docs d j). key \<notin> set (keys doc))"
proof -
  note e = facet_entries [where ?mi0.0 = "empty_master_index cm" and docs = docs and d = d
      and n = "nat (num_chunks_of docs d)" and k = key]
  note n = facet_no_key [where ?mi0.0 = "empty_master_index cm" and docs = docs and d = d
      and n = "nat (num_chunks_of docs d)" and k = key]
  have e1: "entries_at (topic_to_chunks (master_index_of docs d cm)) key = map Suc (filter (\<lambda>j. \<exists>doc \<in> set (chunk_docs_at docs d j). key \<in> set (get_topics doc)) [0..<nat (num_chunks_of docs d)])"
    unfolding master_index_of_def
    by (rule e [of topic_to_chunks get_topics]) (simp_all add: topics_step empty_master_index_def)
  have e2: "entries_at (concept_to_chunks (master_index_of docs d cm)) key = map Suc (filter (\<lambda>j. \<exists>doc \<in> set (chunk_docs_at docs d j). key \<in> set (get_key_concepts doc)) [0..<nat (num_chunks_of docs d)])"
    unfolding master_index_of_def
    by (rule e [of concept_to_chunks get_key_concepts]) (simp_all add: concepts_step empty_master_index_def)
  have e3: "entries_at (date_to_chunks (master_index_of docs d cm)) key = map Suc (filter (\<lambda>j. \<exists>doc \<in> set (chunk_docs_at docs d j). key \<in> set (date_keys doc)) [0..<nat (num_chunks_of docs d)])"
    unfolding master_index_of_def
    by (rule e [of date_to_chunks date_keys]) (simp_all add: dates_step empty_master_index_def)
  have e4: "entries_at (opening_phrase_to_chunks (master_index_of docs d cm)) key = map Suc (filter (\<lambda>j. \<exists>doc \<in> set (chunk_docs_at docs d j). key \<in> set (opening_keys doc)) [0..<nat (num_chunks_of docs d)])"
    unfolding master_index_of_def
    by (rule e [of opening_phrase_to_chunks opening_keys]) (simp_all add: opening_step empty_master_index_def)
  have e5: "entries_at (glossary_term_to_chunks (master_index_of docs d cm)) key = map Suc (filter (\<lambda>j. \<exists>doc \<in> set (chunk_docs_at docs d j). key \<in> set (glossary_keys doc)) [0..<nat (num_chunks_of docs d)])"
    unfolding master_index_of_def
    by (rule e [of glossary_term_to_chunks glossary_keys]) (simp_all add: glossary_step' empty_master_index_def)
  have n1: "(map_of (topic_to_chunks (master_index_of docs d cm)) key = None) = (\<forall>j < nat (num_chunks_of docs d). \<forall>doc \<in> set (chunk_docs_at docs d j). key \<notin> set (get_topics doc))"
    unfolding master_index_of_def
    by (rule n [of topic_to_chunks get_topics]) (simp_all add: topics_step empty_master_index_def)
  have n2: "(map_of (concept_to_chunks (master_index_of docs d cm)) key = None) = (\<forall>j < nat (num_chunks_of docs d). \<forall>doc \<in> set (chunk_docs_at docs d j). key \<notin> set (get_key_concepts doc))"
    unfolding master_index_of_def
    by (rule n [of concept_to_chunks get_key_concepts]) (simp_all add: concepts_step empty_master_index_def)
  have n3: "(map_of (date_to_chunks (master_index_of docs d cm)) key = None) = (\<forall>j < nat (num_chunks_of docs d). \<forall>doc \<in> set (chunk_docs_at docs d j). key \<notin> set (date_keys doc))"
    unfolding master_index_of_def
    by (rule n [of date_to_chunks date_keys]) (simp_all add: dates_step empty_master_index_def)
  have n4: "(map_of (opening_phrase_to_chunks (master_index_of docs d cm)) key = None) = (\<forall>j < nat (num_chunks_of docs d). \<forall>doc \<in> set (chunk_docs_at docs d j). key \<notin> set (opening_keys doc))"
    unfolding master_index_of_def
    by (rule n [of opening_phrase_to_chunks opening_keys]) (simp_all add: opening_step empty_master_index_def)
  have n5: "(map_of (glossary_term_to_chunks (master_index_of docs d cm)) key = None) = (\<forall>j < nat (num_chunks_of docs d). \<forall>doc \<in> set (chunk_docs_at docs d j). key \<notin> set (glossary_keys doc))"
    unfolding master_index_of_def
    by (rule n [of glossary_term_to_chunks glossary_keys]) (simp_all add: glossary_step' empty_master_index_def)
  show "entries_at facet key =
           map Suc (filter (\<lambda>j. \<exists>doc \<in> set (chunk_docs_at docs d j). key \<in> set (keys doc))
                      [0..<nat (num_chunks_of docs d)])"
    using assms e1 e2 e3 e4 e5 by auto
  show "(map_of facet key = None) =
           (\<forall>j < nat (num_chunks_of docs d). \<forall>doc \<in> set (chunk_docs_at docs d j). key \<notin> set (keys doc))"
    using assms n1 n2 n3 n4 n5 by auto
qed


section \<open>Facts about the example inputs\<close>

lemma ex_data3_docs:
  "get_or [] (documents ex_data3) =
     [ex_topic_doc ''m1'' [''emunah''] [''faith''],
      ex_topic_doc ''m2'' [''emunah'', ''simcha''] [''faith'', ''joy''],
      ex_topic_doc ''m3'' [''emunah''] [''faith'']]"
  by (simp add: ex_data3_def get_or_def)

lemma ex_topic_doc_fields:
  "doc_id (ex_topic_doc i ts cs) = Some i"
  "get_topics (ex_topic_doc i ts cs) = ts"
  "get_key_concepts (ex_topic_doc i ts cs) = cs"
  by (simp_all add: ex_topic_doc_def get_topics_def get_key_concepts_def get_metadata_def
      get_or_def empty_metadata_def)

lemma ex_run3_ok:
  "error_of (split_maamarim_file all_writable ex_files3 ''maamarim_structured.json'' 10) = None"
  by (rule run_without_error [where dat = ex_data3])
     (simp_all add: all_writable_def ex_files3_def ex_data3_docs ex_topic_doc_fields)


section \<open>The topic and concept indexes of the Indexer\<close>

lemma map_of_append_entry:
  "map_of (append_entry k v d) k' = (if k' = k then Some (entries_at d k @ [v]) else map_of d k')"
  by (simp add: append_entry_def entries_at_def AList.update_conv')

lemma entries_at_append_entry:
  "entries_at (append_entry k v d) k' = entries_at d k' @ (if k' = k then [v] else [])"
  unfolding entries_at_def [of "append_entry k v d"] map_of_append_entry
  by (simp add: get_or_def) (simp add: entries_at_def get_or_def)

lemma no_key_append_entry:
  "(map_of (append_entry k v d) k' = None) = (k' \<noteq> k \<and> map_of d k' = None)"
  by (simp add: map_of_append_entry)

lemma keys_append_entry: "map fst (append_entry k v d) = add_key k (map fst d)"
  by (simp add: append_entry_def AList.update_keys add_key_def)

lemma entries_at_fold_append:
  "entries_at (fold (\<lambda>x d. if p x then append_entry x v d else d) xs d) k =
     entries_at d k @ map (\<lambda>x. v) (filter (\<lambda>x. p x \<and> x = k) xs)"
  by (induction xs arbitrary: d) (auto simp add: entries_at_append_entry)

lemma no_key_fold_append:
  "(map_of (fold (\<lambda>x d. if p x then append_entry x v d else d) xs d) k = None) =
     (\<not> (p k \<and> k \<in> set xs) \<and> map_of d k = None)"
  by (induction xs arbitrary: d) (auto simp add: no_key_append_entry)

lemma keys_fold_append:
  "map fst (fold (\<lambda>x d. if p x then append_entry x v d else d) xs d) =
     fold add_key (filter p xs) (map fst d)"
  by (induction xs arbitrary: d) (simp_all add: keys_append_entry)

lemma topic_index_index_document:
  "topic_index (index_document doc st) =
     fold (\<lambda>x d. if strip x \<noteq> [] then append_entry x (topic_ref_of doc) d else d)
       (get_topics doc) (topic_index st)"
  unfolding topic_ref_of_def by (simp add: index_document_def Let_def)

lemma concept_index_index_document:
  "concept_index (index_document doc st) =
     fold (\<lambda>x d. if strip x \<noteq> [] then append_entry x (concept_ref_of doc) d else d)
       (get_key_concepts doc) (concept_index st)"
  unfolding concept_ref_of_def by (simp add: index_document_def Let_def)

lemma length_entries_topic_index_fold:
  "length (entries_at (topic_index (fold index_document docs st)) k) =
     length (entries_at (topic_index st) k)
     + length (filter (\<lambda>x. strip x \<noteq> [] \<and> x = k) (concat (map get_topics docs)))"
  by (induction docs arbitrary: st)
     (simp_all add: topic_index_index_document entries_at_fold_append)

lemma no_key_topic_index_fold:
  "(map_of (topic_index (fold index_document docs st)) k = None) =
     (\<not> (strip k \<noteq> [] \<and> (\<exists>doc \<in> set docs. k \<in> set (get_topics doc))) \<and>
      map_of (topic_index st) k = None)"
  by (induction docs arbitrary: st)
     (auto simp add: topic_index_index_document no_key_fold_append)

lemma no_key_concept_index_fold:
  "(map_of (concept_index (fold index_document docs st)) k = None) =
     (\<not> (strip k \<noteq> [] \<and> (\<exists>doc \<in> set docs. k \<in> set (get_key_concepts doc))) \<and>
      map_of (concept_index st) k = None)"
  by (induction docs arbitrary: st)
     (auto simp add: concept_index_index_document no_key_fold_append)

lemma keys_topic_index_fold:
  "map fst (topic_index (fold index_document docs st)) =
     fold add_key (filter (\<lambda>x. strip x \<noteq> []) (concat (map get_topics docs)))
       (map fst (topic_index st))"
  by (induction docs arbitrary: st)
     (simp_all add: topic_index_index_document keys_fold_append)

lemma distinct_add_key: "distinct acc \<Longrightarrow> distinct (add_key x acc)"
  by (simp add: add_key_def)

lemma distinct_fold_add_key: "distinct acc \<Longrightarrow> distinct (fold add_key xs acc)"
  by (induction xs arbitrary: acc) (simp_all add: distinct_add_key)

lemma keys_topic_index_build:
  "map fst (topic_index (build_indexes docs)) =
     first_occurrences (filter (\<lambda>x. strip x \<noteq> []) (concat (map get_topics docs)))"
  by (simp add: build_indexes_def keys_topic_index_fold empty_index_state_def
      first_occurrences_def)

lemma distinct_keys_topic_index: "distinct (map fst (topic_index (build_indexes docs)))"
  by (simp add: keys_topic_index_build first_occurrences_def distinct_fold_add_key)


section \<open>Further shared facts\<close>

lemma doc_in_some_chunk:
  assumes "0 < d" and "doc \<in> set docs"
  shows "\<exists>j < nat (num_chunks_of docs d). doc \<in> set (chunk_docs_at docs d j)"
proof -
  have "doc \<in> set (concat (map (chunk_docs_at docs d) [0..<nat (num_chunks_of docs d)]))"
    using assms(2) by (simp only: concat_chunks [OF assms(1)])
  then show ?thesis
    by auto
qed

lemma strip_blank: "strip ''  '' = []" "strip [] = []"
  by (simp_all add: strip_def py_isspace_def)


section \<open>The representative concept of a topic\<close>

lemma topic_concept_step_pair:
  "topic_concept_step cs (n, x) m =
     (if n < length cs \<and> map_of m x = None then AList.update x (cs ! n) m else m)"
  by (simp add: topic_concept_step_def)

lemma map_of_append_cases:
  "map_of (xs @ ys) t = (case map_of xs t of None \<Rightarrow> map_of ys t | Some v \<Rightarrow> Some v)"
  by (simp add: map_add_def)

lemma map_of_fold_topic_concept_step:
  "map_of (fold (topic_concept_step cs) (enumerate n ts) m) t =
     map_of (m @ zip ts (drop n cs)) t"
proof (induction ts arbitrary: n m)
  case Nil
  show ?case by simp
next
  case (Cons x ts)
  let ?m' = "topic_concept_step cs (n, x) m"
  have unfold_fold: "fold (topic_concept_step cs) (enumerate n (x # ts)) m
                       = fold (topic_concept_step cs) (enumerate (Suc n) ts) ?m'"
    by simp
  have ih: "map_of (fold (topic_concept_step cs) (enumerate (Suc n) ts) ?m') t
              = map_of (?m' @ zip ts (drop (Suc n) cs)) t"
    by (rule Cons)
  have step: "map_of (?m' @ zip ts (drop (Suc n) cs)) t = map_of (m @ zip (x # ts) (drop n cs)) t"
  proof (cases "n < length cs")
    case True
    then have d: "drop n cs = cs ! n # drop (Suc n) cs"
      by (simp add: Cons_nth_drop_Suc)
    show ?thesis
    proof (cases "map_of m x")
      case None
      then have m': "?m' = AList.update x (cs ! n) m"
        using True by (simp add: topic_concept_step_pair)
      show ?thesis
        unfolding m' d map_of_append_cases
        using None by (simp add: AList.update_conv' split: option.splits)
    next
      case (Some a)
      then have m': "?m' = m"
        by (simp add: topic_concept_step_pair)
      show ?thesis
        unfolding m' d map_of_append_cases
        using Some by (simp split: option.splits)
    qed
  next
    case False
    then have m': "?m' = m"
      by (simp add: topic_concept_step_pair)
    show ?thesis
      unfolding m' using False by simp
  qed
  show ?case
    unfolding unfold_fold ih step ..
qed

lemma map_of_fold_docs_topic_concept:
  "map_of (fold (\<lambda>doc m. fold (topic_concept_step (get_key_concepts doc))
                            (enumerate 0 (get_topics doc)) m) docs m) t =
     map_of (m @ topic_concept_pairs docs) t"
proof (induction docs arbitrary: m)
  case Nil
  show ?case by (simp add: topic_concept_pairs_def)
next
  case (Cons doc docs)
  let ?m' = "fold (topic_concept_step (get_key_concepts doc)) (enumerate 0 (get_topics doc)) m"
  have inner: "map_of ?m' t = map_of (m @ zip (get_topics doc) (get_key_concepts doc)) t"
    using map_of_fold_topic_concept_step [of "get_key_concepts doc" 0 "get_topics doc" m t]
    by simp
  have pairs: "topic_concept_pairs (doc # docs)
                 = zip (get_topics doc) (get_key_concepts doc) @ topic_concept_pairs docs"
    by (simp add: topic_concept_pairs_def)
  have "map_of (fold (\<lambda>doc m. fold (topic_concept_step (get_key_concepts doc))
                            (enumerate 0 (get_topics doc)) m) (doc # docs) m) t
          = map_of (?m' @ topic_concept_pairs docs) t"
    using Cons [of ?m'] by simp
  also have "\<dots> = (case map_of ?m' t of None \<Rightarrow> map_of (topic_concept_pairs docs) t
                                        | Some v \<Rightarrow> Some v)"
    by (rule map_of_append_cases)
  also have "\<dots> = map_of (m @ topic_concept_pairs (doc # docs)) t"
    unfolding inner pairs map_of_append_cases by (simp split: option.splits)
  finally show ?case .
qed

lemma map_of_build_topic_to_concept:
  "map_of (build_topic_to_concept docs) t = map_of (topic_concept_pairs docs) t"
  using map_of_fold_docs_topic_concept [of docs "[]" t]
  by (simp add: build_topic_to_concept_def)

lemma topic_concept_pairs_append:
  "topic_concept_pairs (docs @ later) = topic_concept_pairs docs @ topic_concept_pairs later"
  by (simp add: topic_concept_pairs_def)

lemma map_of_zip_first:
  "length ts \<le> length cs \<Longrightarrow> t \<in> set ts \<Longrightarrow>
   map_of (zip ts cs) t = Some (cs ! length (takeWhile (\<lambda>x. x \<noteq> t) ts))"
proof (induction ts arbitrary: cs)
  case Nil
  then show ?case by simp
next
  case (Cons x ts)
  then obtain c cs' where cs: "cs = c # cs'"
    by (cases cs) auto
  show ?case
    using Cons by (auto simp add: cs)
qed

lemma first_index_less:
  "t \<in> set ts \<Longrightarrow> length (takeWhile (\<lambda>x. x \<noteq> t) ts) < length ts"
  by (induction ts) auto

lemma map_of_zip_absent: "t \<notin> set ts \<Longrightarrow> map_of (zip ts cs) t = None"
  by (metis in_set_zipE map_of_SomeD not_Some_eq)
 
lemma pairs_eq_spec:
  assumes "\<forall>doc \<in> set docs. length (get_topics doc) \<le> length (get_key_concepts doc)"
  shows "map_of (topic_concept_pairs docs) t = spec_first_seen_concept docs t"
  using assms
proof (induction docs)
  case Nil
  show ?case by (simp add: topic_concept_pairs_def)
next
  case (Cons doc docs)
  have le: "length (get_topics doc) \<le> length (get_key_concepts doc)"
    using Cons.prems by simp
  have rest: "map_of (topic_concept_pairs docs) t = spec_first_seen_concept docs t"
    using Cons by simp
  have unf: "topic_concept_pairs (doc # docs) = zip (get_topics doc) (get_key_concepts doc) @ topic_concept_pairs docs"
    by (simp add: topic_concept_pairs_def)
  show ?case
  proof (cases "t \<in> set (get_topics doc)")
    case True
    have "length (takeWhile (\<lambda>x. x \<noteq> t) (get_topics doc)) < length (get_topics doc)"
      using True by (rule first_index_less)
    then have "length (takeWhile (\<lambda>x. x \<noteq> t) (get_topics doc)) < length (get_key_concepts doc)"
      using le by simp
    then show ?thesis
      using True by (simp add: unf map_add_def map_of_zip_first [OF le True] Let_def)
  next
    case False
    then show ?thesis
      by (simp add: unf map_add_def map_of_zip_absent rest)
  qed
qed


section \<open>The ranking of the topics\<close>

lemma sorted_reverse_descending:
  "sorted_wrt (\<lambda>a b. key b \<le> key a) (sorted_reverse key xs)"
proof -
  have "sorted (map key (sort_key key (rev xs)))"
    by (rule sorted_sort_key)
  then have "sorted_wrt (\<lambda>a b. key a \<le> key b) (sort_key key (rev xs))"
    by (simp add: sorted_map)
  then show ?thesis
    by (simp add: sorted_reverse_def sorted_wrt_rev)
qed

lemma sorted_reverse_stable:
  "filter (\<lambda>x. key x = n) (sorted_reverse key xs) = filter (\<lambda>x. key x = n) xs"
proof -
  have "filter (\<lambda>x. key x = n) (sort_key key (rev xs)) = filter (\<lambda>x. key x = n) (rev xs)"
    by (rule sort_key_stable)
  then show ?thesis
    by (simp add: sorted_reverse_def rev_filter [symmetric])
qed

lemma length_sorted_reverse: "length (sorted_reverse key xs) = length xs"
  by (simp add: sorted_reverse_def)

lemma length_filter_distinct:
  "distinct ts \<Longrightarrow> length (filter (\<lambda>x. x = t) ts) = (if t \<in> set ts then 1 else 0)"
  by (induction ts) auto

lemma occurrence_count_distinct:
  assumes "\<forall>doc \<in> set docs. distinct (get_topics doc)"
  shows "occurrence_count docs t = spec_document_count docs t"
  using assms
  by (induction docs)
     (simp_all add: occurrence_count_def spec_document_count_def length_filter_distinct)

lemma topic_index_entry_count:
  assumes "(t, refs) \<in> set (topic_index (build_indexes docs))"
  shows "length refs = occurrence_count docs t"
proof -
  have m: "map_of (topic_index (build_indexes docs)) t = Some refs"
    using assms distinct_keys_topic_index by (rule_tac map_of_is_SomeI) auto
  then have e: "entries_at (topic_index (build_indexes docs)) t = refs"
    by (rule map_of_Some_entries_at)
  have "map_of (topic_index (build_indexes docs)) t \<noteq> None"
    using m by simp
  then have nb: "strip t \<noteq> []"
    unfolding build_indexes_def no_key_topic_index_fold by (simp add: empty_index_state_def)
  have "length refs = length (filter (\<lambda>x. strip x \<noteq> [] \<and> x = t) (concat (map get_topics docs)))"
    using length_entries_topic_index_fold [of docs empty_index_state t]
    unfolding e [symmetric] build_indexes_def
    by (simp add: empty_index_state_def entries_at_Nil)
  also have "(\<lambda>x. strip x \<noteq> [] \<and> x = t) = (\<lambda>x. x = t)"
    using nb by auto
  finally show ?thesis
    by (simp add: occurrence_count_def)
qed

lemma strip_examples:
  "strip ''a'' = ''a''" "strip ''b'' = ''b''" "strip ''emunah'' = ''emunah''"
  "strip ''simcha'' = ''simcha''"
  by (simp_all add: strip_def py_isspace_def)

lemma ex_repeat_topic_index:
  "topic_index (build_indexes ex_repeat_docs)
     = [(''b'', [topic_ref_of (ex_topic_doc ''m1'' [''b''] []),
                 topic_ref_of (ex_topic_doc ''m2'' [''b''] [])]),
        (''a'', [topic_ref_of (ex_topic_doc ''m3'' [''a'', ''a'', ''a''] []),
                 topic_ref_of (ex_topic_doc ''m3'' [''a'', ''a'', ''a''] []),
                 topic_ref_of (ex_topic_doc ''m3'' [''a'', ''a'', ''a''] [])])]"
  by (simp add: build_indexes_def ex_repeat_docs_def topic_index_index_document
      ex_topic_doc_fields strip_examples append_entry_def get_or_def empty_index_state_def)


section \<open>Parsing glossaries\<close>

lemma split_sep_not_Nil: "split_sep c xs \<noteq> []"
  by (induction xs) (auto split: list.splits)

lemma split_sep_append:
  "split_sep c (xs @ c # ys) = split_sep c xs @ split_sep c ys"
proof (induction xs)
  case Nil
  show ?case by simp
next
  case (Cons x xs)
  obtain seg segs where s: "split_sep c xs = seg # segs"
    using split_sep_not_Nil [of c xs] by (cases "split_sep c xs") auto
  show ?case
    by (simp add: Cons s)
qed

lemma split_sep_no_sep: "c \<notin> set xs \<Longrightarrow> split_sep c xs = [xs]"
  by (induction xs) auto

lemma strip_empty_iff: "(strip s = []) = (\<forall>c \<in> set s. py_isspace c)"
proof
  assume "strip s = []"
  then have "dropWhile py_isspace (rev (dropWhile py_isspace s)) = []"
    by (simp add: strip_def)
  then have all: "\<forall>c \<in> set (dropWhile py_isspace s). py_isspace c"
    by (simp add: dropWhile_eq_Nil_conv)
  have "dropWhile py_isspace s = []"
  proof (rule ccontr)
    assume ne: "dropWhile py_isspace s \<noteq> []"
    then have "\<not> py_isspace (hd (dropWhile py_isspace s))"
      by (rule hd_dropWhile)
    moreover have "hd (dropWhile py_isspace s) \<in> set (dropWhile py_isspace s)"
      using ne by simp
    ultimately show False
      using all by blast
  qed
  then show "\<forall>c \<in> set s. py_isspace c"
    by (simp add: dropWhile_eq_Nil_conv)
next
  assume "\<forall>c \<in> set s. py_isspace c"
  then have d: "dropWhile py_isspace s = []"
    by (simp only: dropWhile_eq_Nil_conv)
  show "strip s = []"
    unfolding strip_def d by simp
qed

lemma set_dropWhile_subset: "set (dropWhile P xs) \<subseteq> set xs"
  by (auto dest: set_dropWhileD)

lemma set_strip: "set (strip s) \<subseteq> set s"
proof -
  have "set (strip s) = set (dropWhile py_isspace (rev (dropWhile py_isspace s)))"
    by (simp add: strip_def)
  also have "\<dots> \<subseteq> set (rev (dropWhile py_isspace s))"
    by (rule set_dropWhile_subset)
  also have "\<dots> = set (dropWhile py_isspace s)"
    by simp
  also have "\<dots> \<subseteq> set s"
    by (rule set_dropWhile_subset)
  finally show ?thesis .
qed

lemma not_space_semicolon: "\<not> py_isspace CHR '';''" "\<not> py_isspace CHR ''|''"
  by (simp_all add: py_isspace_def)

lemma lstrip_before_sep:
  "lstrip_chars ''|'' (a @ CHR '';'' # rest) = lstrip_chars ''|'' a @ CHR '';'' # rest"
  by (simp add: lstrip_chars_def dropWhile_append)

lemma map_filter_append:
  "List.map_filter f (xs @ ys) = List.map_filter f xs @ List.map_filter f ys"
  by (simp add: List.map_filter_def)

lemma glossary_entries_sep:
  "glossary_entries (a @ CHR '';'' # rest) =
     segment_entries (split_sep CHR '';'' (lstrip_chars ''|'' a)) @ segment_entries (split_sep CHR '';'' rest)"
  by (simp add: glossary_entries_def lstrip_before_sep split_sep_append segment_entries_def)

lemma parse_entry_no_colon: "CHR '':'' \<notin> set entry \<Longrightarrow> parse_entry entry = None"
  by (simp add: parse_entry_def)

lemma parsed_segment_no_colon:
  assumes "CHR '':'' \<notin> set junk" and "CHR '';'' \<notin> set junk"
  shows "List.map_filter parse_entry (segment_entries (split_sep CHR '';'' (junk @ CHR '';'' # b)))
           = List.map_filter parse_entry (segment_entries (split_sep CHR '';'' b))"
proof -
  have "CHR '':'' \<notin> set (strip junk)"
    using assms(1) set_strip [of junk] by blast
  then have "parse_entry (strip junk) = None"
    by (rule parse_entry_no_colon)
  then have "List.map_filter parse_entry (segment_entries [junk]) = []"
    by (simp add: segment_entries_def List.map_filter_def)
  moreover have "segment_entries (split_sep CHR '';'' (junk @ CHR '';'' # b))
     = segment_entries [junk] @ segment_entries (split_sep CHR '';'' b)"
    by (simp add: split_sep_append split_sep_no_sep [OF assms(2)] segment_entries_def)
  ultimately show ?thesis
    by (simp add: map_filter_append)
qed

lemma nonblank_with_sep: "strip (a @ CHR '';'' # rest) \<noteq> []"
  by (auto simp add: strip_empty_iff not_space_semicolon)

lemma parsed_glossary_sep:
  "parsed_glossary (a @ CHR '';'' # rest) =
     List.map_filter parse_entry (segment_entries (split_sep CHR '';'' (lstrip_chars ''|'' a)))
     @ List.map_filter parse_entry (segment_entries (split_sep CHR '';'' rest))"
  by (simp add: parsed_glossary_def nonblank_with_sep glossary_entries_sep map_filter_append)

lemma parsed_glossary_skip:
  assumes "CHR '':'' \<notin> set junk" and "CHR '';'' \<notin> set junk"
  shows "parsed_glossary (a @ CHR '';'' # junk @ CHR '';'' # b) = parsed_glossary (a @ CHR '';'' # b)"
  by (simp add: parsed_glossary_sep parsed_segment_no_colon [OF assms])

lemma fold_glossary_step:
  "fold (glossary_step d hdate) es gi = fold (register_entry d hdate) (List.map_filter parse_entry es) gi"
  by (induction es arbitrary: gi)
     (auto simp add: glossary_step_def List.map_filter_def split: option.splits)

lemma index_glossary_parsed:
  "index_glossary d hdate g gi = fold (register_entry d hdate) (parsed_glossary g) gi"
  by (simp add: index_glossary_def parsed_glossary_def fold_glossary_step)

lemma parsed_glossary_pipe: "parsed_glossary (CHR ''|'' # g) = parsed_glossary g"
proof (cases "strip g = []")
  case True
  then have sp: "\<forall>c \<in> set g. py_isspace c"
    by (simp add: strip_empty_iff)
  then have nopipe: "CHR ''|'' \<notin> set g" and nosep: "CHR '';'' \<notin> set g"
    using not_space_semicolon by blast+
  have l: "lstrip_chars ''|'' (CHR ''|'' # g) = g"
    using nopipe by (cases g) (auto simp add: lstrip_chars_def)
  have "glossary_entries (CHR ''|'' # g) = []"
    unfolding glossary_entries_def l split_sep_no_sep [OF nosep] using True by simp
  then show ?thesis
    using True by (simp add: parsed_glossary_def List.map_filter_def)
next
  case False
  then have g: "g \<noteq> []"
    by (auto simp add: strip_def)
  have "strip (CHR ''|'' # g) \<noteq> []"
    by (auto simp add: strip_empty_iff not_space_semicolon)
  moreover have "glossary_entries (CHR ''|'' # g) = glossary_entries g"
    by (simp add: glossary_entries_def lstrip_chars_def)
  ultimately show ?thesis
    using False g by (simp add: parsed_glossary_def)
qed


section \<open>Keywords of a definition, and evaluated examples\<close>

lemma parsed_glossary_example:
  "parsed_glossary ''Aleph (Alef): first letter; Bet (Vet): second letter''
     = [(''Aleph'', ''Alef'', ''first letter''), (''Bet'', ''Vet'', ''second letter'')]"
  by code_simp

lemma register_keyword_keyword_of:
  "register_keyword d hdate h e w gi =
     (if 3 < length w \<and> keyword_of w \<notin> set stop_words
      then append_entry (keyword_of w) (ByKeyword d h e hdate) gi else gi)"
  by (simp add: register_keyword_def keyword_of_def Let_def)

lemma entries_at_fold_register_keyword:
  "entries_at (fold (register_keyword d hdate h e) ws gi) k =
     entries_at gi k
     @ map (\<lambda>w. ByKeyword d h e hdate)
         (filter (\<lambda>w. 3 < length w \<and> keyword_of w \<notin> set stop_words \<and> keyword_of w = k) ws)"
  by (induction ws arbitrary: gi)
     (auto simp add: register_keyword_keyword_of entries_at_append_entry)

lemma no_key_fold_register_keyword:
  "(map_of (fold (register_keyword d hdate h e) ws gi) k = None) =
     (map_of gi k = None \<and>
      (\<forall>w \<in> set ws. \<not> (3 < length w \<and> keyword_of w \<notin> set stop_words \<and> keyword_of w = k)))"
  by (induction ws arbitrary: gi)
     (auto simp add: register_keyword_keyword_of no_key_append_entry)

lemma py_split_example2:
  "py_split ''The. first of, letter'' = [''The.'', ''first'', ''of,'', ''letter'']"
  by code_simp

lemma keyword_of_examples:
  "keyword_of ''The.'' = ''the''" "keyword_of ''first'' = ''first''" "keyword_of ''of,'' = ''of''"
  by code_simp+

lemma keys_fold_register_keyword:
  "map fst (fold (register_keyword d hdate h e) ws gi) =
     fold add_key
       (map keyword_of (filter (\<lambda>w. 3 < length w \<and> keyword_of w \<notin> set stop_words) ws))
       (map fst gi)"
  by (induction ws arbitrary: gi) (simp_all add: register_keyword_keyword_of keys_append_entry)

lemma keys_register_entry:
  "map fst (register_entry d hdate (hebrew_term, transliteration, english_part) gi) =
     fold add_key
       ((if hebrew_term \<noteq> [] then [hebrew_term] else [])
        @ (if transliteration \<noteq> [] then [transliteration] else [])
        @ map keyword_of
            (filter (\<lambda>w. 3 < length w \<and> keyword_of w \<notin> set stop_words)
               (take 3 (py_split english_part))))
       (map fst gi)"
  by (cases "english_part = []")
     (simp_all add: register_entry_def Let_def keys_fold_register_keyword keys_append_entry
        py_split_Nil)

lemma upper_case_codes:
  "c \<in> set ''ABCDEFGHIJKLMNOPQRSTUVWXYZ'' \<Longrightarrow> 65 \<le> (of_char c :: nat) \<and> (of_char c :: nat) \<le> 90"
  by auto

lemma lower_char_not_upper:
  "\<not> (65 \<le> (of_char (lower_char x) :: nat) \<and> (of_char (lower_char x) :: nat) \<le> 90)"
  by (auto simp add: lower_char_def Let_def)

lemma set_rstrip_chars: "set (rstrip_chars cs s) \<subseteq> set s"
  using set_dropWhileD [of _ "\<lambda>c. c \<in> set cs" "rev s"] by (auto simp add: rstrip_chars_def)

lemma keyword_of_no_upper:
  assumes "c \<in> set ''ABCDEFGHIJKLMNOPQRSTUVWXYZ''"
  shows "c \<notin> set (keyword_of w)"
proof
  assume "c \<in> set (keyword_of w)"
  then have "c \<in> set (lower w)"
    using set_rstrip_chars [of "''.,;:''" "lower w"] unfolding keyword_of_def by blast
  then obtain x where "c = lower_char x"
    by (auto simp add: lower_def)
  then show False
    using upper_case_codes [OF assms] lower_char_not_upper [of x] by simp
qed

lemma rstrip_chars_split:
  "\<exists>p. s = rstrip_chars cs s @ p \<and> set p \<subseteq> set cs"
proof (intro exI conjI)
  show "s = rstrip_chars cs s @ rev (takeWhile (\<lambda>c. c \<in> set cs) (rev s))"
    unfolding rstrip_chars_def rev_append [symmetric] takeWhile_dropWhile_id by simp
  show "set (rev (takeWhile (\<lambda>c. c \<in> set cs) (rev s))) \<subseteq> set cs"
    using set_takeWhileD [of _ "\<lambda>c. c \<in> set cs" "rev s"] by auto
qed

lemma rstrip_chars_last:
  "rstrip_chars cs s = [] \<or> last (rstrip_chars cs s) \<notin> set cs"
proof (cases "dropWhile (\<lambda>c. c \<in> set cs) (rev s)")
  case Nil
  then show ?thesis by (simp add: rstrip_chars_def)
next
  case (Cons x xs)
  then have ne: "dropWhile (\<lambda>c. c \<in> set cs) (rev s) \<noteq> []"
    by simp
  have "hd (dropWhile (\<lambda>c. c \<in> set cs) (rev s)) \<notin> set cs"
    by (rule hd_dropWhile [OF ne])
  then show ?thesis
    using Cons by (simp add: rstrip_chars_def)
qed

lemma lower_alphabet:
  "lower ''ABCDEFGHIJKLMNOPQRSTUVWXYZ'' = ''abcdefghijklmnopqrstuvwxyz''"
  "lower ''abcdefghijklmnopqrstuvwxyz 0123456789.,;:'' = ''abcdefghijklmnopqrstuvwxyz 0123456789.,;:''"
  by code_simp+


section \<open>Runs of the Indexer\<close>

lemma output_names_differ: "index_file \<noteq> quick_ref_file"
  by (simp add: index_file_def quick_ref_file_def)

lemma load_failure:
  "load files name = Inl (e, files') \<Longrightarrow>
   files' = files \<and> (e = FileNotFoundError \<or> e = JSONDecodeError)"
  by (auto simp add: load_def split: option.splits file_value.splits)

lemma load_missing_or_malformed:
  "files name = None \<Longrightarrow> load files name = Inl (FileNotFoundError, files)"
  "files name = Some Malformed \<Longrightarrow> load files name = Inl (JSONDecodeError, files)"
  by (simp_all add: load_def)

lemma load_structured: "files name = Some (StructuredJson d) \<Longrightarrow> load files name = Inr d"
  by (simp add: load_def)

lemma create_search_indexes_not_loaded:
  "load files name = Inl (e, files') \<Longrightarrow> create_search_indexes w files name = Inl (e, files')"
  by (simp add: create_search_indexes_def)

lemma create_search_indexes_loaded:
  assumes "load files name = Inr d"
  shows "create_search_indexes w files name =
    (if \<not> w index_file then Inl (OSError, files)
     else if \<not> w quick_ref_file
       then Inl (OSError, files(index_file \<mapsto> SearchIndexJson (indexes_of (build_indexes (get_or [] (documents d))))))
     else (case data_collection_metadata d of
             None \<Rightarrow>
               Inl (KeyError,
                    files(index_file \<mapsto> SearchIndexJson (indexes_of (build_indexes (get_or [] (documents d)))),
                          quick_ref_file \<mapsto> TextFile (report_header (build_indexes (get_or [] (documents d))))))
           | Some cm \<Rightarrow>
               Inr (files(index_file \<mapsto> SearchIndexJson (indexes_of (build_indexes (get_or [] (documents d)))),
                          quick_ref_file \<mapsto> TextFile (report (get_or [] (documents d))
                                                     (build_indexes (get_or [] (documents d))) cm)))))"
  by (simp add: create_search_indexes_def assms Let_def write_file_def)

lemma ex_files3_input: "ex_files3 ''maamarim_structured.json'' = Some (StructuredJson ex_data3)"
  by (simp add: ex_files3_def)

lemma ex_files3_outputs: "ex_files3 index_file = None" "ex_files3 quick_ref_file = None"
  by (simp_all add: ex_files3_def index_file_def quick_ref_file_def)

lemma ex_load3: "load ex_files3 ''maamarim_structured.json'' = Inr ex_data3"
  by (simp add: load_structured ex_files3_input)


section \<open>The chunk files of a run\<close>

lemma digit_value_digit_char:
  "d < 10 \<Longrightarrow> digit_value (digit_char d) = d"
proof -
  assume "d < 10"
  then have "d \<in> {0, 1, 2, 3, 4, 5, 6, 7, 8, 9}"
    by auto
  then show ?thesis
    by (auto simp add: digit_value_def digit_char_def)
qed

lemma decimal_value_snoc: "decimal_value (s @ [c]) = decimal_value s * 10 + digit_value c"
  by (simp add: decimal_value_def)

lemma decimal_value_str_nat: "decimal_value (str_nat n) = n"
proof (induction n rule: str_nat.induct)
  case (1 n)
  show ?case
  proof (cases "10 \<le> n")
    case True
    have "str_nat n = str_nat (n div 10) @ [digit_char (n mod 10)]"
      using True by (subst str_nat.simps) simp
    then show ?thesis
      using 1 [OF True] by (simp add: decimal_value_snoc digit_value_digit_char del: str_nat.simps)
  next
    case False
    then have "str_nat n = [digit_char n]"
      by (subst str_nat.simps) simp
    then show ?thesis
      using False by (simp add: decimal_value_def digit_value_digit_char del: str_nat.simps)
  qed
qed

lemma decimal_value_leading_zero: "decimal_value (CHR ''0'' # s) = decimal_value s"
  by (simp add: decimal_value_def digit_value_def)

lemma decimal_value_fmt_02d: "decimal_value (fmt_02d n) = n"
  by (simp add: fmt_02d_def decimal_value_leading_zero decimal_value_str_nat del: str_nat.simps)

lemma fmt_02d_inj: "fmt_02d m = fmt_02d n \<Longrightarrow> m = n"
  by (metis decimal_value_fmt_02d)

lemma chunk_file_name_inj: "chunk_file_name j = chunk_file_name k \<Longrightarrow> j = k"
proof -
  assume "chunk_file_name j = chunk_file_name k"
  then have "fmt_02d (j + 1) = fmt_02d (k + 1)"
    by (simp add: chunk_file_name_def del: str_nat.simps)
  then have "j + 1 = k + 1"
    by (rule fmt_02d_inj)
  then show "j = k"
    by simp
qed

lemma chunk_file_not_doc_file:
  "chunk_file_name k \<noteq> ''maamarim_docs/maamarim_doc_'' @ s"
  by (simp add: chunk_file_name_def del: str_nat.simps)

lemma chunk_file_not_master_index: "chunk_file_name k \<noteq> ''maamarim_master_index.json''"
  by (simp add: chunk_file_name_def del: str_nat.simps)

lemma write_doc_files_others:
  "write_doc_files w cm ds files = Inr files' \<Longrightarrow>
   (\<forall>s. name \<noteq> ''maamarim_docs/maamarim_doc_'' @ s) \<Longrightarrow> files' name = files name"
proof (induction ds arbitrary: files)
  case Nil
  then show ?case by simp
next
  case (Cons doc ds)
  obtain i where i: "doc_id doc = Some i"
    using Cons.prems(1) by (cases "doc_id doc") simp_all
  let ?f = "''maamarim_docs/maamarim_doc_''
              @ replace_char (CHR 0x5C) CHR ''_'' (replace_char CHR ''/'' CHR ''_'' i) @ ''.json''"
  have w: "w ?f"
    using Cons.prems(1) by (auto simp add: i Let_def write_file_def split: if_splits)
  have rest: "write_doc_files w cm ds (files(?f \<mapsto> DocJson cm doc)) = Inr files'"
    using Cons.prems(1) w by (simp add: i Let_def write_file_def)
  have "files' name = (files(?f \<mapsto> DocJson cm doc)) name"
    by (rule Cons.IH [OF rest Cons.prems(2)])
  moreover have "name \<noteq> ?f"
    using Cons.prems(2) by blast
  ultimately show ?case
    by simp
qed

lemma split_chunks_files:
  assumes "split_chunks w docs d cm ks (mi, files) = Inr (mi', files')" and "distinct ks"
  shows "(\<forall>k \<in> set ks. files' (chunk_file_name k) = Some (ChunkJson (chunk_data_at docs d cm k))) \<and>
         (\<forall>name. (\<forall>s. name \<noteq> ''maamarim_docs/maamarim_doc_'' @ s) \<and>
                  (\<forall>k \<in> set ks. name \<noteq> chunk_file_name k) \<longrightarrow> files' name = files name)"
  using assms
proof (induction ks arbitrary: mi files)
  case Nil
  then show ?case by simp
next
  case (Cons k ks)
  let ?f1 = "files(chunk_file_name k \<mapsto> ChunkJson (chunk_data_at docs d cm k))"
  have w: "w (chunk_file_name k)"
    using Cons.prems(1) by (auto simp add: write_file_def split: if_splits)
  obtain f2 where f2: "write_doc_files w cm (chunk_docs_at docs d k) ?f1 = Inr f2"
    using Cons.prems(1) w by (auto simp add: write_file_def split: sum.splits)
  have rest: "split_chunks w docs d cm ks (index_chunk docs d k mi, f2) = Inr (mi', files')"
    using Cons.prems(1) w f2 by (simp add: write_file_def)
  have dist: "distinct ks" and fresh: "k \<notin> set ks"
    using Cons.prems(2) by simp_all
  note ih = Cons.IH [OF rest dist]
  have f2_others: "f2 name = ?f1 name" if "\<forall>s. name \<noteq> ''maamarim_docs/maamarim_doc_'' @ s" for name
    by (rule write_doc_files_others [OF f2 that])
  have k_other: "\<forall>j \<in> set ks. chunk_file_name k \<noteq> chunk_file_name j"
    using fresh chunk_file_name_inj by blast
  have "files' (chunk_file_name k) = f2 (chunk_file_name k)"
    using ih [THEN conjunct2, rule_format, of "chunk_file_name k"] k_other chunk_file_not_doc_file
    by blast
  also have "\<dots> = ?f1 (chunk_file_name k)"
    using f2_others chunk_file_not_doc_file by blast
  finally have this_chunk: "files' (chunk_file_name k) = Some (ChunkJson (chunk_data_at docs d cm k))"
    by simp
  have others: "files' name = files name"
    if a: "\<forall>s. name \<noteq> ''maamarim_docs/maamarim_doc_'' @ s"
      and b: "\<forall>j \<in> set (k # ks). name \<noteq> chunk_file_name j" for name
  proof -
    have "files' name = f2 name"
      using ih [THEN conjunct2, rule_format, of name] a b by simp
    also have "\<dots> = ?f1 name"
      by (rule f2_others [OF a])
    also have "\<dots> = files name"
      using b by simp
    finally show ?thesis .
  qed
  have chunks: "\<forall>j \<in> set (k # ks). files' (chunk_file_name j) = Some (ChunkJson (chunk_data_at docs d cm j))"
  proof
    fix j
    assume "j \<in> set (k # ks)"
    then have "j = k \<or> j \<in> set ks"
      by simp
    then show "files' (chunk_file_name j) = Some (ChunkJson (chunk_data_at docs d cm j))"
    proof
      assume "j = k"
      then show ?thesis
        by (simp only: this_chunk)
    next
      assume "j \<in> set ks"
      then show ?thesis
        by (rule ih [THEN conjunct1, rule_format])
    qed
  qed
  have rest_names: "\<forall>name. (\<forall>s. name \<noteq> ''maamarim_docs/maamarim_doc_'' @ s) \<and>
                  (\<forall>j \<in> set (k # ks). name \<noteq> chunk_file_name j) \<longrightarrow> files' name = files name"
  proof (intro allI impI)
    fix name
    assume h: "(\<forall>s. name \<noteq> ''maamarim_docs/maamarim_doc_'' @ s) \<and>
               (\<forall>j \<in> set (k # ks). name \<noteq> chunk_file_name j)"
    show "files' name = files name"
      by (rule others [OF h [THEN conjunct1] h [THEN conjunct2]])
  qed
  show ?case
    by (rule conjI [OF chunks rest_names])
qed

lemma completed_run:
  assumes run: "error_of (split_maamarim_file w files input_file d) = None"
    and ld: "load files input_file = Inr dat"
  shows "\<exists>files1.
           split_chunks w (get_or [] (documents dat)) d
             (get_or empty_collection_metadata (data_collection_metadata dat))
             [0..<nat (num_chunks_of (get_or [] (documents dat)) d)]
             (empty_master_index (get_or empty_collection_metadata (data_collection_metadata dat)), files)
           = Inr (master_index_of (get_or [] (documents dat)) d
                    (get_or empty_collection_metadata (data_collection_metadata dat)), files1) \<and>
           split_maamarim_file w files input_file d
           = Inr (files1(''maamarim_master_index.json'' \<mapsto>
                    MasterIndexJson (master_index_of (get_or [] (documents dat)) d
                      (get_or empty_collection_metadata (data_collection_metadata dat)))))"
proof -
  let ?docs = "get_or [] (documents dat)"
  let ?cm = "get_or empty_collection_metadata (data_collection_metadata dat)"
  let ?loop = "split_chunks w ?docs d ?cm [0..<nat (num_chunks_of ?docs d)]
                 (empty_master_index ?cm, files)"
  have unfolded: "split_maamarim_file w files input_file d =
      (if \<not> w ''maamarim_chunks'' \<or> \<not> w ''maamarim_docs'' then Inl (OSError, files)
       else if d = 0 then Inl (ZeroDivisionError, files)
       else (case ?loop of
               Inl e \<Rightarrow> Inl e
             | Inr (mi, files1) \<Rightarrow>
                 write_file w ''maamarim_master_index.json'' (MasterIndexJson mi) files1))"
    by (simp add: split_maamarim_file_def ld Let_def)
  have dirs: "w ''maamarim_chunks'' \<and> w ''maamarim_docs''" and d: "d \<noteq> 0"
    using run unfolding unfolded by (auto simp add: error_of_def split: if_splits)
  obtain mi files1 where loop: "?loop = Inr (mi, files1)"
    using run dirs d unfolding unfolded
    by (cases ?loop) (auto simp add: error_of_def)
  have mi: "mi = master_index_of ?docs d ?cm"
    using split_chunks_Inr [OF loop] by (simp add: master_index_of_def)
  have wm: "w ''maamarim_master_index.json''"
    using run dirs d unfolding unfolded loop
    by (auto simp add: error_of_def write_file_def split: if_splits)
  have "split_maamarim_file w files input_file d
          = Inr (files1(''maamarim_master_index.json'' \<mapsto> MasterIndexJson mi))"
    unfolding unfolded loop using dirs d wm by (simp add: write_file_def)
  then show ?thesis
    using loop unfolding mi by (intro exI conjI)
qed

lemma completed_run_files:
  assumes run: "error_of (split_maamarim_file w files input_file d) = None"
    and ld: "load files input_file = Inr dat"
  shows "files_after (split_maamarim_file w files input_file d) ''maamarim_master_index.json''
           = Some (MasterIndexJson
               (master_index_of (get_or [] (documents dat)) d
                  (get_or empty_collection_metadata (data_collection_metadata dat))))"
    and "k < nat (num_chunks_of (get_or [] (documents dat)) d) \<Longrightarrow>
         files_after (split_maamarim_file w files input_file d) (chunk_file_name k)
           = Some (ChunkJson (chunk_data_at (get_or [] (documents dat)) d
                    (get_or empty_collection_metadata (data_collection_metadata dat)) k))"
    and "nat (num_chunks_of (get_or [] (documents dat)) d) \<le> k \<Longrightarrow>
         files_after (split_maamarim_file w files input_file d) (chunk_file_name k)
           = files (chunk_file_name k)"
proof -
  let ?docs = "get_or [] (documents dat)"
  let ?cm = "get_or empty_collection_metadata (data_collection_metadata dat)"
  let ?n = "nat (num_chunks_of ?docs d)"
  obtain files1 where
    loop: "split_chunks w ?docs d ?cm [0..<?n] (empty_master_index ?cm, files)
             = Inr (master_index_of ?docs d ?cm, files1)"
    and res: "split_maamarim_file w files input_file d
           = Inr (files1(''maamarim_master_index.json'' \<mapsto>
                    MasterIndexJson (master_index_of ?docs d ?cm)))"
    using completed_run [OF run ld] by blast
  have dist: "distinct [0..<?n]"
    by simp
  note sc = split_chunks_files [OF loop dist]
  show "files_after (split_maamarim_file w files input_file d) ''maamarim_master_index.json''
           = Some (MasterIndexJson (master_index_of ?docs d ?cm))"
    unfolding res by (simp add: files_after_def)
  show "files_after (split_maamarim_file w files input_file d) (chunk_file_name k)
           = Some (ChunkJson (chunk_data_at ?docs d ?cm k))" if "k < ?n"
  proof -
    have "files1 (chunk_file_name k) = Some (ChunkJson (chunk_data_at ?docs d ?cm k))"
      using sc [THEN conjunct1] that by simp
    then show ?thesis
      unfolding res using chunk_file_not_master_index [of k] by (simp add: files_after_def)
  qed
  show "files_after (split_maamarim_file w files input_file d) (chunk_file_name k)
           = files (chunk_file_name k)" if "?n \<le> k"
  proof -
    have other: "\<forall>j \<in> set [0..<?n]. chunk_file_name k \<noteq> chunk_file_name j"
      using that chunk_file_name_inj by fastforce
    have "files1 (chunk_file_name k) = files (chunk_file_name k)"
      using sc [THEN conjunct2, rule_format, of "chunk_file_name k"] other
        chunk_file_not_doc_file [of k] by blast
    then show ?thesis
      unfolding res using chunk_file_not_master_index [of k] by (simp add: files_after_def)
  qed
qed

section \<open>The partition into chunks\<close>

text \<open>
  Claim C1. For every input document sequence and every positive \<open>docs_per_chunk\<close>, a
  completed run of the Splitter has written exactly \<open>ceiling (n / docs_per_chunk)\<close>
  chunk files, under pairwise different names, and no other file with the name of a
  chunk: the file of chunk \<open>k\<close> holds the \<open>k\<close>-th sequential slice of the documents, every
  chunk but the last has \<open>docs_per_chunk\<close> documents, the last one has the remainder (at
  least one document, at most \<open>docs_per_chunk\<close>), the document lists of the chunk files
  concatenated are the input sequence, and so are the document-id lists, both those of
  the chunk files and those of \<open>chunk_info\<close> in the master index file, whose keys are the
  chunk numbers \<open>1, 2, ...\<close> in order: no document is skipped or duplicated.
\<close>

theorem splitter_partition:
  assumes pos: "0 < docs_per_chunk"
    and run: "error_of (split_maamarim_file writable files input_file docs_per_chunk) = None"
    and ld: "load files input_file = Inr dat"
    and docs: "docs = get_or [] (documents dat)"
  shows "\<exists>chunks mi.
    int (length chunks) = \<lceil>real (length docs) / real_of_int docs_per_chunk\<rceil> \<and>
    int (length chunks) = num_chunks_of docs docs_per_chunk \<and>
    (\<forall>k < length chunks.
        files_after (split_maamarim_file writable files input_file docs_per_chunk) (chunk_file_name k)
          = Some (ChunkJson (chunks ! k)) \<and>
        chunk_documents (chunks ! k) = chunk_docs_at docs docs_per_chunk k \<and>
        chunk_documents (chunks ! k)
          = take (nat docs_per_chunk) (drop (k * nat docs_per_chunk) docs) \<and>
        document_ids (chunk_info_of (chunks ! k)) = map doc_id (chunk_documents (chunks ! k)) \<and>
        chunk_number (chunk_info_of (chunks ! k)) = k + 1 \<and>
        total_chunks (chunk_info_of (chunks ! k)) = int (length chunks)) \<and>
    (\<forall>k \<ge> length chunks.
        files_after (split_maamarim_file writable files input_file docs_per_chunk) (chunk_file_name k)
          = files (chunk_file_name k)) \<and>
    (\<forall>j k. chunk_file_name j = chunk_file_name k \<longrightarrow> j = k) \<and>
    (\<forall>k. k + 1 < length chunks \<longrightarrow> int (length (chunk_documents (chunks ! k))) = docs_per_chunk) \<and>
    (chunks \<noteq> [] \<longrightarrow>
       int (length (chunk_documents (last chunks)))
         = int (length docs) - (int (length chunks) - 1) * docs_per_chunk \<and>
       0 < length (chunk_documents (last chunks)) \<and>
       int (length (chunk_documents (last chunks))) \<le> docs_per_chunk) \<and>
    concat (map chunk_documents chunks) = docs \<and>
    concat (map (\<lambda>c. document_ids (chunk_info_of c)) chunks) = map doc_id docs \<and>
    files_after (split_maamarim_file writable files input_file docs_per_chunk)
      ''maamarim_master_index.json'' = Some (MasterIndexJson mi) \<and>
    map fst (chunk_info mi) = map Suc [0..<length chunks] \<and>
    map (\<lambda>e. entry_file (snd e)) (chunk_info mi) = map chunk_file_name [0..<length chunks] \<and>
    concat (map (\<lambda>e. entry_document_ids (snd e)) (chunk_info mi)) = map doc_id docs"
proof -
  let ?cm = "get_or empty_collection_metadata (data_collection_metadata dat)"
  let ?N = "num_chunks_of docs docs_per_chunk"
  let ?run = "split_maamarim_file writable files input_file docs_per_chunk"
  let ?chunks = "map (chunk_data_at docs docs_per_chunk ?cm) [0..<nat ?N]"
  let ?mi = "master_index_of docs docs_per_chunk ?cm"
  have N0: "0 \<le> ?N"
  proof -
    have "0 \<le> real (length docs) / real_of_int docs_per_chunk"
      using pos by simp
    then have "- 1 < real (length docs) / real_of_int docs_per_chunk"
      by linarith
    then show ?thesis
      unfolding num_chunks_ceiling [OF pos] by simp
  qed
  have len: "length ?chunks = nat ?N"
    by simp
  have ilen: "int (length ?chunks) = ?N"
    using N0 by simp
  have nth: "?chunks ! k = chunk_data_at docs docs_per_chunk ?cm k" if "k < nat ?N" for k
    using that by simp
  have docs_of: "chunk_documents (chunk_data_at docs docs_per_chunk ?cm k)
                   = chunk_docs_at docs docs_per_chunk k" for k
    by (simp add: chunk_data_at_def Let_def)
  have ids_of: "document_ids (chunk_info_of (chunk_data_at docs docs_per_chunk ?cm k))
                   = map doc_id (chunk_docs_at docs docs_per_chunk k)" for k
    by (simp add: chunk_data_at_def Let_def)
  have info_of: "chunk_number (chunk_info_of (chunk_data_at docs docs_per_chunk ?cm k)) = k + 1"
      "total_chunks (chunk_info_of (chunk_data_at docs docs_per_chunk ?cm k)) = ?N" for k
    by (simp_all add: chunk_data_at_def Let_def)
  have slice: "chunk_docs_at docs docs_per_chunk k
                 = take (nat docs_per_chunk) (drop (k * nat docs_per_chunk) docs)" for k
    by (rule chunk_docs_at_take_drop [OF pos])
  have ids: "concat (map (\<lambda>k. map doc_id (chunk_docs_at docs docs_per_chunk k)) [0..<nat ?N])
               = map doc_id docs"
  proof -
    have "concat (map (\<lambda>k. map doc_id (chunk_docs_at docs docs_per_chunk k)) [0..<nat ?N])
            = map doc_id (concat (map (chunk_docs_at docs docs_per_chunk) [0..<nat ?N]))"
      by (simp add: map_concat comp_def)
    then show ?thesis
      by (simp only: concat_chunks [OF pos])
  qed
  have c1: "int (length ?chunks) = \<lceil>real (length docs) / real_of_int docs_per_chunk\<rceil>"
    unfolding ilen by (rule num_chunks_ceiling [OF pos])
  have c2: "int (length ?chunks) = ?N"
    by (rule ilen)
  have c3: "\<forall>k < length ?chunks.
        files_after ?run (chunk_file_name k) = Some (ChunkJson (?chunks ! k)) \<and>
        chunk_documents (?chunks ! k) = chunk_docs_at docs docs_per_chunk k \<and>
        chunk_documents (?chunks ! k)
          = take (nat docs_per_chunk) (drop (k * nat docs_per_chunk) docs) \<and>
        document_ids (chunk_info_of (?chunks ! k)) = map doc_id (chunk_documents (?chunks ! k)) \<and>
        chunk_number (chunk_info_of (?chunks ! k)) = k + 1 \<and>
        total_chunks (chunk_info_of (?chunks ! k)) = int (length ?chunks)"
  proof (intro allI impI)
    fix k
    assume "k < length ?chunks"
    then have k: "k < nat ?N"
      by simp
    have f: "files_after ?run (chunk_file_name k)
               = Some (ChunkJson (chunk_data_at docs docs_per_chunk ?cm k))"
      unfolding docs using k [unfolded docs] by (rule completed_run_files(2) [OF run ld])
    show "files_after ?run (chunk_file_name k) = Some (ChunkJson (?chunks ! k)) \<and>
        chunk_documents (?chunks ! k) = chunk_docs_at docs docs_per_chunk k \<and>
        chunk_documents (?chunks ! k)
          = take (nat docs_per_chunk) (drop (k * nat docs_per_chunk) docs) \<and>
        document_ids (chunk_info_of (?chunks ! k)) = map doc_id (chunk_documents (?chunks ! k)) \<and>
        chunk_number (chunk_info_of (?chunks ! k)) = k + 1 \<and>
        total_chunks (chunk_info_of (?chunks ! k)) = int (length ?chunks)"
      unfolding nth [OF k] ilen docs_of ids_of info_of
      using f slice [of k] by simp
  qed
  have c4: "\<forall>k \<ge> length ?chunks. files_after ?run (chunk_file_name k) = files (chunk_file_name k)"
  proof (intro allI impI)
    fix k
    assume "length ?chunks \<le> k"
    then have k: "nat ?N \<le> k"
      by simp
    show "files_after ?run (chunk_file_name k) = files (chunk_file_name k)"
      unfolding docs using k [unfolded docs] by (rule completed_run_files(3) [OF run ld])
  qed
  have c5: "\<forall>j k. chunk_file_name j = chunk_file_name k \<longrightarrow> j = k"
    by (intro allI impI) (rule chunk_file_name_inj)
  have c6: "\<forall>k. k + 1 < length ?chunks \<longrightarrow>
              int (length (chunk_documents (?chunks ! k))) = docs_per_chunk"
  proof (intro allI impI)
    fix k
    assume a: "k + 1 < length ?chunks"
    then have k: "k < nat ?N" and k1: "int k + 1 < ?N"
      by simp_all
    show "int (length (chunk_documents (?chunks ! k))) = docs_per_chunk"
      unfolding nth [OF k] docs_of using full_chunks [OF pos] k1 by blast
  qed
  have c7: "?chunks \<noteq> [] \<longrightarrow>
       int (length (chunk_documents (last ?chunks)))
         = int (length docs) - (int (length ?chunks) - 1) * docs_per_chunk \<and>
       0 < length (chunk_documents (last ?chunks)) \<and>
       int (length (chunk_documents (last ?chunks))) \<le> docs_per_chunk"
  proof
    assume ne: "?chunks \<noteq> []"
    then have Npos: "0 < ?N"
      by auto
    have "last ?chunks = ?chunks ! (length ?chunks - 1)"
      by (rule last_conv_nth [OF ne])
    also have "\<dots> = chunk_data_at docs docs_per_chunk ?cm (nat ?N - 1)"
      unfolding len using Npos by (intro nth) simp
    finally have "chunk_documents (last ?chunks)
                       = chunk_docs_at docs docs_per_chunk (nat ?N - 1)"
      by (simp only: docs_of)
    moreover have "nat ?N - 1 = nat (?N - 1)"
      using Npos by simp
    ultimately have l: "chunk_documents (last ?chunks)
                       = chunk_docs_at docs docs_per_chunk (nat (?N - 1))"
      by simp
    show "int (length (chunk_documents (last ?chunks)))
         = int (length docs) - (int (length ?chunks) - 1) * docs_per_chunk \<and>
       0 < length (chunk_documents (last ?chunks)) \<and>
       int (length (chunk_documents (last ?chunks))) \<le> docs_per_chunk"
      unfolding l ilen using last_chunk [OF pos] Npos by blast
  qed
  have c8: "concat (map chunk_documents ?chunks) = docs"
    using concat_chunks [OF pos, of docs] by (simp add: comp_def docs_of)
  have c9: "concat (map (\<lambda>c. document_ids (chunk_info_of c)) ?chunks) = map doc_id docs"
    using ids by (simp add: comp_def ids_of)
  have c10: "files_after ?run ''maamarim_master_index.json'' = Some (MasterIndexJson ?mi)"
    unfolding docs by (rule completed_run_files(1) [OF run ld])
  have c11: "map fst (chunk_info ?mi) = map Suc [0..<length ?chunks]"
    unfolding len by (simp add: chunk_info_master_index_of chunk_entry_at_def comp_def)
  have c12: "map (\<lambda>e. entry_file (snd e)) (chunk_info ?mi) = map chunk_file_name [0..<length ?chunks]"
    unfolding len by (simp add: chunk_info_master_index_of chunk_entry_at_def comp_def)
  have c13: "concat (map (\<lambda>e. entry_document_ids (snd e)) (chunk_info ?mi)) = map doc_id docs"
    using ids by (simp add: chunk_info_master_index_of chunk_entry_at_def comp_def)
  show ?thesis
    by (rule exI [of _ ?chunks], rule exI [of _ ?mi], intro conjI)
       (rule c1, rule c2, rule c3, rule c4, rule c5, rule c6, rule c7, rule c8, rule c9,
        rule c10, rule c11, rule c12, rule c13)
qed

theorem splitter_partition_witness:
  "(0::int) < 2 \<and>
   error_of (split_maamarim_file all_writable ex_files3 ''maamarim_structured.json'' 2) = None \<and>
   load ex_files3 ''maamarim_structured.json'' = Inr ex_data3 \<and>
   (\<exists>c0 c1.
      files_after (split_maamarim_file all_writable ex_files3 ''maamarim_structured.json'' 2)
        ''maamarim_chunks/maamarim_chunk_01.json'' = Some (ChunkJson c0) \<and>
      chunk_documents c0 = [ex_topic_doc ''m1'' [''emunah''] [''faith''],
                            ex_topic_doc ''m2'' [''emunah'', ''simcha''] [''faith'', ''joy'']] \<and>
      document_ids (chunk_info_of c0) = [Some ''m1'', Some ''m2''] \<and>
      files_after (split_maamarim_file all_writable ex_files3 ''maamarim_structured.json'' 2)
        ''maamarim_chunks/maamarim_chunk_02.json'' = Some (ChunkJson c1) \<and>
      chunk_documents c1 = [ex_topic_doc ''m3'' [''emunah''] [''faith'']] \<and>
      document_ids (chunk_info_of c1) = [Some ''m3'']) \<and>
   files_after (split_maamarim_file all_writable ex_files3 ''maamarim_structured.json'' 2)
     ''maamarim_chunks/maamarim_chunk_03.json'' = None"
proof -
  let ?docs = "get_or [] (documents ex_data3)"
  let ?run = "split_maamarim_file all_writable ex_files3 ''maamarim_structured.json'' 2"
  have pos: "(0::int) < 2"
    by simp
  have run: "error_of ?run = None"
    by (rule run_without_error [where dat = ex_data3])
       (simp_all add: all_writable_def ex_files3_def ex_data3_docs ex_topic_doc_fields)
  have n: "num_chunks_of ?docs 2 = 2"
    by (simp add: num_chunks_of_def ex_data3_docs)
  have names: "chunk_file_name 0 = ''maamarim_chunks/maamarim_chunk_01.json''"
    "chunk_file_name 1 = ''maamarim_chunks/maamarim_chunk_02.json''"
    "chunk_file_name 2 = ''maamarim_chunks/maamarim_chunk_03.json''"
    by code_simp+
  obtain chunks where len: "int (length chunks) = num_chunks_of ?docs 2"
    and written: "\<forall>k < length chunks.
        files_after ?run (chunk_file_name k) = Some (ChunkJson (chunks ! k)) \<and>
        chunk_documents (chunks ! k) = chunk_docs_at ?docs 2 k \<and>
        chunk_documents (chunks ! k) = take (nat 2) (drop (k * nat 2) ?docs) \<and>
        document_ids (chunk_info_of (chunks ! k)) = map doc_id (chunk_documents (chunks ! k)) \<and>
        chunk_number (chunk_info_of (chunks ! k)) = k + 1 \<and>
        total_chunks (chunk_info_of (chunks ! k)) = int (length chunks)"
    and others: "\<forall>k \<ge> length chunks.
        files_after ?run (chunk_file_name k) = ex_files3 (chunk_file_name k)"
    using splitter_partition [OF pos run ex_load3 refl] by blast
  have l2: "length chunks = 2"
    using len unfolding n by simp
  have k0: "0 < length chunks" and k1: "1 < length chunks"
    unfolding l2 by simp_all
  note a0 = written [rule_format, OF k0]
  note a1 = written [rule_format, OF k1]
  note w0 = a0 [THEN conjunct1]
  note d0 = a0 [THEN conjunct2, THEN conjunct2, THEN conjunct1]
  note i0 = a0 [THEN conjunct2, THEN conjunct2, THEN conjunct2, THEN conjunct1]
  note w1 = a1 [THEN conjunct1]
  note d1 = a1 [THEN conjunct2, THEN conjunct2, THEN conjunct1]
  note i1 = a1 [THEN conjunct2, THEN conjunct2, THEN conjunct2, THEN conjunct1]
  have e0: "chunk_documents (chunks ! 0)
              = [ex_topic_doc ''m1'' [''emunah''] [''faith''],
                 ex_topic_doc ''m2'' [''emunah'', ''simcha''] [''faith'', ''joy'']]"
    unfolding d0 by (simp add: ex_data3_docs)
  have e1: "chunk_documents (chunks ! 1) = [ex_topic_doc ''m3'' [''emunah''] [''faith'']]"
    unfolding d1 by (simp add: ex_data3_docs)
  have j0: "document_ids (chunk_info_of (chunks ! 0)) = [Some ''m1'', Some ''m2'']"
    unfolding i0 e0 by (simp add: ex_topic_doc_fields)
  have j1: "document_ids (chunk_info_of (chunks ! 1)) = [Some ''m3'']"
    unfolding i1 e1 by (simp add: ex_topic_doc_fields)
  have "files_after ?run (chunk_file_name 2) = ex_files3 (chunk_file_name 2)"
    using others [rule_format, of 2] l2 by simp
  then have w2: "files_after ?run ''maamarim_chunks/maamarim_chunk_03.json'' = None"
    unfolding names by (simp add: ex_files3_def)
  have ex: "\<exists>c0 c1.
      files_after ?run ''maamarim_chunks/maamarim_chunk_01.json'' = Some (ChunkJson c0) \<and>
      chunk_documents c0 = [ex_topic_doc ''m1'' [''emunah''] [''faith''],
                            ex_topic_doc ''m2'' [''emunah'', ''simcha''] [''faith'', ''joy'']] \<and>
      document_ids (chunk_info_of c0) = [Some ''m1'', Some ''m2''] \<and>
      files_after ?run ''maamarim_chunks/maamarim_chunk_02.json'' = Some (ChunkJson c1) \<and>
      chunk_documents c1 = [ex_topic_doc ''m3'' [''emunah''] [''faith'']] \<and>
      document_ids (chunk_info_of c1) = [Some ''m3'']"
    by (rule exI [of _ "chunks ! 0"], rule exI [of _ "chunks ! 1"], intro conjI)
       (rule w0 [unfolded names], rule e0, rule j0, rule w1 [unfolded names], rule e1, rule j1)
  show ?thesis
    by (intro conjI) (rule pos, rule run, rule ex_load3, rule ex, rule w2)
qed


section \<open>The document summary\<close>

lemma document_summary_index_document:
  "document_summary (index_document doc st) = document_summary st @ [summary_of doc]"
  by (simp add: index_document_def Let_def)

lemma document_summary_fold:
  "document_summary (fold index_document docs st) = document_summary st @ map summary_of docs"
  by (induction docs arbitrary: st) (simp_all add: document_summary_index_document)

lemma document_summary_build:
  "document_summary (build_indexes docs) = map summary_of docs"
  by (simp add: build_indexes_def document_summary_fold empty_index_state_def)

text \<open>
  Claim C2. For every document list, \<open>document_summary\<close> has exactly one entry per
  document, in input order, whatever fields the documents have. The entry's \<open>word_count\<close>
  is the stored \<open>metadata.word_count\<close> when that is not zero (an absent one counts as
  zero), else the number of whitespace-separated tokens of \<open>content.main_text\<close>; its
  \<open>chunk_count\<close> is the stored \<open>metadata.chunk_count\<close> when not zero, else the number
  of entries of \<open>content.main_text_chunks\<close>. The fallback is decided document by document.
\<close>

theorem document_summary_entries:
  "length (document_summary (build_indexes docs)) = length docs \<and>
   (\<forall>i < length docs.
      s_id (document_summary (build_indexes docs) ! i) = get_or ''unknown'' (doc_id (docs ! i)) \<and>
      s_word_count (document_summary (build_indexes docs) ! i) =
        (if get_or 0 (word_count (get_metadata (docs ! i))) \<noteq> 0
         then get_or 0 (word_count (get_metadata (docs ! i)))
         else int (length (py_split (get_or [] (main_text (get_content (docs ! i))))))) \<and>
      s_chunk_count (document_summary (build_indexes docs) ! i) =
        (if get_or 0 (chunk_count (get_metadata (docs ! i))) \<noteq> 0
         then get_or 0 (chunk_count (get_metadata (docs ! i)))
         else int (length (get_or [] (main_text_chunks (get_content (docs ! i)))))))"
  by (simp add: document_summary_build summary_of_def summary_word_count_def
      summary_chunk_count_def Let_def py_split_Nil)

lemma py_split_example: "py_split ''one two  three'' = [''one'', ''two'', ''three'']"
  by (simp add: py_split_def py_isspace_def)

theorem document_summary_entries_witness:
  "length (document_summary (build_indexes [ex_doc1, ex_doc2])) = 2 \<and>
   s_word_count (document_summary (build_indexes [ex_doc1, ex_doc2]) ! 0) = 7 \<and>
   s_chunk_count (document_summary (build_indexes [ex_doc1, ex_doc2]) ! 0) = 2 \<and>
   s_id (document_summary (build_indexes [ex_doc1, ex_doc2]) ! 1) = ''unknown'' \<and>
   s_word_count (document_summary (build_indexes [ex_doc1, ex_doc2]) ! 1) = 3 \<and>
   s_chunk_count (document_summary (build_indexes [ex_doc1, ex_doc2]) ! 1) = 2"
proof -
  note t = document_summary_entries [of "[ex_doc1, ex_doc2]"]
  have len: "length (document_summary (build_indexes [ex_doc1, ex_doc2])) = 2"
    using t by simp
  have e0: "s_word_count (document_summary (build_indexes [ex_doc1, ex_doc2]) ! 0) = 7 \<and>
            s_chunk_count (document_summary (build_indexes [ex_doc1, ex_doc2]) ! 0) = 2"
    using t [THEN conjunct2, rule_format, of 0]
    by (simp add: ex_doc1_def get_or_def get_metadata_def get_content_def empty_metadata_def)
  have e1: "s_id (document_summary (build_indexes [ex_doc1, ex_doc2]) ! 1) = ''unknown'' \<and>
            s_word_count (document_summary (build_indexes [ex_doc1, ex_doc2]) ! 1) = 3 \<and>
            s_chunk_count (document_summary (build_indexes [ex_doc1, ex_doc2]) ! 1) = 2"
    using t [THEN conjunct2, rule_format, of 1]
    by (simp add: ex_doc2_def get_or_def get_metadata_def get_content_def empty_metadata_def
        py_split_example)
  show ?thesis using len e0 e1 by simp
qed


text \<open>
  Claim C3. In the master index that a completed run of the Splitter writes, for each of
  the five facet mappings (\<open>topic_to_chunks\<close>, \<open>concept_to_chunks\<close>, \<open>date_to_chunks\<close>,
  \<open>opening_phrase_to_chunks\<close>, \<open>glossary_term_to_chunks\<close>) and every facet value, the
  list holds the number of each chunk that has a document with that value exactly once,
  in the order of the chunks: it is duplicate-free and strictly increasing, which is the
  order of first occurrence, and the list of a key that is present is not empty. In
  particular a topic whose documents all lie in one chunk \<open>j\<close> (counted from zero) has
  the list \<open>[j + 1]\<close>, of length one, however many documents of that chunk carry it.
\<close>

theorem master_index_chunk_lists:
  assumes run: "error_of (split_maamarim_file writable files input_file docs_per_chunk) = None"
    and inp: "files input_file = Some (StructuredJson dat)"
    and docs: "docs = get_or [] (documents dat)"
  shows "\<exists>mi. files_after (split_maamarim_file writable files input_file docs_per_chunk)
                 ''maamarim_master_index.json'' = Some (MasterIndexJson mi) \<and>
    (\<forall>(facet, keys) \<in> set (master_facets_of mi). \<forall>key.
        entries_at facet key =
          map Suc (filter (\<lambda>j. \<exists>doc \<in> set (chunk_docs_at docs docs_per_chunk j). key \<in> set (keys doc))
                     [0..<nat (num_chunks_of docs docs_per_chunk)]) \<and>
        distinct (entries_at facet key) \<and> sorted_wrt (<) (entries_at facet key) \<and>
        (\<forall>chunks. map_of facet key = Some chunks \<longrightarrow> chunks = entries_at facet key \<and> chunks \<noteq> [])) \<and>
    (\<forall>t j. j < nat (num_chunks_of docs docs_per_chunk) \<and>
            (\<forall>k < nat (num_chunks_of docs docs_per_chunk).
               (\<exists>doc \<in> set (chunk_docs_at docs docs_per_chunk k). t \<in> set (get_topics doc)) = (k = j))
            \<longrightarrow> map_of (topic_to_chunks mi) t = Some [Suc j])"
proof -
  let ?cm = "get_or empty_collection_metadata (data_collection_metadata dat)"
  let ?mi = "master_index_of docs docs_per_chunk ?cm"
  let ?n = "nat (num_chunks_of docs docs_per_chunk)"
  have mfile: "files_after (split_maamarim_file writable files input_file docs_per_chunk)
                 ''maamarim_master_index.json'' = Some (MasterIndexJson ?mi)"
    using completed_run_master_index [OF run inp] by (simp add: docs)
  have facets: "\<forall>(facet, keys) \<in> set (master_facets_of ?mi). \<forall>key.
        entries_at facet key =
          map Suc (filter (\<lambda>j. \<exists>doc \<in> set (chunk_docs_at docs docs_per_chunk j). key \<in> set (keys doc))
                     [0..<?n]) \<and>
        distinct (entries_at facet key) \<and> sorted_wrt (<) (entries_at facet key) \<and>
        (\<forall>chunks. map_of facet key = Some chunks \<longrightarrow> chunks = entries_at facet key \<and> chunks \<noteq> [])"
  proof (intro ballI, clarify)
    fix facet keys key
    assume m: "(facet, keys) \<in> set (master_facets_of ?mi)"
    then have m': "(facet, keys) \<in> set [(topic_to_chunks ?mi, get_topics),
             (concept_to_chunks ?mi, get_key_concepts),
             (date_to_chunks ?mi, date_keys),
             (opening_phrase_to_chunks ?mi, opening_keys),
             (glossary_term_to_chunks ?mi, glossary_keys)]"
      by (simp only: master_facets_of_def)
    let ?P = "\<lambda>j. \<exists>doc \<in> set (chunk_docs_at docs docs_per_chunk j). key \<in> set (keys doc)"
    have e: "entries_at facet key = map Suc (filter ?P [0..<?n])"
      by (rule master_facets(1) [OF m'])
    have nk: "(map_of facet key = None) =
           (\<forall>j < ?n. \<forall>doc \<in> set (chunk_docs_at docs docs_per_chunk j). key \<notin> set (keys doc))"
      by (rule master_facets(2) [OF m'])
    have present: "chunks = entries_at facet key \<and> chunks \<noteq> []"
      if some: "map_of facet key = Some chunks" for chunks
    proof -
      have "map_of facet key \<noteq> None"
        using some by simp
      then obtain j where "j < ?n" "?P j"
        unfolding nk by blast
      then have "filter ?P [0..<?n] \<noteq> []"
        by (auto simp add: filter_empty_conv)
      then have "entries_at facet key \<noteq> []"
        by (simp add: e)
      then show ?thesis
        using map_of_Some_entries_at [OF some] by simp
    qed
    show "entries_at facet key = map Suc (filter ?P [0..<?n]) \<and>
        distinct (entries_at facet key) \<and> sorted_wrt (<) (entries_at facet key) \<and>
        (\<forall>chunks. map_of facet key = Some chunks \<longrightarrow> chunks = entries_at facet key \<and> chunks \<noteq> [])"
      using e present by (simp add: chunk_numbers_sorted chunk_numbers_distinct)
  qed
  have scenario: "map_of (topic_to_chunks ?mi) t = Some [Suc j]"
    if j: "j < ?n"
      and only: "\<forall>k < ?n. (\<exists>doc \<in> set (chunk_docs_at docs docs_per_chunk k). t \<in> set (get_topics doc)) = (k = j)"
    for t j
  proof -
    have m': "(topic_to_chunks ?mi, get_topics) \<in> set [(topic_to_chunks ?mi, get_topics),
             (concept_to_chunks ?mi, get_key_concepts),
             (date_to_chunks ?mi, date_keys),
             (opening_phrase_to_chunks ?mi, opening_keys),
             (glossary_term_to_chunks ?mi, glossary_keys)]"
      by simp
    have "filter (\<lambda>k. \<exists>doc \<in> set (chunk_docs_at docs docs_per_chunk k). t \<in> set (get_topics doc)) [0..<?n]
            = filter (\<lambda>k. k = j) [0..<?n]"
      using only by (intro filter_cong) auto
    then have e: "entries_at (topic_to_chunks ?mi) t = [Suc j]"
      using j by (simp add: master_facets(1) [OF m'] filter_eq_upt)
    have "map_of (topic_to_chunks ?mi) t \<noteq> None"
      using j only unfolding master_facets(2) [OF m'] by blast
    then obtain l where l: "map_of (topic_to_chunks ?mi) t = Some l"
      by blast
    show ?thesis
      using map_of_Some_entries_at [OF l] e l by simp
  qed
  show ?thesis
    using mfile facets scenario by blast
qed

theorem master_index_chunk_lists_witness:
  "\<exists>mi. files_after (split_maamarim_file all_writable ex_files3 ''maamarim_structured.json'' 10)
            ''maamarim_master_index.json'' = Some (MasterIndexJson mi) \<and>
        map_of (topic_to_chunks mi) ''emunah'' = Some [1] \<and>
        length (entries_at (topic_to_chunks mi) ''emunah'') = 1"
proof -
  let ?docs = "get_or [] (documents ex_data3)"
  have inp: "ex_files3 ''maamarim_structured.json'' = Some (StructuredJson ex_data3)"
    by (simp add: ex_files3_def)
  have n: "nat (num_chunks_of ?docs 10) = 1"
    by (simp add: num_chunks_of_def ex_data3_docs)
  have c0: "chunk_docs_at ?docs 10 0 = ?docs"
    by (simp add: chunk_docs_at_take_drop ex_data3_docs)
  obtain mi where mfile: "files_after (split_maamarim_file all_writable ex_files3 ''maamarim_structured.json'' 10)
            ''maamarim_master_index.json'' = Some (MasterIndexJson mi)"
    and scenario: "\<forall>t j. j < nat (num_chunks_of ?docs 10) \<and>
            (\<forall>k < nat (num_chunks_of ?docs 10).
               (\<exists>doc \<in> set (chunk_docs_at ?docs 10 k). t \<in> set (get_topics doc)) = (k = j))
            \<longrightarrow> map_of (topic_to_chunks mi) t = Some [Suc j]"
    using master_index_chunk_lists [OF ex_run3_ok inp refl] by blast
  have "map_of (topic_to_chunks mi) ''emunah'' = Some [Suc 0]"
  proof (rule scenario [rule_format])
    show "0 < nat (num_chunks_of ?docs 10) \<and>
          (\<forall>k < nat (num_chunks_of ?docs 10).
             (\<exists>doc \<in> set (chunk_docs_at ?docs 10 k). ''emunah'' \<in> set (get_topics doc)) = (k = 0))"
      unfolding n by (simp add: c0) (simp add: ex_data3_docs ex_topic_doc_fields)
  qed
  then show ?thesis
    using mfile by (simp add: entries_at_def get_or_def)
qed


section \<open>The output files of the Indexer\<close>

text \<open>
  Claim C4, as amended. A run of the Indexer whose input file is missing or is not
  well-formed JSON aborts with the files as they were. For an input that loads (any JSON
  object, the structured collection or another JSON file), the JSON search index is
  written first and the quick reference second, with nothing undone on a failure: a run
  that completes has written both files in full; a run that cannot open the JSON index
  for writing changes no file; a run that cannot open the quick reference aborts with
  the complete JSON index as its only output; the quick reference is never changed
  unless the JSON index has been written in full; a run with both files writable and a
  \<open>collection_metadata\<close> in its input completes. No other file is ever changed.
\<close>

theorem indexer_output_files:
  "(files structured_file = None \<longrightarrow>
      error_of (create_search_indexes writable files structured_file) = Some FileNotFoundError \<and>
      files_after (create_search_indexes writable files structured_file) = files) \<and>
   (files structured_file = Some Malformed \<longrightarrow>
      error_of (create_search_indexes writable files structured_file) = Some JSONDecodeError \<and>
      files_after (create_search_indexes writable files structured_file) = files) \<and>
   (load files structured_file = Inr d \<longrightarrow>
      (error_of (create_search_indexes writable files structured_file) = None \<longrightarrow>
         files_after (create_search_indexes writable files structured_file) index_file
           = Some (SearchIndexJson (indexes_of (build_indexes (get_or [] (documents d))))) \<and>
         (\<exists>cm. data_collection_metadata d = Some cm \<and>
            files_after (create_search_indexes writable files structured_file) quick_ref_file
              = Some (TextFile (report (get_or [] (documents d))
                                  (build_indexes (get_or [] (documents d))) cm)))) \<and>
      (files_after (create_search_indexes writable files structured_file) quick_ref_file
         \<noteq> files quick_ref_file \<longrightarrow>
         files_after (create_search_indexes writable files structured_file) index_file
           = Some (SearchIndexJson (indexes_of (build_indexes (get_or [] (documents d)))))) \<and>
      (\<not> writable index_file \<longrightarrow>
         error_of (create_search_indexes writable files structured_file) = Some OSError \<and>
         files_after (create_search_indexes writable files structured_file) = files) \<and>
      (writable index_file \<and> \<not> writable quick_ref_file \<longrightarrow>
         error_of (create_search_indexes writable files structured_file) = Some OSError \<and>
         files_after (create_search_indexes writable files structured_file)
           = files(index_file \<mapsto>
               SearchIndexJson (indexes_of (build_indexes (get_or [] (documents d)))))) \<and>
      (writable index_file \<and> writable quick_ref_file \<and> data_collection_metadata d \<noteq> None \<longrightarrow>
         error_of (create_search_indexes writable files structured_file) = None)) \<and>
   (\<forall>name. name \<noteq> index_file \<and> name \<noteq> quick_ref_file \<longrightarrow>
      files_after (create_search_indexes writable files structured_file) name = files name) \<and>
   (files structured_file = Some (StructuredJson d) \<longrightarrow> load files structured_file = Inr d) \<and>
   (files structured_file = Some (TextFile ls) \<longrightarrow>
      error_of (create_search_indexes writable files structured_file) = Some JSONDecodeError \<and>
      files_after (create_search_indexes writable files structured_file) = files)"
proof -
  let ?r = "create_search_indexes writable files structured_file"
  have missing: "error_of ?r = Some FileNotFoundError \<and> files_after ?r = files"
    if "files structured_file = None"
    using that by (simp add: create_search_indexes_def load_def error_of_def files_after_def)
  have malformed: "error_of ?r = Some JSONDecodeError \<and> files_after ?r = files"
    if "files structured_file = Some Malformed"
    using that by (simp add: create_search_indexes_def load_def error_of_def files_after_def)
  have loaded: "(error_of ?r = None \<longrightarrow>
         files_after ?r index_file
           = Some (SearchIndexJson (indexes_of (build_indexes (get_or [] (documents d))))) \<and>
         (\<exists>cm. data_collection_metadata d = Some cm \<and>
            files_after ?r quick_ref_file
              = Some (TextFile (report (get_or [] (documents d))
                                  (build_indexes (get_or [] (documents d))) cm)))) \<and>
      (files_after ?r quick_ref_file \<noteq> files quick_ref_file \<longrightarrow>
         files_after ?r index_file
           = Some (SearchIndexJson (indexes_of (build_indexes (get_or [] (documents d)))))) \<and>
      (\<not> writable index_file \<longrightarrow> error_of ?r = Some OSError \<and> files_after ?r = files) \<and>
      (writable index_file \<and> \<not> writable quick_ref_file \<longrightarrow>
         error_of ?r = Some OSError \<and>
         files_after ?r
           = files(index_file \<mapsto>
               SearchIndexJson (indexes_of (build_indexes (get_or [] (documents d)))))) \<and>
      (writable index_file \<and> writable quick_ref_file \<and> data_collection_metadata d \<noteq> None \<longrightarrow>
         error_of ?r = None)"
    if inp: "load files structured_file = Inr d"
    unfolding create_search_indexes_loaded [where files = files and name = structured_file
        and d = d and w = writable, OF inp]
    using output_names_differ
    by (cases "data_collection_metadata d")
       (simp_all add: error_of_def files_after_def)
  have others: "\<forall>name. name \<noteq> index_file \<and> name \<noteq> quick_ref_file \<longrightarrow> files_after ?r name = files name"
  proof (cases "load files structured_file")
    case (Inr d')
    show ?thesis
      unfolding create_search_indexes_loaded [where files = files and name = structured_file
          and d = d' and w = writable, OF Inr]
      by (cases "data_collection_metadata d'") (simp_all add: files_after_def)
  next
    case (Inl p)
    obtain e files' where p: "p = (e, files')"
      by (cases p)
    have "files' = files"
      using load_failure [of files structured_file e files'] Inl p by simp
    then show ?thesis
      using create_search_indexes_not_loaded [of files structured_file e files' writable] Inl p
      by (simp add: files_after_def)
  qed
  have structured: "files structured_file = Some (StructuredJson d) \<longrightarrow> load files structured_file = Inr d"
    by (simp add: load_structured)
  have not_json: "error_of ?r = Some JSONDecodeError \<and> files_after ?r = files"
    if "files structured_file = Some (TextFile ls)"
    using that by (simp add: create_search_indexes_def load_def error_of_def files_after_def)
  show ?thesis
    using missing malformed loaded others structured not_json by (intro conjI impI) blast+
qed

theorem indexer_output_files_witness:
  "load ex_files3 ''maamarim_structured.json'' = Inr ex_data3 \<and>
   error_of (create_search_indexes all_writable ex_files3 ''maamarim_structured.json'') = None \<and>
   files_after (create_search_indexes all_writable ex_files3 ''maamarim_structured.json'') index_file
     = Some (SearchIndexJson (indexes_of (build_indexes (get_or [] (documents ex_data3))))) \<and>
   files_after (create_search_indexes all_writable ex_files3 ''maamarim_structured.json'')
     quick_ref_file
     = Some (TextFile (report (get_or [] (documents ex_data3))
                         (build_indexes (get_or [] (documents ex_data3)))
                         \<lparr>date_range = Some ''5710-5711'', other_keys = []\<rparr>)) \<and>
   error_of (create_search_indexes all_writable ex_chunk_file_input ''maamarim_structured.json'') = None \<and>
   error_of (create_search_indexes all_writable (\<lambda>name. None) ''maamarim_structured.json'')
     = Some FileNotFoundError \<and>
   error_of (create_search_indexes all_writable [''maamarim_structured.json'' \<mapsto> Malformed]
               ''maamarim_structured.json'') = Some JSONDecodeError"
proof -
  note t = indexer_output_files [where files = ex_files3
      and structured_file = "''maamarim_structured.json''" and d = ex_data3
      and writable = all_writable, THEN conjunct2, THEN conjunct2, THEN conjunct1, THEN mp,
      OF ex_load3]
  have cm: "data_collection_metadata ex_data3 = Some \<lparr>date_range = Some ''5710-5711'', other_keys = []\<rparr>"
    by (simp add: ex_data3_def)
  have ok: "all_writable index_file \<and> all_writable quick_ref_file \<and>
            data_collection_metadata ex_data3 \<noteq> None"
    by (simp add: all_writable_def cm)
  have completed: "error_of (create_search_indexes all_writable ex_files3 ''maamarim_structured.json'') = None"
    using t ok by blast
  have both: "files_after (create_search_indexes all_writable ex_files3 ''maamarim_structured.json'') index_file
           = Some (SearchIndexJson (indexes_of (build_indexes (get_or [] (documents ex_data3))))) \<and>
         (\<exists>cm. data_collection_metadata ex_data3 = Some cm \<and>
            files_after (create_search_indexes all_writable ex_files3 ''maamarim_structured.json'') quick_ref_file
              = Some (TextFile (report (get_or [] (documents ex_data3))
                                  (build_indexes (get_or [] (documents ex_data3))) cm)))"
    using t [THEN conjunct1, THEN mp, OF completed] .
  have q: "files_after (create_search_indexes all_writable ex_files3 ''maamarim_structured.json'')
     quick_ref_file
     = Some (TextFile (report (get_or [] (documents ex_data3))
                         (build_indexes (get_or [] (documents ex_data3)))
                         \<lparr>date_range = Some ''5710-5711'', other_keys = []\<rparr>))"
    using both [THEN conjunct2] unfolding cm by simp
  let ?cd = "\<lparr>documents = Some (chunk_documents (chunk_data_at (get_or [] (documents ex_data3)) 10
                     \<lparr>date_range = Some ''5710-5711'', other_keys = []\<rparr> 0)),
              data_collection_metadata = Some (chunk_collection_metadata
                 (chunk_data_at (get_or [] (documents ex_data3)) 10
                     \<lparr>date_range = Some ''5710-5711'', other_keys = []\<rparr> 0))\<rparr>"
  have lc: "load ex_chunk_file_input ''maamarim_structured.json'' = Inr ?cd"
    by (simp add: load_def ex_chunk_file_input_def)
  have okc: "all_writable index_file \<and> all_writable quick_ref_file \<and>
            data_collection_metadata ?cd \<noteq> None"
    by (simp add: all_writable_def)
  have chunk: "error_of (create_search_indexes all_writable ex_chunk_file_input ''maamarim_structured.json'') = None"
    using indexer_output_files [where files = ex_chunk_file_input
      and structured_file = "''maamarim_structured.json''" and d = ?cd
      and writable = all_writable, THEN conjunct2, THEN conjunct2, THEN conjunct1, THEN mp,
      OF lc] okc by blast
  have none: "error_of (create_search_indexes all_writable (\<lambda>name. None) ''maamarim_structured.json'')
     = Some FileNotFoundError"
    using indexer_output_files [where files = "\<lambda>name. None"
      and structured_file = "''maamarim_structured.json''" and writable = all_writable,
      THEN conjunct1] by simp
  have mal: "error_of (create_search_indexes all_writable [''maamarim_structured.json'' \<mapsto> Malformed]
               ''maamarim_structured.json'') = Some JSONDecodeError"
    using indexer_output_files [where files = "[''maamarim_structured.json'' \<mapsto> Malformed]"
      and structured_file = "''maamarim_structured.json''" and writable = all_writable,
      THEN conjunct2, THEN conjunct1] by simp
  show ?thesis
    by (intro conjI)
       (rule ex_load3, rule completed, rule both [THEN conjunct1], rule q, rule chunk, rule none,
        rule mal)
qed

text \<open>
  The claim as stated, that a run either writes both files in full or neither, fails when
  the quick reference cannot be opened for writing: the JSON index was written and closed
  at lines 205 and 206, before the quick reference is opened at line 212, and the run
  aborts with that one output.
\<close>

theorem indexer_partial_output_counterexample:
  "error_of (create_search_indexes quick_ref_unwritable ex_files3 ''maamarim_structured.json'')
     = Some OSError \<and>
   files_after (create_search_indexes quick_ref_unwritable ex_files3 ''maamarim_structured.json'')
     index_file
     = Some (SearchIndexJson (indexes_of (build_indexes (get_or [] (documents ex_data3))))) \<and>
   files_after (create_search_indexes quick_ref_unwritable ex_files3 ''maamarim_structured.json'')
     quick_ref_file = None \<and>
   \<not> spec_all_or_nothing ex_files3
       (files_after (create_search_indexes quick_ref_unwritable ex_files3 ''maamarim_structured.json''))
       (SearchIndexJson (indexes_of (build_indexes (get_or [] (documents ex_data3)))))
       (TextFile (report (get_or [] (documents ex_data3))
                    (build_indexes (get_or [] (documents ex_data3)))
                    \<lparr>date_range = Some ''5710-5711'', other_keys = []\<rparr>))"
proof -
  have w: "quick_ref_unwritable index_file" "\<not> quick_ref_unwritable quick_ref_file"
    using output_names_differ by (simp_all add: quick_ref_unwritable_def)
  have run: "create_search_indexes quick_ref_unwritable ex_files3 ''maamarim_structured.json''
      = Inl (OSError, ex_files3(index_file \<mapsto>
               SearchIndexJson (indexes_of (build_indexes (get_or [] (documents ex_data3))))))"
    unfolding create_search_indexes_loaded [where files = ex_files3
        and name = "''maamarim_structured.json''" and d = ex_data3 and w = quick_ref_unwritable,
        OF ex_load3]
    using w by simp
  have a: "error_of (create_search_indexes quick_ref_unwritable ex_files3 ''maamarim_structured.json'')
     = Some OSError"
    unfolding run by (simp add: error_of_def)
  have b: "files_after (create_search_indexes quick_ref_unwritable ex_files3 ''maamarim_structured.json'')
     index_file
     = Some (SearchIndexJson (indexes_of (build_indexes (get_or [] (documents ex_data3)))))"
    unfolding run by (simp add: files_after_def)
  have c: "files_after (create_search_indexes quick_ref_unwritable ex_files3 ''maamarim_structured.json'')
     quick_ref_file = None"
    unfolding run using output_names_differ by (simp add: files_after_def ex_files3_outputs)
  have d: "\<not> spec_all_or_nothing ex_files3
       (files_after (create_search_indexes quick_ref_unwritable ex_files3 ''maamarim_structured.json''))
       (SearchIndexJson (indexes_of (build_indexes (get_or [] (documents ex_data3)))))
       (TextFile (report (get_or [] (documents ex_data3))
                    (build_indexes (get_or [] (documents ex_data3)))
                    \<lparr>date_range = Some ''5710-5711'', other_keys = []\<rparr>))"
    unfolding spec_all_or_nothing_def b c by (simp add: ex_files3_outputs)
  show ?thesis
    by (intro conjI) (rule a, rule b, rule c, rule d)
qed


section \<open>Defects in the data of a document\<close>

text \<open>
  Claim C5 says that a per-document defect, a missing document id included, is never
  fatal in either script. The Splitter breaks it: for a collection whose only document
  has no \<open>id\<close>, the run aborts with \<open>AttributeError\<close> at line 152
  (\<open>doc.get('id')\<close> is \<open>None\<close>, which has no \<open>replace\<close>), after the chunk file and
  before the master index is written. The Indexer, on the same input, completes and
  uses the id \<open>unknown\<close>.
\<close>

theorem splitter_missing_id_fatal:
  "error_of (split_maamarim_file all_writable ex_files_no_id ''maamarim_structured.json'' 10)
     = Some AttributeError \<and>
   files_after (split_maamarim_file all_writable ex_files_no_id ''maamarim_structured.json'' 10)
     ''maamarim_master_index.json'' = None \<and>
   error_of (create_search_indexes all_writable ex_files_no_id ''maamarim_structured.json'') = None \<and>
   map s_id (document_summary (build_indexes [ex_no_id_doc])) = [''unknown'']"
proof -
  have pos: "(0::int) < 10"
    by simp
  have c0: "chunk_docs_at [ex_no_id_doc] 10 0 = [ex_no_id_doc]"
    by (simp add: chunk_docs_at_take_drop [OF pos])
  have n: "[0..<nat (num_chunks_of [ex_no_id_doc] 10)] = [0]"
    by (simp add: num_chunks_of_def)
  have ld: "load ex_files_no_id ''maamarim_structured.json'' = Inr ex_data_no_id"
    by (simp add: load_def ex_files_no_id_def)
  have docs: "get_or [] (documents ex_data_no_id) = [ex_no_id_doc]"
    by (simp add: ex_data_no_id_def get_or_def)
  have noid: "doc_id ex_no_id_doc = None"
    by (simp add: ex_no_id_doc_def)
  have run: "split_maamarim_file all_writable ex_files_no_id ''maamarim_structured.json'' 10
      = Inl (AttributeError,
             ex_files_no_id(chunk_file_name 0 \<mapsto>
               ChunkJson (chunk_data_at [ex_no_id_doc] 10
                 (get_or empty_collection_metadata (data_collection_metadata ex_data_no_id)) 0)))"
    by (simp add: split_maamarim_file_def ld docs Let_def all_writable_def n write_file_def c0 noid)
  have name: "chunk_file_name 0 \<noteq> ''maamarim_master_index.json''"
    by (simp add: chunk_file_name_def)
  have a: "error_of (split_maamarim_file all_writable ex_files_no_id ''maamarim_structured.json'' 10)
     = Some AttributeError"
    by (simp add: run error_of_def)
  have b: "files_after (split_maamarim_file all_writable ex_files_no_id ''maamarim_structured.json'' 10)
     ''maamarim_master_index.json'' = None"
    using name unfolding run by (simp add: files_after_def ex_files_no_id_def)
  have c: "error_of (create_search_indexes all_writable ex_files_no_id ''maamarim_structured.json'') = None"
    by (simp add: create_search_indexes_def ld Let_def write_file_def all_writable_def
        ex_data_no_id_def error_of_def)
  have d: "map s_id (document_summary (build_indexes [ex_no_id_doc])) = [''unknown'']"
    by (simp add: document_summary_build summary_of_def noid get_or_def)
  show ?thesis
    by (intro conjI) (rule a, rule b, rule c, rule d)
qed

theorem splitter_missing_id_fatal_witness:
  "error_of (split_maamarim_file all_writable ex_files_no_id ''maamarim_structured.json'' 10)
     \<noteq> None \<and>
   error_of (create_search_indexes all_writable ex_files_no_id ''maamarim_structured.json'') = None"
  using splitter_missing_id_fatal by simp


section \<open>The glossary\<close>

text \<open>
  Claim C6. Glossary parsing, for any glossary string: a candidate entry without \<open>:\<close>
  yields nothing; a segment without \<open>:\<close> between two \<open>;\<close> changes neither the
  entries parsed from the text before and after it nor what the Indexer adds to its
  glossary index; a leading \<open>|\<close> changes nothing; the Indexer registers exactly the
  parsed entries, in order. The string
  \<open>Aleph (Alef): first letter; Bet (Vet): second letter\<close> parses into exactly two entries:
  Hebrew term \<open>Aleph\<close>, transliteration \<open>Alef\<close>, definition \<open>first letter\<close>, and
  Hebrew term \<open>Bet\<close>, transliteration \<open>Vet\<close>, definition \<open>second letter\<close>.
\<close>

theorem glossary_parsing:
  "(\<forall>entry. CHR '':'' \<notin> set entry \<longrightarrow> parse_entry entry = None) \<and>
   (CHR '':'' \<notin> set junk \<and> CHR '';'' \<notin> set junk \<longrightarrow>
      parsed_glossary (a @ '';'' @ junk @ '';'' @ b) = parsed_glossary (a @ '';'' @ b) \<and>
      index_glossary d hdate (a @ '';'' @ junk @ '';'' @ b) gi
        = index_glossary d hdate (a @ '';'' @ b) gi) \<and>
   parsed_glossary (CHR ''|'' # g) = parsed_glossary g \<and>
   index_glossary d hdate g gi = fold (register_entry d hdate) (parsed_glossary g) gi \<and>
   parsed_glossary ''Aleph (Alef): first letter; Bet (Vet): second letter''
     = [(''Aleph'', ''Alef'', ''first letter''), (''Bet'', ''Vet'', ''second letter'')]"
proof -
  have p1: "\<forall>entry. CHR '':'' \<notin> set entry \<longrightarrow> parse_entry entry = None"
    by (simp add: parse_entry_no_colon)
  have p2: "parsed_glossary (a @ '';'' @ junk @ '';'' @ b) = parsed_glossary (a @ '';'' @ b)"
    if "CHR '':'' \<notin> set junk" "CHR '';'' \<notin> set junk"
    using parsed_glossary_skip [OF that, of a b] by simp
  have p3: "index_glossary d hdate (a @ '';'' @ junk @ '';'' @ b) gi
              = index_glossary d hdate (a @ '';'' @ b) gi"
    if "CHR '':'' \<notin> set junk" "CHR '';'' \<notin> set junk"
    unfolding index_glossary_parsed p2 [OF that] ..
  have p4: "parsed_glossary (CHR ''|'' # g) = parsed_glossary g"
    by (rule parsed_glossary_pipe)
  have p5: "index_glossary d hdate g gi = fold (register_entry d hdate) (parsed_glossary g) gi"
    by (rule index_glossary_parsed)
  have p23: "CHR '':'' \<notin> set junk \<and> CHR '';'' \<notin> set junk \<longrightarrow>
      parsed_glossary (a @ '';'' @ junk @ '';'' @ b) = parsed_glossary (a @ '';'' @ b) \<and>
      index_glossary d hdate (a @ '';'' @ junk @ '';'' @ b) gi
        = index_glossary d hdate (a @ '';'' @ b) gi"
    using p2 p3 by (intro impI conjI) (erule conjE, assumption)+
  show ?thesis
    by (intro conjI) (rule p1, rule p23, rule p4, rule p5, rule parsed_glossary_example)
qed

theorem glossary_parsing_witness:
  "CHR '':'' \<notin> set '' no colon here '' \<and> CHR '';'' \<notin> set '' no colon here '' \<and>
   parsed_glossary ''Aleph (Alef): first letter; no colon here ; Bet (Vet): second letter''
     = [(''Aleph'', ''Alef'', ''first letter''), (''Bet'', ''Vet'', ''second letter'')] \<and>
   parse_entry ''no colon here'' = None"
proof -
  note t = glossary_parsing [of "'' no colon here ''" "''Aleph (Alef): first letter''"
      "'' Bet (Vet): second letter''" "[]" "[]" "[]" "[]"]
  have h: "CHR '':'' \<notin> set '' no colon here '' \<and> CHR '';'' \<notin> set '' no colon here ''"
    by simp
  have "parsed_glossary (''Aleph (Alef): first letter'' @ '';'' @ '' no colon here '' @ '';''
                          @ '' Bet (Vet): second letter'')
        = parsed_glossary (''Aleph (Alef): first letter'' @ '';'' @ '' Bet (Vet): second letter'')"
    using t [THEN conjunct2, THEN conjunct1, THEN mp, OF h] by (rule conjunct1)
  then have a: "parsed_glossary ''Aleph (Alef): first letter; no colon here ; Bet (Vet): second letter''
     = [(''Aleph'', ''Alef'', ''first letter''), (''Bet'', ''Vet'', ''second letter'')]"
    using t [THEN conjunct2, THEN conjunct2, THEN conjunct2, THEN conjunct2] by simp
  have b: "parse_entry ''no colon here'' = None"
    using t [THEN conjunct1, rule_format, of "''no colon here''"] by simp
  show ?thesis
    by (intro conjI) (rule h [THEN conjunct1], rule h [THEN conjunct2], rule a, rule b)
qed

text \<open>
  Claim C7. For a parsed glossary entry the Indexer appends to its glossary index, under
  a key \<open>k\<close>: a record for the Hebrew term when \<open>k\<close> is the non-empty Hebrew term, a
  record for the transliteration when \<open>k\<close> is the non-empty transliteration, and one
  keyword record for each of the first three whitespace-split tokens of the English
  definition that is longer than 3 characters and whose key (the token lower-cased, with
  trailing \<open>.,;:\<close> removed) is not a stop word and equals \<open>k\<close>; nothing else is
  appended, and a key is new only for these reasons. The stop words are
  \<open>the, and, of, in, to, a, an\<close>. The length test is on the token as split, and the key
  is the lower-cased token without the trailing punctuation: the keys of the index after
  the entry are the keys before it, then the Hebrew term, the transliteration and the
  keys of the accepted tokens, each where it is new; the key of a token has no upper-case
  letter \<open>A\<close> to \<open>Z\<close>, so that the stop-word test does not depend on the case of the token,
  it does not end with one of \<open>.,;:\<close>, and the lower-cased token is the key followed by
  such characters only.
\<close>

theorem glossary_keywords:
  "entries_at (register_entry d hdate (hebrew_term, transliteration, english_part) gi) k =
     entries_at gi k
     @ (if hebrew_term \<noteq> [] \<and> k = hebrew_term
        then [ByHebrewTerm d transliteration english_part hdate] else [])
     @ (if transliteration \<noteq> [] \<and> k = transliteration
        then [ByTransliteration d hebrew_term english_part hdate] else [])
     @ map (\<lambda>w. ByKeyword d hebrew_term english_part hdate)
         (filter (\<lambda>w. 3 < length w \<and> keyword_of w \<notin> set stop_words \<and> keyword_of w = k)
            (take 3 (py_split english_part))) \<and>
   (map_of (register_entry d hdate (hebrew_term, transliteration, english_part) gi) k = None) =
     (map_of gi k = None \<and>
      \<not> (hebrew_term \<noteq> [] \<and> k = hebrew_term) \<and>
      \<not> (transliteration \<noteq> [] \<and> k = transliteration) \<and>
      (\<forall>w \<in> set (take 3 (py_split english_part)).
         \<not> (3 < length w \<and> keyword_of w \<notin> set stop_words \<and> keyword_of w = k))) \<and>
   keyword_of w = rstrip_chars ''.,;:'' (lower w) \<and>
   set stop_words = {''the'', ''and'', ''of'', ''in'', ''to'', ''a'', ''an''} \<and>
   index_glossary d hdate g gi = fold (register_entry d hdate) (parsed_glossary g) gi \<and>
   map fst (register_entry d hdate (hebrew_term, transliteration, english_part) gi) =
     fold add_key
       ((if hebrew_term \<noteq> [] then [hebrew_term] else [])
        @ (if transliteration \<noteq> [] then [transliteration] else [])
        @ map keyword_of
            (filter (\<lambda>w. 3 < length w \<and> keyword_of w \<notin> set stop_words)
               (take 3 (py_split english_part))))
       (map fst gi) \<and>
   (\<forall>c \<in> set ''ABCDEFGHIJKLMNOPQRSTUVWXYZ''. c \<notin> set (keyword_of w)) \<and>
   lower ''ABCDEFGHIJKLMNOPQRSTUVWXYZ'' = ''abcdefghijklmnopqrstuvwxyz'' \<and>
   lower ''abcdefghijklmnopqrstuvwxyz 0123456789.,;:'' = ''abcdefghijklmnopqrstuvwxyz 0123456789.,;:'' \<and>
   (\<exists>p. lower w = keyword_of w @ p \<and> set p \<subseteq> set ''.,;:'') \<and>
   (keyword_of w = [] \<or> last (keyword_of w) \<notin> set ''.,;:'')"
proof -
  have e: "entries_at (register_entry d hdate (hebrew_term, transliteration, english_part) gi) k =
     entries_at gi k
     @ (if hebrew_term \<noteq> [] \<and> k = hebrew_term
        then [ByHebrewTerm d transliteration english_part hdate] else [])
     @ (if transliteration \<noteq> [] \<and> k = transliteration
        then [ByTransliteration d hebrew_term english_part hdate] else [])
     @ map (\<lambda>w. ByKeyword d hebrew_term english_part hdate)
         (filter (\<lambda>w. 3 < length w \<and> keyword_of w \<notin> set stop_words \<and> keyword_of w = k)
            (take 3 (py_split english_part)))"
    by (cases "english_part = []")
       (simp_all add: register_entry_def Let_def entries_at_fold_register_keyword
          entries_at_append_entry py_split_Nil)
  have n: "(map_of (register_entry d hdate (hebrew_term, transliteration, english_part) gi) k = None) =
     (map_of gi k = None \<and>
      \<not> (hebrew_term \<noteq> [] \<and> k = hebrew_term) \<and>
      \<not> (transliteration \<noteq> [] \<and> k = transliteration) \<and>
      (\<forall>w \<in> set (take 3 (py_split english_part)).
         \<not> (3 < length w \<and> keyword_of w \<notin> set stop_words \<and> keyword_of w = k)))"
    by (cases "english_part = []")
       (auto simp add: register_entry_def Let_def no_key_fold_register_keyword
          no_key_append_entry py_split_Nil)
  have s: "set stop_words = {''the'', ''and'', ''of'', ''in'', ''to'', ''a'', ''an''}"
    by (simp add: stop_words_def)
  have k: "keyword_of w = rstrip_chars ''.,;:'' (lower w)"
    by (simp add: keyword_of_def)
  have i: "index_glossary d hdate g gi = fold (register_entry d hdate) (parsed_glossary g) gi"
    by (rule index_glossary_parsed)
  have u: "\<forall>c \<in> set ''ABCDEFGHIJKLMNOPQRSTUVWXYZ''. c \<notin> set (keyword_of w)"
    by (intro ballI) (rule keyword_of_no_upper)
  have p: "\<exists>p. lower w = keyword_of w @ p \<and> set p \<subseteq> set ''.,;:''"
    unfolding keyword_of_def by (rule rstrip_chars_split)
  have l: "keyword_of w = [] \<or> last (keyword_of w) \<notin> set ''.,;:''"
    unfolding keyword_of_def by (rule rstrip_chars_last)
  show ?thesis
    by (intro conjI)
       (rule e, rule n, rule k, rule s, rule i, rule keys_register_entry, rule u,
        rule lower_alphabet(1), rule lower_alphabet(2), rule p, rule l)
qed

theorem glossary_keywords_witness:
  "entries_at (register_entry ''m1'' ''5710'' (''Aleph'', ''Alef'', ''The. first of, letter'') []) ''first''
     = [ByKeyword ''m1'' ''Aleph'' ''The. first of, letter'' ''5710''] \<and>
   map_of (register_entry ''m1'' ''5710'' (''Aleph'', ''Alef'', ''The. first of, letter'') []) ''the'' = None \<and>
   map_of (register_entry ''m1'' ''5710'' (''Aleph'', ''Alef'', ''The. first of, letter'') []) ''letter'' = None \<and>
   entries_at (register_entry ''m1'' ''5710'' (''Aleph'', ''Alef'', ''The. first of, letter'') []) ''Aleph''
     = [ByHebrewTerm ''m1'' ''Alef'' ''The. first of, letter'' ''5710''] \<and>
   map_of (register_entry ''m1'' ''5710'' (''Aleph'', ''Alef'', ''The. first of, letter'') []) ''The'' = None \<and>
   map_of (register_entry ''m1'' ''5710'' (''Aleph'', ''Alef'', ''The. first of, letter'') []) ''The.'' = None \<and>
   map fst (register_entry ''m1'' ''5710'' (''Aleph'', ''Alef'', ''The. first of, letter'') [])
     = [''Aleph'', ''Alef'', ''first''] \<and>
   CHR ''T'' \<notin> set (keyword_of ''The.'') \<and>
   keyword_of ''The.'' = ''the''"
proof -
  note t = glossary_keywords [of "''m1''" "''5710''" "''Aleph''" "''Alef''"
      "''The. first of, letter''" "[]" _ "''The.''" "[]"]
  have a: "entries_at (register_entry ''m1'' ''5710'' (''Aleph'', ''Alef'', ''The. first of, letter'') []) ''first''
     = [ByKeyword ''m1'' ''Aleph'' ''The. first of, letter'' ''5710'']"
    using t [of "''first''", THEN conjunct1]
    by (simp add: py_split_example2 keyword_of_examples entries_at_Nil stop_words_def)
  have b: "map_of (register_entry ''m1'' ''5710'' (''Aleph'', ''Alef'', ''The. first of, letter'') []) ''the'' = None"
    using t [of "''the''", THEN conjunct2, THEN conjunct1]
    by (simp add: py_split_example2 keyword_of_examples stop_words_def)
  have c: "map_of (register_entry ''m1'' ''5710'' (''Aleph'', ''Alef'', ''The. first of, letter'') []) ''letter'' = None"
    using t [of "''letter''", THEN conjunct2, THEN conjunct1]
    by (simp add: py_split_example2 keyword_of_examples stop_words_def)
  have d: "entries_at (register_entry ''m1'' ''5710'' (''Aleph'', ''Alef'', ''The. first of, letter'') []) ''Aleph''
     = [ByHebrewTerm ''m1'' ''Alef'' ''The. first of, letter'' ''5710'']"
    using t [of "''Aleph''", THEN conjunct1]
    by (simp add: py_split_example2 keyword_of_examples entries_at_Nil stop_words_def)
  have e: "map_of (register_entry ''m1'' ''5710'' (''Aleph'', ''Alef'', ''The. first of, letter'') []) ''The'' = None"
    using t [of "''The''", THEN conjunct2, THEN conjunct1]
    by (simp add: py_split_example2 keyword_of_examples stop_words_def)
  have f: "map_of (register_entry ''m1'' ''5710'' (''Aleph'', ''Alef'', ''The. first of, letter'') []) ''The.'' = None"
    using t [of "''The.''", THEN conjunct2, THEN conjunct1]
    by (simp add: py_split_example2 keyword_of_examples stop_words_def)
  note rest = t [of "''first''", THEN conjunct2, THEN conjunct2, THEN conjunct2, THEN conjunct2,
      THEN conjunct2]
  have g: "map fst (register_entry ''m1'' ''5710'' (''Aleph'', ''Alef'', ''The. first of, letter'') [])
     = [''Aleph'', ''Alef'', ''first'']"
    using rest [THEN conjunct1]
    by (simp add: py_split_example2 keyword_of_examples stop_words_def add_key_def)
  have h: "CHR ''T'' \<notin> set (keyword_of ''The.'')"
    using rest [THEN conjunct2, THEN conjunct1] by simp
  have i: "keyword_of ''The.'' = ''the''"
    by (rule keyword_of_examples(1))
  show ?thesis
    by (intro conjI) (rule a, rule b, rule c, rule d, rule e, rule f, rule g, rule h, rule i)
qed


text \<open>
  Claim C8, as amended. The mapping from a topic to its representative concept is built
  by a pass over the raw documents alone. It holds, for each topic, the concept of the
  first (topic, concept) pair with that topic, the pairs taken in document order and then
  in list order, where position \<open>i\<close> of \<open>topics\<close> is paired with position \<open>i\<close> of
  \<open>key_concepts\<close> and a position beyond the end of \<open>key_concepts\<close> has no pair: an
  encounter of a topic at such a position records nothing and leaves the topic open to a
  later encounter. A recorded concept is never overwritten, whatever documents follow.
  When no document has more topics than concepts, the recorded concept is the one at the
  topic's first encounter, as the specification words it.
\<close>

theorem topic_to_concept_first_pair:
  "map_of (build_topic_to_concept docs) t = map_of (topic_concept_pairs docs) t \<and>
   (\<forall>c later. map_of (build_topic_to_concept docs) t = Some c \<longrightarrow>
              map_of (build_topic_to_concept (docs @ later)) t = Some c) \<and>
   ((\<forall>doc \<in> set docs. length (get_topics doc) \<le> length (get_key_concepts doc)) \<longrightarrow>
      map_of (build_topic_to_concept docs) t = spec_first_seen_concept docs t)"
proof -
  have a: "map_of (build_topic_to_concept docs) t = map_of (topic_concept_pairs docs) t"
    by (rule map_of_build_topic_to_concept)
  have b: "map_of (build_topic_to_concept (docs @ later)) t = Some c"
    if "map_of (build_topic_to_concept docs) t = Some c" for c later
    using that
    by (simp add: map_of_build_topic_to_concept topic_concept_pairs_append map_add_def)
  have c: "map_of (build_topic_to_concept docs) t = spec_first_seen_concept docs t"
    if "\<forall>doc \<in> set docs. length (get_topics doc) \<le> length (get_key_concepts doc)"
    using pairs_eq_spec [OF that] by (simp add: map_of_build_topic_to_concept)
  show ?thesis
    using a b c by blast
qed

theorem topic_to_concept_first_pair_witness:
  "map_of (build_topic_to_concept ex_mismatched_docs) ''b''
     = map_of (topic_concept_pairs ex_mismatched_docs) ''b'' \<and>
   map_of (topic_concept_pairs ex_mismatched_docs) ''b'' = Some ''y'' \<and>
   map_of (build_topic_to_concept (get_or [] (documents ex_data3))) ''simcha'' = Some ''joy'' \<and>
   spec_first_seen_concept (get_or [] (documents ex_data3)) ''simcha'' = Some ''joy''"
proof -
  note t1 = topic_to_concept_first_pair [of ex_mismatched_docs "''b''"]
  note t2 = topic_to_concept_first_pair [of "get_or [] (documents ex_data3)" "''simcha''"]
  have eq: "\<forall>doc \<in> set (get_or [] (documents ex_data3)).
              length (get_topics doc) \<le> length (get_key_concepts doc)"
    by (simp add: ex_data3_docs ex_topic_doc_fields)
  have a: "map_of (build_topic_to_concept ex_mismatched_docs) ''b''
             = map_of (topic_concept_pairs ex_mismatched_docs) ''b''"
    using t1 by blast
  have b: "map_of (topic_concept_pairs ex_mismatched_docs) ''b'' = Some ''y''"
    by (simp add: topic_concept_pairs_def ex_mismatched_docs_def ex_topic_doc_fields)
  have c: "spec_first_seen_concept (get_or [] (documents ex_data3)) ''simcha'' = Some ''joy''"
    by (simp add: ex_data3_docs ex_topic_doc_fields)
  have d: "map_of (build_topic_to_concept (get_or [] (documents ex_data3))) ''simcha'' = Some ''joy''"
    using t2 [THEN conjunct2, THEN conjunct2, THEN mp, OF eq] c by simp
  show ?thesis
    using a b c d by blast
qed

text \<open>
  The claim as stated fails where the first encounter of a topic has no concept at its
  position: topic \<open>b\<close> is first met at position 1 of a document with one concept, and
  the code records the concept of its second encounter, where the specification's
  reading gives no concept.
\<close>

theorem topic_to_concept_counterexample:
  "map_of (build_topic_to_concept ex_mismatched_docs) ''b'' = Some ''y'' \<and>
   spec_first_seen_concept ex_mismatched_docs ''b'' = None"
  by (simp add: ex_mismatched_docs_def build_topic_to_concept_def topic_concept_step_def
      ex_topic_doc_fields enumerate_eq_zip upt_rec)


text \<open>
  Claim C9, as amended. The keys of the topic index are the non-blank topics in the order
  of their first occurrence, and each key holds one entry per occurrence of the topic in
  a document's \<open>topics\<close> list. The top-topics ranking of the report orders the entries
  of the topic index by their number of index entries, descending; topics with the same
  number keep the order of the topic index (the sort is stable) and no entry is lost or
  added; only the first 15 are printed, one line each, after the \<open>TOP TOPICS:\<close>
  heading. The number of index entries is the count of documents referencing the topic
  whenever no document lists a topic twice.
\<close>

theorem top_topics_ranking:
  "map fst (topic_index (build_indexes docs))
     = first_occurrences (filter (\<lambda>t. strip t \<noteq> []) (concat (map get_topics docs))) \<and>
   (\<forall>(t, refs) \<in> set (topic_index (build_indexes docs)). length refs = occurrence_count docs t) \<and>
   sorted_wrt (\<lambda>a b. length (snd b) \<le> length (snd a)) (sorted_topics (build_indexes docs)) \<and>
   (\<forall>n. filter (\<lambda>x. length (snd x) = n) (sorted_topics (build_indexes docs))
          = filter (\<lambda>x. length (snd x) = n) (topic_index (build_indexes docs))) \<and>
   top_topics_lines docs (build_indexes docs)
     = map (topic_line (build_topic_to_concept docs)) (take 15 (sorted_topics (build_indexes docs))) \<and>
   length (top_topics_lines docs (build_indexes docs))
     = min 15 (length (topic_index (build_indexes docs))) \<and>
   (\<exists>before after. report docs (build_indexes docs) cm
        = before @ [''TOP TOPICS:'', replicate 15 CHR ''-'']
          @ top_topics_lines docs (build_indexes docs) @ after) \<and>
   ((\<forall>doc \<in> set docs. distinct (get_topics doc)) \<longrightarrow>
      (\<forall>t. occurrence_count docs t = spec_document_count docs t))"
proof -
  let ?st = "build_indexes docs"
  have a: "map fst (topic_index ?st)
     = first_occurrences (filter (\<lambda>t. strip t \<noteq> []) (concat (map get_topics docs)))"
    by (rule keys_topic_index_build)
  have b: "\<forall>(t, refs) \<in> set (topic_index ?st). length refs = occurrence_count docs t"
    using topic_index_entry_count by blast
  have c: "sorted_wrt (\<lambda>a b. length (snd b) \<le> length (snd a)) (sorted_topics ?st)"
    unfolding sorted_topics_def by (rule sorted_reverse_descending)
  have d: "\<forall>n. filter (\<lambda>x. length (snd x) = n) (sorted_topics ?st)
          = filter (\<lambda>x. length (snd x) = n) (topic_index ?st)"
    unfolding sorted_topics_def by (simp add: sorted_reverse_stable)
  have e: "top_topics_lines docs ?st
     = map (topic_line (build_topic_to_concept docs)) (take 15 (sorted_topics ?st))"
    by (simp add: top_topics_lines_def)
  have f: "length (top_topics_lines docs ?st) = min 15 (length (topic_index ?st))"
    by (simp add: top_topics_lines_def sorted_topics_def length_sorted_reverse min.commute)
  have g: "\<exists>before after. report docs ?st cm
        = before @ [''TOP TOPICS:'', replicate 15 CHR ''-''] @ top_topics_lines docs ?st @ after"
    unfolding report_def by (metis append.assoc)
  have h: "(\<forall>doc \<in> set docs. distinct (get_topics doc)) \<longrightarrow>
      (\<forall>t. occurrence_count docs t = spec_document_count docs t)"
    using occurrence_count_distinct by blast
  show ?thesis
    using a b c d e f g h by blast
qed

theorem top_topics_ranking_witness:
  "map fst (topic_index (build_indexes (get_or [] (documents ex_data3)))) = [''emunah'', ''simcha''] \<and>
   occurrence_count (get_or [] (documents ex_data3)) ''emunah'' = 3 \<and>
   spec_document_count (get_or [] (documents ex_data3)) ''emunah'' = 3 \<and>
   length (top_topics_lines (get_or [] (documents ex_data3))
             (build_indexes (get_or [] (documents ex_data3)))) = 2"
proof -
  note t = top_topics_ranking [of "get_or [] (documents ex_data3)" empty_collection_metadata]
  have dist: "\<forall>doc \<in> set (get_or [] (documents ex_data3)). distinct (get_topics doc)"
    by (simp add: ex_data3_docs ex_topic_doc_fields)
  have keys: "map fst (topic_index (build_indexes (get_or [] (documents ex_data3))))
                = [''emunah'', ''simcha'']"
    using t [THEN conjunct1]
    by (simp add: ex_data3_docs ex_topic_doc_fields strip_examples first_occurrences_def
        add_key_def)
  have sc: "spec_document_count (get_or [] (documents ex_data3)) ''emunah'' = 3"
    by (simp add: spec_document_count_def ex_data3_docs ex_topic_doc_fields)
  have "\<forall>t. occurrence_count (get_or [] (documents ex_data3)) t
             = spec_document_count (get_or [] (documents ex_data3)) t"
    using t dist by blast
  then have oc: "occurrence_count (get_or [] (documents ex_data3)) ''emunah'' = 3"
    using sc by simp
  have "length (topic_index (build_indexes (get_or [] (documents ex_data3)))) = 2"
    using keys by (metis length_map length_Cons list.size(3) numeral_2_eq_2)
  then have len: "length (top_topics_lines (get_or [] (documents ex_data3))
             (build_indexes (get_or [] (documents ex_data3)))) = 2"
    using t [THEN conjunct2, THEN conjunct2, THEN conjunct2, THEN conjunct2, THEN conjunct2,
        THEN conjunct1]
    by simp
  show ?thesis
    using keys oc sc len by blast
qed

text \<open>
  The claim as stated, with the count of documents referencing a topic as the sort key,
  fails when a document lists a topic more than once: topic \<open>a\<close> is referenced by one
  document, which lists it three times, topic \<open>b\<close> by two documents, and the report
  ranks \<open>a\<close> before \<open>b\<close>, with 3 and 2 "documents".
\<close>

theorem top_topics_counterexample:
  "map fst (sorted_topics (build_indexes ex_repeat_docs)) = [''a'', ''b''] \<and>
   spec_document_count ex_repeat_docs ''a'' = 1 \<and>
   spec_document_count ex_repeat_docs ''b'' = 2 \<and>
   top_topics_lines ex_repeat_docs (build_indexes ex_repeat_docs)
     = [''a: 3 documents'', ''b: 2 documents'']"
proof -
  have s: "sorted_topics (build_indexes ex_repeat_docs)
     = [(''a'', [topic_ref_of (ex_topic_doc ''m3'' [''a'', ''a'', ''a''] []),
                 topic_ref_of (ex_topic_doc ''m3'' [''a'', ''a'', ''a''] []),
                 topic_ref_of (ex_topic_doc ''m3'' [''a'', ''a'', ''a''] [])]),
        (''b'', [topic_ref_of (ex_topic_doc ''m1'' [''b''] []),
                 topic_ref_of (ex_topic_doc ''m2'' [''b''] [])])]"
    by (simp add: sorted_topics_def sorted_reverse_def ex_repeat_topic_index)
  have c: "spec_document_count ex_repeat_docs ''a'' = 1 \<and> spec_document_count ex_repeat_docs ''b'' = 2"
    by (simp add: spec_document_count_def ex_repeat_docs_def ex_topic_doc_fields)
  have m: "build_topic_to_concept ex_repeat_docs = []"
    by (simp add: build_topic_to_concept_def ex_repeat_docs_def ex_topic_doc_fields
        topic_concept_step_pair)
  have l: "top_topics_lines ex_repeat_docs (build_indexes ex_repeat_docs)
     = [''a: 3 documents'', ''b: 2 documents'']"
    by (simp add: top_topics_lines_def s m topic_line_def get_or_def digit_char_def)
  show ?thesis
    using s c l by simp
qed


section \<open>Blank topics and concepts in the two artifacts\<close>

text \<open>
  Claim C10. The Splitter's master index (for a positive \<open>docs_per_chunk\<close>) has an
  entry in \<open>topic_to_chunks\<close> for every element of every document's \<open>topics\<close> list,
  and in \<open>concept_to_chunks\<close> for every element of every \<open>key_concepts\<close> list, empty
  and whitespace-only strings included: it applies no filter. The Indexer's \<open>topic_index\<close>
  and \<open>concept_index\<close> have a key exactly for the values that are not blank after
  \<open>strip\<close>. So for an input with a blank topic or concept the two artifacts disagree
  on the keys.
\<close>

theorem blank_facet_values_differ:
  assumes "0 < docs_per_chunk"
  shows "(\<forall>doc \<in> set docs.
            (\<forall>t \<in> set (get_topics doc).
               map_of (topic_to_chunks (master_index_of docs docs_per_chunk cm)) t \<noteq> None) \<and>
            (\<forall>c \<in> set (get_key_concepts doc).
               map_of (concept_to_chunks (master_index_of docs docs_per_chunk cm)) c \<noteq> None)) \<and>
         (\<forall>t. (map_of (topic_index (build_indexes docs)) t \<noteq> None) =
                 (strip t \<noteq> [] \<and> (\<exists>doc \<in> set docs. t \<in> set (get_topics doc)))) \<and>
         (\<forall>c. (map_of (concept_index (build_indexes docs)) c \<noteq> None) =
                 (strip c \<noteq> [] \<and> (\<exists>doc \<in> set docs. c \<in> set (get_key_concepts doc))))"
proof -
  let ?mi = "master_index_of docs docs_per_chunk cm"
  have mt: "(topic_to_chunks ?mi, get_topics) \<in> set [(topic_to_chunks ?mi, get_topics),
             (concept_to_chunks ?mi, get_key_concepts),
             (date_to_chunks ?mi, date_keys),
             (opening_phrase_to_chunks ?mi, opening_keys),
             (glossary_term_to_chunks ?mi, glossary_keys)]"
    and mc: "(concept_to_chunks ?mi, get_key_concepts) \<in> set [(topic_to_chunks ?mi, get_topics),
             (concept_to_chunks ?mi, get_key_concepts),
             (date_to_chunks ?mi, date_keys),
             (opening_phrase_to_chunks ?mi, opening_keys),
             (glossary_term_to_chunks ?mi, glossary_keys)]"
    by simp_all
  have splitter_topics: "map_of (topic_to_chunks ?mi) t \<noteq> None"
    if "doc \<in> set docs" "t \<in> set (get_topics doc)" for doc t
    using doc_in_some_chunk [OF assms that(1)] that(2)
    unfolding master_facets(2) [OF mt] by blast
  have splitter_concepts: "map_of (concept_to_chunks ?mi) c \<noteq> None"
    if "doc \<in> set docs" "c \<in> set (get_key_concepts doc)" for doc c
    using doc_in_some_chunk [OF assms that(1)] that(2)
    unfolding master_facets(2) [OF mc] by blast
  have indexer_topics: "(map_of (topic_index (build_indexes docs)) t \<noteq> None) =
                 (strip t \<noteq> [] \<and> (\<exists>doc \<in> set docs. t \<in> set (get_topics doc)))" for t
    by (simp only: build_indexes_def no_key_topic_index_fold) (simp add: empty_index_state_def)
  have indexer_concepts: "(map_of (concept_index (build_indexes docs)) c \<noteq> None) =
                 (strip c \<noteq> [] \<and> (\<exists>doc \<in> set docs. c \<in> set (get_key_concepts doc)))" for c
    by (simp only: build_indexes_def no_key_concept_index_fold) (simp add: empty_index_state_def)
  show ?thesis
    using splitter_topics splitter_concepts indexer_topics indexer_concepts by blast
qed

theorem blank_facet_values_differ_witness:
  "(0::int) < 10 \<and>
   map_of (topic_to_chunks (master_index_of [ex_blank_doc] 10 empty_collection_metadata)) ''  '' \<noteq> None \<and>
   map_of (topic_index (build_indexes [ex_blank_doc])) ''  '' = None \<and>
   map_of (concept_to_chunks (master_index_of [ex_blank_doc] 10 empty_collection_metadata)) [] \<noteq> None \<and>
   map_of (concept_index (build_indexes [ex_blank_doc])) [] = None"
proof -
  have pos: "(0::int) < 10"
    by simp
  note t = blank_facet_values_differ [OF pos, of "[ex_blank_doc]" empty_collection_metadata]
  have tp: "''  '' \<in> set (get_topics ex_blank_doc)" and cp: "[] \<in> set (get_key_concepts ex_blank_doc)"
    by (simp_all add: ex_blank_doc_def ex_topic_doc_fields)
  have a: "map_of (topic_to_chunks (master_index_of [ex_blank_doc] 10 empty_collection_metadata)) ''  '' \<noteq> None"
    using t tp by simp
  have b: "map_of (concept_to_chunks (master_index_of [ex_blank_doc] 10 empty_collection_metadata)) [] \<noteq> None"
    using t cp by simp
  have c: "map_of (topic_index (build_indexes [ex_blank_doc])) ''  '' = None"
    using t [THEN conjunct2, THEN conjunct1, rule_format, of "''  ''"] by (simp add: strip_blank)
  have d: "map_of (concept_index (build_indexes [ex_blank_doc])) [] = None"
    using t [THEN conjunct2, THEN conjunct2, rule_format, of "[]"] by (simp add: strip_blank)
  show ?thesis
    using pos a b c d by blast
qed

end
